(* ===== verification/Rheo_Prelude.thy ===== *)
theory Rheo_Prelude
  imports Main "HOL-Library.Word" "HOL-Library.Char_ord" "HOL-Library.List_Lexorder"
    "HOL-Library.Sublist"
begin

text \<open>
  What every component shares: the exceptions of the program as one datatype and the
  result type built on it, the types that name the model's values, the Python string
  operations the source uses, and the lemma collections the component proofs draw on.

  A Python \<open>str\<close> is a HOL \<open>string\<close>: a list of characters below code point 256.
  A \<open>uuid.UUID\<close> is the 128-bit word behind it, \<open>bytes\<close> is a list of octets,
  and a \<open>datetime\<close> or \<open>timedelta\<close> is its number of microseconds.
\<close>

type_synonym uuid = "128 word"
type_synonym byte = "8 word"
type_synonym bytes = "byte list"
type_synonym datetime = int

definition days :: "int \<Rightarrow> datetime" where
  "days n = n * 86400000000"

definition seconds :: "int \<Rightarrow> datetime" where
  "seconds n = n * 1000000"

lemma days_mono [simp]: "days a \<le> days b \<longleftrightarrow> a \<le> b"
  by (simp add: days_def)

lemma days_nonneg [simp]: "0 \<le> days n \<longleftrightarrow> 0 \<le> n"
  by (simp add: days_def)

lemma days_pos [simp]: "0 < days n \<longleftrightarrow> 0 < n"
  by (simp add: days_def)

section \<open>Exceptions and results\<close>

text \<open>
  One constructor per exception class the modelled code raises; a class with a
  \<open>state\<close> carries it first. \<open>IntegrityError\<close> is the driver's constraint
  violation, with the kind of the constraint and its name.
\<close>

datatype violation = UniqueViolation | ForeignKeyViolation | CheckViolation

datatype py_exc =
    TypeError string
  | ValueError string
  | RuntimeError string
  | NotImplementedError string
  | AssertionError
  | OverflowError string
  | IntegrityError violation string
  | SettingsError string string "string option"
  | StorageRefusal string string "string option"
  | OperationRefused string "string option"
  | RegistrationRefused string string
  | SecretRefusal string string
  | DataRootRefusal string string
  | RecordRefMalformed string
  | OtherException string string

type_synonym 'a result = "py_exc + 'a"

definition rbind :: "'a result \<Rightarrow> ('a \<Rightarrow> 'b result) \<Rightarrow> 'b result" where
  "rbind m f = (case m of Inl e \<Rightarrow> Inl e | Inr x \<Rightarrow> f x)"

lemma rbind_simps [simp]:
  "rbind (Inl e) f = Inl e"
  "rbind (Inr x) f = f x"
  by (simp_all add: rbind_def)

lemma rbind_eq_Inr [simp]: "rbind m f = Inr y \<longleftrightarrow> (\<exists>x. m = Inr x \<and> f x = Inr y)"
  by (cases m) auto

lemma rbind_eq_Inl: "rbind m f = Inl e \<longleftrightarrow> m = Inl e \<or> (\<exists>x. m = Inr x \<and> f x = Inl e)"
  by (cases m) auto

text \<open>A guard that raises: \<open>if not cond: raise exc\<close>.\<close>

definition ensure :: "bool \<Rightarrow> py_exc \<Rightarrow> 'a result \<Rightarrow> 'a result" where
  "ensure c e k = (if c then k else Inl e)"

lemma ensure_simps [simp]:
  "ensure True e k = k"
  "ensure False e k = Inl e"
  by (simp_all add: ensure_def)

lemma ensure_eq_Inr [simp]: "ensure c e k = Inr y \<longleftrightarrow> c \<and> k = Inr y"
  by (simp add: ensure_def)

text \<open>Running one fallible step per list element, stopping at the first exception.\<close>

fun rfold :: "('a \<Rightarrow> 's \<Rightarrow> 's result) \<Rightarrow> 'a list \<Rightarrow> 's \<Rightarrow> 's result" where
  "rfold f [] s = Inr s"
| "rfold f (x # xs) s = rbind (f x s) (rfold f xs)"

lemma rfold_append: "rfold f (xs @ ys) s = rbind (rfold f xs s) (rfold f ys)"
proof (induction xs arbitrary: s)
  case Nil
  then show ?case by simp
next
  case (Cons x xs)
  then show ?case by (cases "f x s") simp_all
qed

lemma rfold_map: "rfold f (map g xs) s = rfold (\<lambda>x. f (g x)) xs s"
  by (induction xs arbitrary: s) (simp_all add: rbind_def split: sum.split)

lemma rfold_invariant:
  assumes "rfold f xs s = Inr t" and "P s"
    and "\<And>x u v. x \<in> set xs \<Longrightarrow> P u \<Longrightarrow> f x u = Inr v \<Longrightarrow> P v"
  shows "P t"
  using assms
proof (induction xs arbitrary: s)
  case Nil
  then show ?case by simp
next
  case (Cons x xs)
  then obtain u where "f x s = Inr u" "rfold f xs u = Inr t" by auto
  then show ?case using Cons.IH [of u] Cons.prems by auto
qed

text \<open>
  Code that commits before it raises: the exception comes with the state the commits left.
\<close>

type_synonym ('s, 'a) action = "'s \<Rightarrow> 'a result \<times> 's"

definition act_return :: "'a \<Rightarrow> ('s, 'a) action" where
  "act_return x s = (Inr x, s)"

definition act_raise :: "py_exc \<Rightarrow> ('s, 'a) action" where
  "act_raise e s = (Inl e, s)"

definition act_bind :: "('s, 'a) action \<Rightarrow> ('a \<Rightarrow> ('s, 'b) action) \<Rightarrow> ('s, 'b) action" where
  "act_bind m f s = (case m s of (Inl e, t) \<Rightarrow> (Inl e, t) | (Inr x, t) \<Rightarrow> f x t)"

lemma act_simps [simp]:
  "act_return x s = (Inr x, s)"
  "act_raise e s = (Inl e, s)"
  "m s = (Inr x, t) \<Longrightarrow> act_bind m f s = f x t"
  "m s = (Inl e, t) \<Longrightarrow> act_bind m f s = (Inl e, t)"
  by (simp_all add: act_return_def act_raise_def act_bind_def)

definition act_ensure :: "bool \<Rightarrow> py_exc \<Rightarrow> ('s, unit) action" where
  "act_ensure b e s = (if b then Inr () else Inl e, s)"

lemma act_ensure_Inr [simp]: "act_ensure b e s = (Inr x, t) \<longleftrightarrow> b \<and> t = s"
  by (auto simp: act_ensure_def)

lemma act_bind_Inr: "act_bind m f s = (Inr y, u) \<longleftrightarrow> (\<exists>x t. m s = (Inr x, t) \<and> f x t = (Inr y, u))"
  by (auto simp: act_bind_def split: prod.splits sum.splits)

section \<open>Insertion-ordered dictionaries\<close>

text \<open>
  A \<open>dict\<close> whose order or key set the source observes is an association list;
  assignment replaces in place or appends. \<open>map_of\<close> is \<open>dict.get\<close>.
\<close>

fun dict_set :: "'k \<Rightarrow> 'v \<Rightarrow> ('k \<times> 'v) list \<Rightarrow> ('k \<times> 'v) list" where
  "dict_set k v [] = [(k, v)]"
| "dict_set k v ((k', v') # d) = (if k' = k then (k, v) # d else (k', v') # dict_set k v d)"

definition dict_update :: "('k \<times> 'v) list \<Rightarrow> ('k \<times> 'v) list \<Rightarrow> ('k \<times> 'v) list" where
  "dict_update d e = foldl (\<lambda>acc (k, v). dict_set k v acc) d e"

lemma map_of_dict_set [simp]: "map_of (dict_set k v d) = (map_of d)(k \<mapsto> v)"
  by (induction d) (auto simp: fun_eq_iff)

lemma keys_dict_set: "fst ` set (dict_set k v d) = insert k (fst ` set d)"
proof (induction d)
  case (Cons x d)
  then show ?case by (cases x) (auto simp: image_Un)
qed simp

lemma distinct_dict_set: "distinct (map fst d) \<Longrightarrow> distinct (map fst (dict_set k v d))"
proof (induction d)
  case (Cons x d)
  obtain a b where x: "x = (a, b)" by (cases x)
  have "a \<notin> fst ` set (dict_set k v d)" if "a \<noteq> k"
    using that Cons.prems x keys_dict_set [of k v d] by simp
  then show ?case using Cons x by auto
qed simp

lemma map_of_dict_update [simp]:
  "distinct (map fst e) \<Longrightarrow> map_of (dict_update d e) = map_of d ++ map_of e"
proof (induction e arbitrary: d)
  case Nil
  then show ?case by (simp add: dict_update_def)
next
  case (Cons x e)
  obtain k v where x: "x = (k, v)" by (cases x)
  have "map_of (dict_update d (x # e)) = map_of (dict_update (dict_set k v d) e)"
    by (simp add: dict_update_def x)
  also have "\<dots> = (map_of d)(k \<mapsto> v) ++ map_of e" using Cons by simp
  also have "\<dots> = map_of d ++ map_of (x # e)"
  proof -
    have "map_of e k = None" using Cons.prems x by (simp add: map_of_eq_None_iff)
    then show ?thesis using x by (auto simp: map_add_def fun_eq_iff split: option.splits)
  qed
  finally show ?case .
qed

section \<open>Python strings\<close>

definition is_space :: "char \<Rightarrow> bool" where
  "is_space c = (let n = (of_char c :: nat) in
     (9 \<le> n \<and> n \<le> 13) \<or> (28 \<le> n \<and> n \<le> 32) \<or> n = 133 \<or> n = 160)"

definition strip_by :: "(char \<Rightarrow> bool) \<Rightarrow> string \<Rightarrow> string" where
  "strip_by p s = rev (dropWhile p (rev (dropWhile p s)))"

definition strip :: "string \<Rightarrow> string" where
  "strip s = strip_by is_space s"

definition lower_char :: "char \<Rightarrow> char" where
  "lower_char c = (let n = (of_char c :: nat) in
     if (65 \<le> n \<and> n \<le> 90) \<or> (192 \<le> n \<and> n \<le> 222 \<and> n \<noteq> 215) then char_of (n + 32) else c)"

definition lower :: "string \<Rightarrow> string" where
  "lower s = map lower_char s"

text \<open>ASCII upper-casing: the source applies it to settings keys only, which are ASCII.\<close>

definition upper_char :: "char \<Rightarrow> char" where
  "upper_char c = (let n = (of_char c :: nat) in
     if 97 \<le> n \<and> n \<le> 122 then char_of (n - 32) else c)"

definition upper :: "string \<Rightarrow> string" where
  "upper s = map upper_char s"

definition startswith :: "string \<Rightarrow> string \<Rightarrow> bool" where
  "startswith s p = (take (length p) s = p)"

definition endswith :: "string \<Rightarrow> string \<Rightarrow> bool" where
  "endswith s p = (length p \<le> length s \<and> drop (length s - length p) s = p)"

text \<open>\<open>s.split(c)\<close> for a one-character separator: always at least one piece.\<close>

fun split_on :: "char \<Rightarrow> string \<Rightarrow> string list" where
  "split_on c [] = [[]]"
| "split_on c (x # xs) =
     (if x = c then [] # split_on c xs
      else (case split_on c xs of [] \<Rightarrow> [[x]] | p # ps \<Rightarrow> (x # p) # ps))"

text \<open>\<open>s.partition(c)\<close> for a one-character separator.\<close>

definition partition_at :: "char \<Rightarrow> string \<Rightarrow> string \<times> string \<times> string" where
  "partition_at c s = (let p = takeWhile (\<lambda>x. x \<noteq> c) s; r = dropWhile (\<lambda>x. x \<noteq> c) s in
     (case r of [] \<Rightarrow> (s, [], []) | x # xs \<Rightarrow> (p, [x], xs)))"

fun join_with :: "string \<Rightarrow> string list \<Rightarrow> string" where
  "join_with sep [] = []"
| "join_with sep [x] = x"
| "join_with sep (x # y # zs) = x @ sep @ join_with sep (y # zs)"

text \<open>\<open>s.replace(c, t)\<close> for a one-character pattern.\<close>

definition replace_char :: "char \<Rightarrow> string \<Rightarrow> string \<Rightarrow> string" where
  "replace_char c t s = concat (map (\<lambda>x. if x = c then t else [x]) s)"

definition is_lower :: "char \<Rightarrow> bool" where
  "is_lower c = (CHR ''a'' \<le> c \<and> c \<le> CHR ''z'')"

definition is_upper :: "char \<Rightarrow> bool" where
  "is_upper c = (CHR ''A'' \<le> c \<and> c \<le> CHR ''Z'')"

definition is_digit :: "char \<Rightarrow> bool" where
  "is_digit c = (CHR ''0'' \<le> c \<and> c \<le> CHR ''9'')"

text \<open>The identifier segment \<open>[a-z][a-z0-9_]*\<close> five modules match against.\<close>

definition is_segment_char :: "char \<Rightarrow> bool" where
  "is_segment_char c = (is_lower c \<or> is_digit c \<or> c = CHR ''_'')"

fun is_segment :: "string \<Rightarrow> bool" where
  "is_segment [] = False"
| "is_segment (c # cs) = (is_lower c \<and> list_all is_segment_char cs)"

lemma startswith_append [simp]: "startswith (p @ s) p"
  by (simp add: startswith_def)

lemma startswith_iff: "startswith s p \<longleftrightarrow> (\<exists>t. s = p @ t)"
proof
  assume "startswith s p"
  then have "s = p @ drop (length p) s"
    by (metis startswith_def append_take_drop_id)
  then show "\<exists>t. s = p @ t" ..
qed auto

lemma split_on_nonempty [simp]: "split_on c s \<noteq> []"
  by (cases s) (auto split: list.splits)

lemma split_on_notin: "c \<notin> set s \<Longrightarrow> split_on c s = [s]"
  by (induction s) auto

lemma split_on_append: "c \<notin> set s \<Longrightarrow> split_on c (s @ c # t) = s # split_on c t"
  by (induction s) auto

lemma split_on_join:
  assumes "xs \<noteq> []" and "\<And>x. x \<in> set xs \<Longrightarrow> c \<notin> set x"
  shows "split_on c (join_with [c] xs) = xs"
  using assms
proof (induction xs rule: induct_list012)
  case (3 x y zs)
  then have "c \<notin> set x" by simp
  then show ?case using 3 by (simp add: split_on_append)
qed (auto simp: split_on_notin)

lemma join_split_on [simp]: "join_with [c] (split_on c s) = s"
proof (induction s)
  case Nil
  then show ?case by simp
next
  case (Cons x xs)
  obtain p ps where p: "split_on c xs = p # ps"
    by (cases "split_on c xs") auto
  show ?case using Cons p by (cases ps) auto
qed

lemma partition_at_append [simp]:
  assumes "c \<notin> set s"
  shows "partition_at c (s @ c # t) = (s, [c], t)"
proof -
  have "dropWhile (\<lambda>x. x \<noteq> c) (s @ c # t) = c # t" "takeWhile (\<lambda>x. x \<noteq> c) (s @ c # t) = s"
    using assms by (induction s) auto
  then show ?thesis by (simp add: partition_at_def)
qed

lemma partition_at_Some:
  "partition_at c s = (p, sep, r) \<Longrightarrow> sep \<noteq> [] \<Longrightarrow> s = p @ c # r \<and> c \<notin> set p"
proof -
  assume a: "partition_at c s = (p, sep, r)" "sep \<noteq> []"
  obtain x xs where d: "dropWhile (\<lambda>x. x \<noteq> c) s = x # xs"
    using a by (auto simp: partition_at_def Let_def split: list.splits)
  then have "x = c" by (metis (mono_tags, lifting) hd_dropWhile list.discI list.sel(1))
  moreover have "s = takeWhile (\<lambda>x. x \<noteq> c) s @ x # xs"
    using d by (metis takeWhile_dropWhile_id)
  moreover have "c \<notin> set (takeWhile (\<lambda>x. x \<noteq> c) s)"
    by (auto dest: set_takeWhileD)
  ultimately show ?thesis using a d by (auto simp: partition_at_def Let_def)
qed

lemma segment_chars: "is_segment s \<Longrightarrow> x \<in> set s \<Longrightarrow> is_segment_char x"
  by (cases s) (auto simp: is_segment_char_def list_all_iff)

lemma segment_excludes: "is_segment s \<Longrightarrow> CHR ''.'' \<notin> set s \<and> CHR '':'' \<notin> set s"
proof -
  assume s: "is_segment s"
  have "\<not> is_segment_char (CHR ''.'')" "\<not> is_segment_char (CHR '':'')"
    by (simp_all add: is_segment_char_def is_lower_def is_digit_def)
  then show ?thesis using segment_chars [OF s] by auto
qed

end
