(* ===== verification/Py_Text.thy ===== *)
theory Py_Text
  imports Rheo_Prelude
begin

text \<open>
  The text forms of numbers, UUIDs and representations that the source takes from
  Python's standard library: \<open>int(text, base)\<close>, \<open>str(int)\<close>, \<open>uuid.UUID(text)\<close>,
  \<open>str(uuid)\<close>, big-endian \<open>to_bytes\<close> and \<open>from_bytes\<close>, and \<open>repr\<close> of strings
  and of lists of strings. CPython's limit of 4300 decimal digits is not modelled.
\<close>

section \<open>Fixed-width big-endian digits\<close>

fun to_digits :: "nat \<Rightarrow> nat \<Rightarrow> nat \<Rightarrow> nat list" where
  "to_digits b 0 n = []"
| "to_digits b (Suc k) n = to_digits b k (n div b) @ [n mod b]"

definition from_digits :: "nat \<Rightarrow> nat list \<Rightarrow> nat" where
  "from_digits b ds = foldl (\<lambda>acc d. acc * b + d) 0 ds"

lemma length_to_digits [simp]: "length (to_digits b k n) = k"
  by (induction k arbitrary: n) auto

lemma to_digits_bound: "0 < b \<Longrightarrow> d \<in> set (to_digits b k n) \<Longrightarrow> d < b"
  by (induction k arbitrary: n) auto

lemma from_digits_snoc [simp]: "from_digits b (ds @ [d]) = from_digits b ds * b + d"
  by (simp add: from_digits_def)

lemma from_digits_Nil [simp]: "from_digits b [] = 0"
  by (simp add: from_digits_def)

lemma from_to_digits: "0 < b \<Longrightarrow> from_digits b (to_digits b k n) = n mod b ^ k"
proof (induction k arbitrary: n)
  case 0
  then show ?case by simp
next
  case (Suc k)
  then show ?case
    by (simp add: mod_mult2_eq mult.commute)
qed

lemma from_digits_bound:
  "0 < b \<Longrightarrow> \<forall>d \<in> set ds. d < b \<Longrightarrow> from_digits b ds < b ^ length ds"
proof (induction ds rule: rev_induct)
  case Nil
  then show ?case by simp
next
  case (snoc d ds)
  then have i: "from_digits b ds < b ^ length ds" and d: "d < b" by auto
  have "from_digits b ds * b + d < Suc (from_digits b ds) * b" using d by simp
  also have "\<dots> \<le> b ^ length ds * b" using i by (intro mult_le_mono1) simp
  finally show ?case by (simp add: mult.commute)
qed

lemma to_from_digits:
  "0 < b \<Longrightarrow> \<forall>d \<in> set ds. d < b \<Longrightarrow> to_digits b (length ds) (from_digits b ds) = ds"
  by (induction ds rule: rev_induct) auto

section \<open>Integers as text\<close>

definition digit_char :: "nat \<Rightarrow> char" where
  "digit_char d = (if d < 10 then char_of (48 + d) else char_of (87 + d))"

definition digit_value :: "nat \<Rightarrow> char \<Rightarrow> nat option" where
  "digit_value b c = (let n = (of_char c :: nat);
     v = (if 48 \<le> n \<and> n \<le> 57 then n - 48
          else if 97 \<le> n \<and> n \<le> 122 then n - 87
          else if 65 \<le> n \<and> n \<le> 90 then n - 55 else 36)
     in if v < b then Some v else None)"

lemma of_char_digit_char: "d < 36 \<Longrightarrow>
    of_char (digit_char d) = (if d < 10 then 48 + d else 87 + (d::nat))"
  by (simp add: digit_char_def)

lemma digit_value_char [simp]: "d < b \<Longrightarrow> b \<le> 36 \<Longrightarrow> digit_value b (digit_char d) = Some d"
  by (simp add: digit_value_def of_char_digit_char)

fun nat_str :: "nat \<Rightarrow> string" where
  "nat_str n = (if n < 10 then [digit_char n] else nat_str (n div 10) @ [digit_char (n mod 10)])"

declare nat_str.simps [simp del]

definition int_str :: "int \<Rightarrow> string" where
  "int_str i = (if i < 0 then CHR ''-'' # nat_str (nat (- i)) else nat_str (nat i))"

text \<open>
  The digits of an integer literal with single underscores between them:
  \<open>ok\<close> says that the character before was a digit.
\<close>

fun scan_digits :: "nat \<Rightarrow> nat \<Rightarrow> bool \<Rightarrow> string \<Rightarrow> nat option" where
  "scan_digits b acc ok [] = (if ok then Some acc else None)"
| "scan_digits b acc ok (c # cs) =
     (if c = CHR ''_'' then (if ok then scan_digits b acc False cs else None)
      else (case digit_value b c of None \<Rightarrow> None
            | Some d \<Rightarrow> scan_digits b (acc * b + d) True cs))"

definition drop_base_prefix :: "nat \<Rightarrow> string \<Rightarrow> string" where
  "drop_base_prefix b s =
     (if b = 16 \<and> (startswith s ''0x'' \<or> startswith s ''0X'')
      then (let r = drop 2 s in if startswith r ''_'' then tl r else r) else s)"

definition py_int :: "nat \<Rightarrow> string \<Rightarrow> int option" where
  "py_int b text = (let s = strip text in
     case s of
       [] \<Rightarrow> None
     | c # cs \<Rightarrow>
         let neg = (c = CHR ''-''); body = (if c = CHR ''-'' \<or> c = CHR ''+'' then cs else s)
         in map_option (\<lambda>n. if neg then - int n else int n)
              (scan_digits b 0 False (drop_base_prefix b body)))"

lemma scan_digit_chars:
  assumes "b \<le> 36" and "\<forall>d \<in> set ds. d < b"
  shows "scan_digits b acc ok (map digit_char ds @ rest) =
     scan_digits b (foldl (\<lambda>a d. a * b + d) acc ds) (ok \<or> ds \<noteq> []) rest"
  using assms
proof (induction ds arbitrary: acc ok)
  case Nil
  then show ?case by simp
next
  case (Cons d ds)
  have "digit_char d \<noteq> CHR ''_''"
  proof
    assume "digit_char d = CHR ''_''"
    then have "(of_char (digit_char d) :: nat) = 95" by simp
    then show False using Cons.prems by (simp add: of_char_digit_char split: if_splits)
  qed
  then show ?case using Cons by simp
qed

fun nat_digits :: "nat \<Rightarrow> nat list" where
  "nat_digits n = (if n < 10 then [n] else nat_digits (n div 10) @ [n mod 10])"

declare nat_digits.simps [simp del]

lemma nat_str_digits: "nat_str n = map digit_char (nat_digits n)"
proof (induction n rule: nat_digits.induct)
  case (1 n)
  then show ?case by (subst nat_str.simps, subst nat_digits.simps) simp
qed

lemma nat_digits_props:
  "nat_digits n \<noteq> [] \<and> (\<forall>d \<in> set (nat_digits n). d < 10) \<and> from_digits 10 (nat_digits n) = n"
proof (induction n rule: nat_digits.induct)
  case (1 n)
  show ?case
  proof (cases "n < 10")
    case True
    then show ?thesis by (subst (1 2 3) nat_digits.simps) (simp add: from_digits_def)
  next
    case False
    then show ?thesis using 1 by (subst (1 2 3) nat_digits.simps) auto
  qed
qed

lemma digit_char_props:
  "d < 36 \<Longrightarrow> \<not> is_space (digit_char d) \<and> digit_char d \<noteq> CHR ''-'' \<and> digit_char d \<noteq> CHR ''+''
     \<and> digit_char d \<noteq> CHR ''{'' \<and> digit_char d \<noteq> CHR ''}'' \<and> digit_char d \<noteq> CHR '':''
     \<and> digit_char d \<noteq> CHR '',''"
proof -
  assume d: "d < 36"
  define n where "n = (of_char (digit_char d) :: nat)"
  have n: "n = (if d < 10 then 48 + d else 87 + d)"
    using d by (simp add: n_def of_char_digit_char)
  have "\<not> is_space (digit_char d)"
    using d n by (auto simp: is_space_def Let_def n_def [symmetric] split: if_splits)
  moreover have "(of_char (digit_char d) :: nat) \<notin> {45, 43, 123, 125, 58, 44}"
    using d n by (auto simp: n_def [symmetric] split: if_splits)
  ultimately show ?thesis by auto
qed

lemma dropWhile_not: "(\<And>x. x \<in> set xs \<Longrightarrow> \<not> p x) \<Longrightarrow> dropWhile p xs = xs"
  by (cases xs) auto

lemma strip_by_none: "(\<And>x. x \<in> set s \<Longrightarrow> \<not> p x) \<Longrightarrow> strip_by p s = s"
proof -
  assume a: "\<And>x. x \<in> set s \<Longrightarrow> \<not> p x"
  have "dropWhile p s = s" "dropWhile p (rev s) = rev s"
    using a by (auto intro!: dropWhile_not)
  then show "strip_by p s = s" by (simp add: strip_by_def)
qed

lemma py_int_digits:
  assumes "ds \<noteq> []" and "\<forall>d \<in> set ds. d < b" and "b \<le> 16"
  shows "py_int b (map digit_char ds) = Some (int (from_digits b ds))"
proof -
  let ?s = "map digit_char ds"
  have ns: "strip ?s = ?s"
    unfolding strip_def by (rule strip_by_none) (use assms digit_char_props in force)
  have x: "drop_base_prefix b ?s = ?s"
  proof -
    have "\<not> startswith ?s ''0x'' \<and> \<not> startswith ?s ''0X''"
    proof -
      have "digit_char d \<noteq> CHR ''x'' \<and> digit_char d \<noteq> CHR ''X''" if "d \<in> set ds" for d
      proof -
        have "d < 16" using that assms by force
        then have "(of_char (digit_char d) :: nat) \<notin> {120, 88}"
          by (auto simp: of_char_digit_char)
        then show ?thesis by auto
      qed
      then have "\<forall>d \<in> set ds. CHR ''x'' \<noteq> digit_char d \<and> CHR ''X'' \<noteq> digit_char d" by metis
      then have "CHR ''x'' \<notin> set ?s \<and> CHR ''X'' \<notin> set ?s" by (simp add: image_iff)
      then show ?thesis by (auto simp: startswith_iff)
    qed
    then show ?thesis by (simp add: drop_base_prefix_def)
  qed
  have "scan_digits b 0 False ?s = Some (from_digits b ds)"
    using scan_digit_chars [of b ds 0 False "[]"] assms by (auto simp: from_digits_def)
  moreover have "hd ?s \<noteq> CHR ''-'' \<and> hd ?s \<noteq> CHR ''+''"
    using assms digit_char_props [of "hd ds"] by (cases ds) auto
  moreover obtain c cs where c: "?s = c # cs" using assms by (cases ?s) auto
  ultimately have "scan_digits b 0 False (drop_base_prefix b (c # cs)) = Some (from_digits b ds)"
    and "c \<noteq> CHR ''-''" and "c \<noteq> CHR ''+''" and "strip (c # cs) = c # cs"
    using x ns by auto
  then show ?thesis unfolding c by (simp add: py_int_def Let_def)
qed

lemma py_int_nat_str: "py_int 10 (nat_str n) = Some (int n)"
  using py_int_digits [of "nat_digits n" 10] nat_digits_props [of n]
  by (simp add: nat_str_digits)

lemma py_int_int_str [simp]: "py_int 10 (int_str i) = Some i"
proof (cases "i < 0")
  case False
  then show ?thesis by (simp add: int_str_def py_int_nat_str)
next
  case True
  define ds where "ds = nat_digits (nat (- i))"
  have ds: "ds \<noteq> []" "\<forall>d \<in> set ds. d < 10" "from_digits 10 ds = nat (- i)"
    using nat_digits_props by (auto simp: ds_def)
  have s: "int_str i = CHR ''-'' # map digit_char ds"
    using True by (simp add: int_str_def nat_str_digits ds_def)
  have "\<not> is_space x" if "x \<in> set (CHR ''-'' # map digit_char ds)" for x
  proof -
    have "\<not> is_space (CHR ''-'')" by (simp add: is_space_def)
    then show ?thesis using that ds digit_char_props by force
  qed
  then have "strip (int_str i) = int_str i"
    unfolding strip_def s by (intro strip_by_none) auto
  moreover have "scan_digits 10 0 False (map digit_char ds) = Some (from_digits 10 ds)"
    using scan_digit_chars [of 10 ds 0 False "[]"] ds by (simp add: from_digits_def)
  ultimately show ?thesis
    using True ds by (simp add: py_int_def Let_def s drop_base_prefix_def)
qed

section \<open>UUIDs as text\<close>

definition uuid_hex :: "uuid \<Rightarrow> string" where
  "uuid_hex u = map digit_char (to_digits 16 32 (unat u))"

definition uuid_str :: "uuid \<Rightarrow> string" where
  "uuid_str u = (let h = uuid_hex u in
     take 8 h @ ''-'' @ take 4 (drop 8 h) @ ''-'' @ take 4 (drop 12 h) @ ''-''
     @ take 4 (drop 16 h) @ ''-'' @ drop 20 h)"

text \<open>\<open>s.replace(p, r)\<close> for a non-empty pattern.\<close>

function replace_all :: "string \<Rightarrow> string \<Rightarrow> string \<Rightarrow> string" where
  "replace_all p r s =
     (if s = [] then []
      else if p \<noteq> [] \<and> startswith s p then r @ replace_all p r (drop (length p) s)
      else hd s # replace_all p r (tl s))"
  by pat_completeness auto
termination
  by (relation "measure (\<lambda>(p, r, s). length s)") auto

declare replace_all.simps [simp del]

abbreviation remove_all :: "string \<Rightarrow> string \<Rightarrow> string" where
  "remove_all p \<equiv> replace_all p []"

text \<open>\<open>uuid.UUID(text)\<close>: \<open>None\<close> is its \<open>ValueError\<close>.\<close>

definition py_uuid :: "string \<Rightarrow> uuid option" where
  "py_uuid text =
     (let h = filter (\<lambda>c. c \<noteq> CHR ''-'')
            (strip_by (\<lambda>c. c = CHR ''{'' \<or> c = CHR ''}'')
              (remove_all ''uuid:'' (remove_all ''urn:'' text)))
      in if length h \<noteq> 32 then None
         else (case py_int 16 h of None \<Rightarrow> None
               | Some n \<Rightarrow> if 0 \<le> n \<and> n < 2 ^ 128 then Some (word_of_int n) else None))"

lemma remove_all_absent: "c \<in> set p \<Longrightarrow> c \<notin> set s \<Longrightarrow> remove_all p s = s"
proof (induction s)
  case Nil
  then show ?case by (simp add: replace_all.simps [of p _ "[]"])
next
  case (Cons x xs)
  then have "\<not> startswith (x # xs) p"
    by (metis startswith_iff Un_iff set_append)
  then show ?case using Cons by (simp add: replace_all.simps [of p _ "x # xs"])
qed

lemma length_uuid_hex [simp]: "length (uuid_hex u) = 32"
  by (simp add: uuid_hex_def)

lemma uuid_hex_chars: "c \<in> set (uuid_hex u) \<Longrightarrow> \<exists>d < 16. c = digit_char d"
  using to_digits_bound [of 16 _ 32 "unat u"] by (auto simp: uuid_hex_def)

lemma uuid_hex_props: "c \<in> set (uuid_hex u) \<Longrightarrow>
    c \<noteq> CHR ''-'' \<and> c \<noteq> CHR ''{'' \<and> c \<noteq> CHR ''}'' \<and> c \<noteq> CHR '':''"
  using uuid_hex_chars [of c u] digit_char_props by force

lemma set_uuid_str: "set (uuid_str u) \<subseteq> set (uuid_hex u) \<union> {CHR ''-''}"
  by (auto simp: uuid_str_def Let_def dest: in_set_takeD in_set_dropD)

lemma uuid_str_no_colon: "CHR '':'' \<notin> set (uuid_str u)"
  using set_uuid_str [of u] uuid_hex_props by fastforce

lemma filter_uuid_str: "filter (\<lambda>c. c \<noteq> CHR ''-'') (uuid_str u) = uuid_hex u"
proof -
  let ?h = "uuid_hex u"
  have f: "filter (\<lambda>c. c \<noteq> CHR ''-'') xs = xs" if "set xs \<subseteq> set ?h" for xs
    using that uuid_hex_props by (intro filter_True) blast
  have sub: "set (take i (drop j ?h)) \<subseteq> set ?h" for i j
    by (meson set_drop_subset set_take_subset subset_trans)
  have "filter (\<lambda>c. c \<noteq> CHR ''-'') (uuid_str u) =
      take 8 ?h @ take 4 (drop 8 ?h) @ take 4 (drop 12 ?h) @ take 4 (drop 16 ?h) @ drop 20 ?h"
    by (simp add: uuid_str_def Let_def f [OF sub] f [OF set_drop_subset] f [OF set_take_subset])
  also have "\<dots> = ?h"
    by (simp add: append_assoc [symmetric] take_add [symmetric] del: append_assoc)
  finally show ?thesis .
qed

lemma py_uuid_str [simp]: "py_uuid (uuid_str u) = Some u"
proof -
  have "CHR '':'' \<notin> set (uuid_str u)" by (rule uuid_str_no_colon)
  then have r: "remove_all ''uuid:'' (remove_all ''urn:'' (uuid_str u)) = uuid_str u"
    using remove_all_absent [of "CHR '':''"] by simp
  have s: "strip_by (\<lambda>c. c = CHR ''{'' \<or> c = CHR ''}'') (uuid_str u) = uuid_str u"
    using set_uuid_str [of u] uuid_hex_props by (intro strip_by_none) fastforce
  have v: "py_int 16 (uuid_hex u) = Some (int (unat u))"
  proof -
    let ?ds = "to_digits 16 32 (unat u)"
    have "py_int 16 (map digit_char ?ds) = Some (int (from_digits 16 ?ds))"
    proof (rule py_int_digits)
      show "?ds \<noteq> []" by (simp flip: length_greater_0_conv)
      show "\<forall>d \<in> set ?ds. d < 16" using to_digits_bound by simp
    qed simp
    moreover have "from_digits 16 ?ds = unat u"
      using unsigned_less [of u, where 'a = nat] by (simp add: from_to_digits)
    ultimately show ?thesis by (simp add: uuid_hex_def)
  qed
  have b: "0 \<le> int (unat u) \<and> int (unat u) < 2 ^ 128"
    using unsigned_less [of u, where 'a = int] by (simp add: of_nat_unat)
  have w: "word_of_int (int (unat u)) = u" by simp
  show ?thesis
    unfolding py_uuid_def r s filter_uuid_str Let_def length_uuid_hex v option.case if_P [OF b] w
    by simp
qed

lemma uuid_str_inj: "uuid_str u = uuid_str v \<Longrightarrow> u = v"
  by (metis py_uuid_str option.inject)

lemma uuid_str_inject [simp]: "uuid_str u = uuid_str v \<longleftrightarrow> u = v"
  using uuid_str_inj by blast

section \<open>repr\<close>

definition hex2 :: "nat \<Rightarrow> string" where
  "hex2 n = map digit_char (to_digits 16 2 n)"

definition quoted_char :: "char \<Rightarrow> char \<Rightarrow> string" where
  "quoted_char q c = (let n = (of_char c :: nat) in
     if c = q \<or> n = 92 then [char_of (92::nat), c]
     else if n = 10 then [char_of (92::nat), CHR ''n'']
     else if n = 13 then [char_of (92::nat), CHR ''r'']
     else if n = 9 then [char_of (92::nat), CHR ''t'']
     else if n < 32 \<or> (127 \<le> n \<and> n \<le> 160) \<or> n = 173 then [char_of (92::nat), CHR ''x''] @ hex2 n
     else [c])"

definition py_repr :: "string \<Rightarrow> string" where
  "py_repr s = (let q = (if char_of (39::nat) \<in> set s \<and> char_of (34::nat) \<notin> set s
                         then char_of (34::nat) else char_of (39::nat))
     in [q] @ concat (map (quoted_char q) s) @ [q])"

definition py_repr_list :: "string list \<Rightarrow> string" where
  "py_repr_list xs = ''['' @ join_with '', '' (map py_repr xs) @ '']''"

end
