(* ===== verification/Workspace_Context.thy ===== *)
theory Workspace_Context
  imports Py_Text
begin

text \<open>
  \<open>rheo_contracts/context.py\<close>, \<open>safety.py\<close> and the declaration types of
  \<open>manifest.py\<close>: the closed sets of roles, actors, entries and audiences, the resolved
  workspace context, and what a module declares about an operation or a tool.

  Input and output models are names of pydantic classes: the classes themselves are the
  parameter every use of them takes.
\<close>

datatype role = Role_Owner | Role_Member | Role_Operator | Role_Service

fun role_value :: "role \<Rightarrow> string" where
  "role_value Role_Owner = ''owner''"
| "role_value Role_Member = ''member''"
| "role_value Role_Operator = ''operator''"
| "role_value Role_Service = ''service''"

datatype actor_kind =
  Actor_Account | Actor_Token | Actor_Operator | Actor_System | Actor_Connection

fun actor_kind_value :: "actor_kind \<Rightarrow> string" where
  "actor_kind_value Actor_Account = ''account''"
| "actor_kind_value Actor_Token = ''token''"
| "actor_kind_value Actor_Operator = ''operator''"
| "actor_kind_value Actor_System = ''system''"
| "actor_kind_value Actor_Connection = ''connection''"

datatype entry =
  Entry_Web | Entry_Api | Entry_Mcp | Entry_Cli | Entry_Job | Entry_Intake | Entry_Channel

fun entry_value :: "entry \<Rightarrow> string" where
  "entry_value Entry_Web = ''web''"
| "entry_value Entry_Api = ''api''"
| "entry_value Entry_Mcp = ''mcp''"
| "entry_value Entry_Cli = ''cli''"
| "entry_value Entry_Job = ''job''"
| "entry_value Entry_Intake = ''intake''"
| "entry_value Entry_Channel = ''channel''"

datatype audience_kind =
  Audience_Session | Audience_Token | Audience_Job | Audience_Channel

record actor =
  actor_kind :: actor_kind
  actor_id :: "uuid option"

record audience =
  audience_kind :: audience_kind
  audience_id :: "uuid option"

text \<open>The sentinel \<open>ALL_OPERATIONS\<close> is no set of names, so no supplied name equals it.\<close>

datatype operation_set = All_Operations | Operations "string set"

record workspace_context =
  cx_workspace_id :: uuid
  cx_actor :: actor
  cx_role :: role
  cx_entry :: entry
  cx_audience :: "audience option"
  cx_operation_set :: operation_set
  cx_enabled_modules :: "string set"
  cx_request_id :: uuid

datatype safety_class =
  Safety_Read | Safety_Draft | Safety_Mutate | Safety_Destructive | Safety_External | Safety_Financial

fun safety_value :: "safety_class \<Rightarrow> string" where
  "safety_value Safety_Read = ''read''"
| "safety_value Safety_Draft = ''draft''"
| "safety_value Safety_Mutate = ''mutate''"
| "safety_value Safety_Destructive = ''destructive''"
| "safety_value Safety_External = ''external''"
| "safety_value Safety_Financial = ''financial''"

definition reserved_input_fields_all :: "string list" where
  "reserved_input_fields_all =
     [''workspace_id'', ''workspace'', ''actor_id'', ''actor'', ''tenant_id'', ''database'',
      ''schema'', ''connection_string'', ''dsn'', ''sql'', ''table_name'', ''statement'']"

datatype idempotency = Idem_None | Idem_Natural

record audit_spec =
  au_subject_field :: "string option"

record operation_declaration =
  od_name :: string
  od_safety_class :: safety_class
  od_roles :: "role set"
  od_input_model :: string
  od_output :: string
  od_idempotency :: idempotency
  od_audit :: "audit_spec option"

definition default_roles :: "role set" where
  "default_roles = {Role_Owner, Role_Member}"

record tool_declaration =
  td_name :: string
  td_operation :: string
  td_input_model :: string

end
