(* ===== verification/Control_Plane.thy ===== *)
theory Control_Plane
  imports Workspace_Context "HOL-Library.Product_Lexorder"
begin

text \<open>
  \<open>rheo_core/storage/control_tables.py\<close> and \<open>control_plane.py\<close>: the ten control-plane
  tables with their constraints and every repository function over them.

  A database is a record of row lists in insertion order. A function runs inside the
  caller's transaction: it returns its value with the new database, or the exception, after
  which the transaction has no effect. Ids (\<open>uuid7()\<close>) and the clock (\<open>_now()\<close>) are
  arguments; one call reads the clock as one value. PostgreSQL checks \<open>CHECK\<close> constraints
  before unique indexes and foreign keys at the end of the statement, and names unnamed
  constraints \<open><table>_<column>_key\<close>, \<open>_fkey\<close> and \<open>_pkey\<close>.
\<close>

section \<open>The tables\<close>

datatype workspace_state = Provisioning | Migrating | Active | Unavailable | Restoring

fun state_value :: "workspace_state \<Rightarrow> string" where
  "state_value Provisioning = ''provisioning''"
| "state_value Migrating = ''migrating''"
| "state_value Active = ''active''"
| "state_value Unavailable = ''unavailable''"
| "state_value Restoring = ''restoring''"

definition membership_roles :: "string list" where
  "membership_roles = [''owner'', ''member'']"

definition token_kinds :: "string list" where
  "token_kinds = [''cli'', ''mcp'', ''runtime'']"

definition token_issuers :: "string list" where
  "token_issuers = [''session'', ''operator'', ''runtime'']"

record account_row =
  acc_id :: uuid
  acc_display_name :: string
  acc_created_at :: datetime
  acc_disabled_at :: "datetime option"

record identity_row =
  idn_id :: uuid
  idn_account_id :: uuid
  idn_provider_id :: string
  idn_provider_subject :: string
  idn_email :: "string option"
  idn_email_verified :: bool
  idn_created_at :: datetime

record workspace_row =
  ws_id :: uuid
  ws_slug :: string
  ws_display_name :: string
  ws_database_name :: string
  ws_state :: workspace_state
  ws_created_at :: datetime
  ws_state_changed_at :: datetime
  ws_state_detail :: "string option"

record membership_row =
  mb_account_id :: uuid
  mb_workspace_id :: uuid
  mb_role :: role
  mb_created_at :: datetime

record session_row =
  ses_id :: uuid
  ses_account_id :: uuid
  ses_active_workspace_id :: "uuid option"
  ses_active_workspace_changed_at :: "datetime option"
  ses_created_at :: datetime
  ses_last_seen_at :: datetime
  ses_expires_at :: datetime
  ses_revoked_at :: "datetime option"

record session_secret_row =
  sec_secret_hash :: bytes
  sec_session_id :: uuid
  sec_host :: string
  sec_created_at :: datetime

record session_grant_row =
  gr_code_hash :: bytes
  gr_session_id :: uuid
  gr_target_host :: string
  gr_nonce_hash :: bytes
  gr_expires_at :: datetime
  gr_used_at :: "datetime option"

record access_token_row =
  tok_id :: uuid
  tok_token_hash :: bytes
  tok_account_id :: uuid
  tok_workspace_id :: uuid
  tok_kind :: string
  tok_issued_from :: string
  tok_set_name :: "string option"
  tok_purpose :: "string option"
  tok_created_at :: datetime
  tok_expires_at :: datetime
  tok_revoked_at :: "datetime option"
  tok_last_used_at :: "datetime option"

record identity_provider_row =
  ip_provider_id :: string
  ip_enabled :: bool
  ip_client_id :: string
  ip_client_secret_ref :: string

record control_db =
  db_accounts :: "account_row list"
  db_identities :: "identity_row list"
  db_workspaces :: "workspace_row list"
  db_memberships :: "membership_row list"
  db_sessions :: "session_row list"
  db_secrets :: "session_secret_row list"
  db_grants :: "session_grant_row list"
  db_tokens :: "access_token_row list"
  db_token_operations :: "(uuid \<times> string) list"
  db_providers :: "identity_provider_row list"

definition empty_control_db :: control_db where
  "empty_control_db = \<lparr>db_accounts = [], db_identities = [], db_workspaces = [],
     db_memberships = [], db_sessions = [], db_secrets = [], db_grants = [], db_tokens = [],
     db_token_operations = [], db_providers = []\<rparr>"

type_synonym 'a db_result = "('a \<times> control_db) result"

text \<open>The first violated constraint raises.\<close>

fun check_constraints :: "(bool \<times> violation \<times> string) list \<Rightarrow> 'a result \<Rightarrow> 'a result" where
  "check_constraints [] k = k"
| "check_constraints ((bad, v, name) # cs) k =
     (if bad then Inl (IntegrityError v name) else check_constraints cs k)"

lemma check_constraints_Inr [simp]:
  "check_constraints cs k = Inr y \<longleftrightarrow> (\<forall>c \<in> set cs. \<not> fst c) \<and> k = Inr y"
  by (induction cs k rule: check_constraints.induct) auto

declare check_constraints.simps [simp del]

text \<open>The insert of each table, with its constraints.\<close>

definition account_ids :: "control_db \<Rightarrow> uuid set" where
  "account_ids db = set (map acc_id (db_accounts db))"

definition workspace_ids :: "control_db \<Rightarrow> uuid set" where
  "workspace_ids db = set (map ws_id (db_workspaces db))"

definition session_ids :: "control_db \<Rightarrow> uuid set" where
  "session_ids db = set (map ses_id (db_sessions db))"

definition token_ids :: "control_db \<Rightarrow> uuid set" where
  "token_ids db = set (map tok_id (db_tokens db))"

definition put_account :: "account_row \<Rightarrow> control_db \<Rightarrow> control_db result" where
  "put_account row db = check_constraints
     [((acc_id row) \<in> account_ids db, UniqueViolation, ''account_pkey'')]
     (Inr (db\<lparr>db_accounts := db_accounts db @ [row]\<rparr>))"

definition put_identity :: "identity_row \<Rightarrow> control_db \<Rightarrow> control_db result" where
  "put_identity row db = check_constraints
     [(idn_id row \<in> set (map idn_id (db_identities db)), UniqueViolation, ''identity_pkey''),
      ((idn_provider_id row, idn_provider_subject row) \<in>
         set (map (\<lambda>r. (idn_provider_id r, idn_provider_subject r)) (db_identities db)),
       UniqueViolation, ''identity_provider_subject''),
      ((idn_account_id row) \<notin> account_ids db, ForeignKeyViolation, ''identity_account_id_fkey'')]
     (Inr (db\<lparr>db_identities := db_identities db @ [row]\<rparr>))"

text \<open>\<open>ON CONFLICT (id) DO NOTHING\<close>: an existing row wins before any other constraint.\<close>

definition put_workspace :: "workspace_row \<Rightarrow> control_db \<Rightarrow> bool db_result" where
  "put_workspace row db =
     (if (ws_id row) \<in> workspace_ids db then Inr (False, db)
      else check_constraints
        [(ws_slug row \<in> set (map ws_slug (db_workspaces db)), UniqueViolation, ''workspace_slug_key''),
         (ws_database_name row \<in> set (map ws_database_name (db_workspaces db)),
          UniqueViolation, ''workspace_database_name_key'')]
        (Inr (True, db\<lparr>db_workspaces := db_workspaces db @ [row]\<rparr>)))"

definition membership_key :: "membership_row \<Rightarrow> uuid \<times> uuid" where
  "membership_key r = (mb_account_id r, mb_workspace_id r)"

definition put_membership :: "membership_row \<Rightarrow> control_db \<Rightarrow> control_db result" where
  "put_membership row db =
     check_constraints
       [(role_value (mb_role row) \<notin> set membership_roles, CheckViolation, ''membership_role'')]
     (if membership_key row \<in> set (map membership_key (db_memberships db)) then Inr db
      else check_constraints
        [((mb_account_id row) \<notin> account_ids db, ForeignKeyViolation, ''membership_account_id_fkey''),
         ((mb_workspace_id row) \<notin> workspace_ids db, ForeignKeyViolation, ''membership_workspace_id_fkey'')]
        (Inr (db\<lparr>db_memberships := db_memberships db @ [row]\<rparr>)))"

definition put_session :: "session_row \<Rightarrow> control_db \<Rightarrow> control_db result" where
  "put_session row db = check_constraints
     [((ses_id row) \<in> session_ids db, UniqueViolation, ''session_pkey''),
      ((ses_account_id row) \<notin> account_ids db, ForeignKeyViolation, ''session_account_id_fkey''),
      (case ses_active_workspace_id row of None \<Rightarrow> False | Some w \<Rightarrow> w \<notin> workspace_ids db,
       ForeignKeyViolation, ''session_active_workspace_id_fkey'')]
     (Inr (db\<lparr>db_sessions := db_sessions db @ [row]\<rparr>))"

definition put_secret :: "session_secret_row \<Rightarrow> control_db \<Rightarrow> control_db result" where
  "put_secret row db = check_constraints
     [(sec_secret_hash row \<in> set (map sec_secret_hash (db_secrets db)),
       UniqueViolation, ''session_secret_pkey''),
      ((sec_session_id row, sec_host row) \<in> set (map (\<lambda>r. (sec_session_id r, sec_host r)) (db_secrets db)),
       UniqueViolation, ''session_secret_session_host''),
      ((sec_session_id row) \<notin> session_ids db, ForeignKeyViolation, ''session_secret_session_id_fkey'')]
     (Inr (db\<lparr>db_secrets := db_secrets db @ [row]\<rparr>))"

definition put_grant :: "session_grant_row \<Rightarrow> control_db \<Rightarrow> control_db result" where
  "put_grant row db = check_constraints
     [(gr_code_hash row \<in> set (map gr_code_hash (db_grants db)), UniqueViolation, ''session_grant_pkey''),
      ((gr_session_id row) \<notin> session_ids db, ForeignKeyViolation, ''session_grant_session_id_fkey'')]
     (Inr (db\<lparr>db_grants := db_grants db @ [row]\<rparr>))"

definition put_token :: "access_token_row \<Rightarrow> control_db \<Rightarrow> control_db result" where
  "put_token row db = check_constraints
     [(tok_issued_from row \<notin> set token_issuers, CheckViolation, ''access_token_issued_from''),
      (tok_kind row \<notin> set token_kinds, CheckViolation, ''access_token_kind''),
      ((tok_kind row = ''runtime'') \<noteq> (tok_issued_from row = ''runtime''),
       CheckViolation, ''access_token_runtime_pairing''),
      ((tok_id row) \<in> token_ids db, UniqueViolation, ''access_token_pkey''),
      (tok_token_hash row \<in> set (map tok_token_hash (db_tokens db)),
       UniqueViolation, ''access_token_token_hash_key''),
      ((tok_account_id row) \<notin> account_ids db, ForeignKeyViolation, ''access_token_account_id_fkey''),
      ((tok_workspace_id row) \<notin> workspace_ids db, ForeignKeyViolation, ''access_token_workspace_id_fkey'')]
     (Inr (db\<lparr>db_tokens := db_tokens db @ [row]\<rparr>))"

definition put_token_operations :: "(uuid \<times> string) list \<Rightarrow> control_db \<Rightarrow> control_db result" where
  "put_token_operations rows db = check_constraints
     [(\<not> distinct (db_token_operations db @ rows), UniqueViolation, ''access_token_operation_pkey''),
      (\<not> list_all (\<lambda>r. (fst r) \<in> token_ids db) rows, ForeignKeyViolation,
       ''access_token_operation_token_id_fkey'')]
     (Inr (db\<lparr>db_token_operations := db_token_operations db @ rows\<rparr>))"

text \<open>\<open>UPDATE ... WHERE\<close>: the rows that match, changed.\<close>

definition update_where :: "('r \<Rightarrow> bool) \<Rightarrow> ('r \<Rightarrow> 'r) \<Rightarrow> 'r list \<Rightarrow> 'r list" where
  "update_where p f rows = map (\<lambda>r. if p r then f r else r) rows"

lemma set_update_where: "set (update_where p f rows) = {r \<in> set rows. \<not> p r} \<union> f ` {r \<in> set rows. p r}"
  by (auto simp: update_where_def)

lemma map_update_where: "(\<And>r. p r \<Longrightarrow> g (f r) = g r) \<Longrightarrow> map g (update_where p f rows) = map g rows"
  by (induction rows) (auto simp: update_where_def)

definition put_provider :: "identity_provider_row \<Rightarrow> control_db \<Rightarrow> control_db" where
  "put_provider row db =
     (if ip_provider_id row \<in> set (map ip_provider_id (db_providers db))
      then db\<lparr>db_providers := update_where (\<lambda>r. ip_provider_id r = ip_provider_id row) (\<lambda>_. row)
                               (db_providers db)\<rparr>
      else db\<lparr>db_providers := db_providers db @ [row]\<rparr>)"

section \<open>Accounts and identities\<close>

definition account_missing :: "uuid \<Rightarrow> py_exc" where
  "account_missing i =
     StorageRefusal ''account_missing'' (''account '' @ uuid_str i @ '' does not exist'') None"

definition workspace_missing :: "uuid \<Rightarrow> string \<Rightarrow> py_exc" where
  "workspace_missing i what =
     StorageRefusal ''workspace_missing'' (''workspace '' @ uuid_str i @ what) None"

definition insert_account :: "uuid \<Rightarrow> datetime \<Rightarrow> string \<Rightarrow> control_db \<Rightarrow> account_row db_result" where
  "insert_account new_id now display_name db =
     ensure (strip display_name \<noteq> []) (ValueError ''an account needs a non-empty display name'')
     (let row = \<lparr>acc_id = new_id, acc_display_name = display_name, acc_created_at = now,
                 acc_disabled_at = None\<rparr>
      in rbind (put_account row db) (\<lambda>db'. Inr (row, db')))"

definition get_account :: "uuid \<Rightarrow> control_db \<Rightarrow> account_row option" where
  "get_account i db = find (\<lambda>r. acc_id r = i) (db_accounts db)"

definition insert_identity :: "uuid \<Rightarrow> datetime \<Rightarrow> uuid \<Rightarrow> string \<Rightarrow> string \<Rightarrow> string option \<Rightarrow> bool
    \<Rightarrow> control_db \<Rightarrow> identity_row db_result" where
  "insert_identity new_id now account_id provider_id provider_subject email email_verified db =
     ensure (provider_id \<noteq> [] \<and> provider_subject \<noteq> [])
       (ValueError ''an identity needs a provider id and a provider subject'')
     (let row = \<lparr>idn_id = new_id, idn_account_id = account_id, idn_provider_id = provider_id,
                 idn_provider_subject = provider_subject, idn_email = email,
                 idn_email_verified = email_verified, idn_created_at = now\<rparr>
      in (case put_identity row db of
            Inr db' \<Rightarrow> Inr (row, db')
          | Inl (IntegrityError ForeignKeyViolation _) \<Rightarrow> Inl (account_missing account_id)
          | Inl (IntegrityError UniqueViolation _) \<Rightarrow> Inl (StorageRefusal ''identity_exists''
              (''identity '' @ provider_id @ ''/'' @ provider_subject @ '' is already bound'') None)
          | Inl e \<Rightarrow> Inl e))"

definition get_identity :: "string \<Rightarrow> string \<Rightarrow> control_db \<Rightarrow> identity_row option" where
  "get_identity provider_id provider_subject db =
     find (\<lambda>r. idn_provider_id r = provider_id \<and> idn_provider_subject r = provider_subject)
       (db_identities db)"

section \<open>Workspaces\<close>

definition get_workspace :: "uuid \<Rightarrow> control_db \<Rightarrow> workspace_row option" where
  "get_workspace i db = find (\<lambda>r. ws_id r = i) (db_workspaces db)"

text \<open>\<open>s in t\<close> for strings.\<close>

definition occurs_in :: "string \<Rightarrow> string \<Rightarrow> bool" where
  "occurs_in s t = list_ex (\<lambda>u. startswith u s) (suffixes t)"

definition insert_workspace_if_absent :: "datetime \<Rightarrow> uuid \<Rightarrow> string \<Rightarrow> string \<Rightarrow> string \<Rightarrow> string
    \<Rightarrow> control_db \<Rightarrow> (workspace_row \<times> bool) db_result" where
  "insert_workspace_if_absent now workspace_id slug display_name database_name state_detail db =
     (let row = \<lparr>ws_id = workspace_id, ws_slug = slug, ws_display_name = display_name,
                 ws_database_name = database_name, ws_state = Provisioning, ws_created_at = now,
                 ws_state_changed_at = now, ws_state_detail = Some state_detail\<rparr>
      in (case put_workspace row db of
            Inl (IntegrityError v name) \<Rightarrow>
              if v = UniqueViolation \<and> occurs_in ''slug'' name
              then Inl (StorageRefusal ''slug_taken''
                (''slug '' @ py_repr slug @ '' belongs to another workspace'') None)
              else Inl (IntegrityError v name)
          | Inl e \<Rightarrow> Inl e
          | Inr (inserted, db') \<Rightarrow> (case get_workspace workspace_id db' of
                None \<Rightarrow> Inl (workspace_missing workspace_id '' vanished'')
              | Some found \<Rightarrow> Inr ((found, inserted), db'))))"

definition list_workspaces :: "workspace_state option \<Rightarrow> control_db \<Rightarrow> workspace_row list" where
  "list_workspaces st db = sort_key (\<lambda>r. (ws_created_at r, ws_id r))
     (case st of None \<Rightarrow> db_workspaces db | Some s \<Rightarrow> filter (\<lambda>r. ws_state r = s) (db_workspaces db))"

definition set_workspace_state :: "datetime \<Rightarrow> uuid \<Rightarrow> workspace_state \<Rightarrow> string option
    \<Rightarrow> workspace_state list option \<Rightarrow> control_db \<Rightarrow> unit db_result" where
  "set_workspace_state now workspace_id st detail expected db =
     (let p = (\<lambda>r. ws_id r = workspace_id
                 \<and> (case expected of None \<Rightarrow> True | Some es \<Rightarrow> ws_state r \<in> set es))
      in if length (filter p (db_workspaces db)) = 1
         then Inr ((), db\<lparr>db_workspaces := update_where p
                (\<lambda>r. r\<lparr>ws_state := st, ws_state_detail := detail, ws_state_changed_at := now\<rparr>)
                (db_workspaces db)\<rparr>)
         else (case get_workspace workspace_id db of
               None \<Rightarrow> Inl (workspace_missing workspace_id '' has no row'')
             | Some row \<Rightarrow> Inl (StorageRefusal ''workspace_state''
                 (''workspace '' @ uuid_str workspace_id @ '' is '' @ py_repr (state_value (ws_state row))
                    @ '', not one of '' @ py_repr_list (sort (map state_value
                        (case expected of None \<Rightarrow> [] | Some es \<Rightarrow> remdups es))))
                 (Some (state_value (ws_state row))))))"

section \<open>Memberships\<close>

definition get_membership :: "uuid \<Rightarrow> uuid \<Rightarrow> control_db \<Rightarrow> membership_row option" where
  "get_membership account_id workspace_id db =
     find (\<lambda>r. mb_account_id r = account_id \<and> mb_workspace_id r = workspace_id) (db_memberships db)"

definition insert_membership_if_absent :: "datetime \<Rightarrow> uuid \<Rightarrow> uuid \<Rightarrow> role \<Rightarrow> control_db
    \<Rightarrow> membership_row db_result" where
  "insert_membership_if_absent now account_id workspace_id role db =
     ensure (role_value role \<in> set membership_roles)
       (ValueError (py_repr (role_value role) @ '' is not a membership role''))
     (case put_membership \<lparr>mb_account_id = account_id, mb_workspace_id = workspace_id,
                           mb_role = role, mb_created_at = now\<rparr> db of
        Inl (IntegrityError ForeignKeyViolation name) \<Rightarrow>
          Inl (if occurs_in ''account'' name then account_missing account_id
               else workspace_missing workspace_id '' does not exist'')
      | Inl e \<Rightarrow> Inl e
      | Inr db' \<Rightarrow> (case get_membership account_id workspace_id db' of
            None \<Rightarrow> Inl (StorageRefusal ''workspace_missing'' ''membership row vanished'' None)
          | Some row \<Rightarrow> Inr (row, db')))"

definition list_memberships :: "uuid \<Rightarrow> control_db \<Rightarrow> membership_row list" where
  "list_memberships account_id db = sort_key (\<lambda>r. (mb_created_at r, mb_workspace_id r))
     (filter (\<lambda>r. mb_account_id r = account_id) (db_memberships db))"

section \<open>Sessions\<close>

definition session_row_missing :: "uuid \<Rightarrow> string \<Rightarrow> py_exc" where
  "session_row_missing i what =
     StorageRefusal ''session_row_missing'' (''session '' @ uuid_str i @ what) None"

definition insert_session :: "uuid \<Rightarrow> datetime \<Rightarrow> uuid \<Rightarrow> control_db \<Rightarrow> session_row db_result" where
  "insert_session new_id now account_id db =
     (let row = \<lparr>ses_id = new_id, ses_account_id = account_id, ses_active_workspace_id = None,
                 ses_active_workspace_changed_at = None, ses_created_at = now,
                 ses_last_seen_at = now, ses_expires_at = now, ses_revoked_at = None\<rparr>
      in rbind (put_session row db) (\<lambda>db'. Inr (row, db')))"

definition get_session :: "uuid \<Rightarrow> control_db \<Rightarrow> session_row option" where
  "get_session i db = find (\<lambda>r. ses_id r = i) (db_sessions db)"

text \<open>The shape of the three updates: one row by id, or \<open>session_row_missing\<close>.\<close>

definition update_session :: "uuid \<Rightarrow> (session_row \<Rightarrow> session_row) \<Rightarrow> control_db \<Rightarrow> unit db_result" where
  "update_session i f db =
     ensure (length (filter (\<lambda>r. ses_id r = i) (db_sessions db)) = 1)
       (session_row_missing i '' has no row'')
     (Inr ((), db\<lparr>db_sessions := update_where (\<lambda>r. ses_id r = i) f (db_sessions db)\<rparr>))"

definition touch_session :: "uuid \<Rightarrow> datetime \<Rightarrow> datetime \<Rightarrow> control_db \<Rightarrow> unit db_result" where
  "touch_session i last_seen_at expires_at =
     update_session i (\<lambda>r. r\<lparr>ses_last_seen_at := last_seen_at, ses_expires_at := expires_at\<rparr>)"

definition revoke_session :: "datetime \<Rightarrow> uuid \<Rightarrow> control_db \<Rightarrow> unit db_result" where
  "revoke_session now i = update_session i (\<lambda>r. r\<lparr>ses_revoked_at := Some now\<rparr>)"

text \<open>A missing workspace violates the foreign key at the end of the statement.\<close>

definition set_active_workspace :: "datetime \<Rightarrow> uuid \<Rightarrow> uuid \<Rightarrow> control_db \<Rightarrow> unit db_result" where
  "set_active_workspace now i workspace_id db =
     check_constraints
       [(i \<in> session_ids db \<and> workspace_id \<notin> workspace_ids db, ForeignKeyViolation,
         ''session_active_workspace_id_fkey'')]
     (update_session i (\<lambda>r. r\<lparr>ses_active_workspace_id := Some workspace_id,
                             ses_active_workspace_changed_at := Some now\<rparr>) db)"

definition insert_session_secret :: "datetime \<Rightarrow> bytes \<Rightarrow> uuid \<Rightarrow> string \<Rightarrow> control_db
    \<Rightarrow> unit db_result" where
  "insert_session_secret now secret_hash session_id host db =
     (case put_secret \<lparr>sec_secret_hash = secret_hash, sec_session_id = session_id,
                      sec_host = host, sec_created_at = now\<rparr> db of
        Inr db' \<Rightarrow> Inr ((), db')
      | Inl (IntegrityError ForeignKeyViolation _) \<Rightarrow>
          Inl (session_row_missing session_id '' does not exist'')
      | Inl (IntegrityError UniqueViolation _) \<Rightarrow> Inl (StorageRefusal ''session_secret_exists''
          (''session '' @ uuid_str session_id @ '' already has a secret for host '' @ py_repr host) None)
      | Inl e \<Rightarrow> Inl e)"

definition get_session_by_secret_hash :: "bytes \<Rightarrow> string \<Rightarrow> control_db \<Rightarrow> session_row option" where
  "get_session_by_secret_hash secret_hash host db =
     (case find (\<lambda>r. sec_secret_hash r = secret_hash \<and> sec_host r = host) (db_secrets db) of
        None \<Rightarrow> None
      | Some r \<Rightarrow> get_session (sec_session_id r) db)"

section \<open>Session grants\<close>

definition insert_session_grant :: "bytes \<Rightarrow> uuid \<Rightarrow> string \<Rightarrow> bytes \<Rightarrow> datetime \<Rightarrow> control_db
    \<Rightarrow> session_grant_row db_result" where
  "insert_session_grant code_hash session_id target_host nonce_hash expires_at db =
     (let row = \<lparr>gr_code_hash = code_hash, gr_session_id = session_id, gr_target_host = target_host,
                 gr_nonce_hash = nonce_hash, gr_expires_at = expires_at, gr_used_at = None\<rparr>
      in (case put_grant row db of
            Inr db' \<Rightarrow> Inr (row, db')
          | Inl (IntegrityError ForeignKeyViolation _) \<Rightarrow>
              Inl (session_row_missing session_id '' does not exist'')
          | Inl e \<Rightarrow> Inl e))"

definition consume_session_grant :: "datetime \<Rightarrow> bytes \<Rightarrow> string \<Rightarrow> bytes \<Rightarrow> control_db
    \<Rightarrow> session_grant_row option \<times> control_db" where
  "consume_session_grant now code_hash target_host nonce_hash db =
     (let p = (\<lambda>r. gr_code_hash r = code_hash \<and> gr_used_at r = None \<and> gr_expires_at r > now
                 \<and> gr_target_host r = target_host \<and> gr_nonce_hash r = nonce_hash);
          f = (\<lambda>r. r\<lparr>gr_used_at := Some now\<rparr>)
      in (map_option f (find p (db_grants db)),
          db\<lparr>db_grants := update_where p f (db_grants db)\<rparr>))"

section \<open>Identity providers\<close>

definition upsert_identity_provider :: "string \<Rightarrow> bool \<Rightarrow> string \<Rightarrow> string \<Rightarrow> control_db
    \<Rightarrow> identity_provider_row \<times> control_db" where
  "upsert_identity_provider provider_id enabled client_id client_secret_ref db =
     (let row = \<lparr>ip_provider_id = provider_id, ip_enabled = enabled, ip_client_id = client_id,
                 ip_client_secret_ref = client_secret_ref\<rparr>
      in (row, put_provider row db))"

definition get_identity_provider :: "string \<Rightarrow> control_db \<Rightarrow> identity_provider_row option" where
  "get_identity_provider provider_id db =
     find (\<lambda>r. ip_provider_id r = provider_id) (db_providers db)"

section \<open>Access tokens\<close>

definition insert_access_token :: "uuid \<Rightarrow> datetime \<Rightarrow> uuid \<Rightarrow> uuid \<Rightarrow> string \<Rightarrow> string \<Rightarrow> bytes
    \<Rightarrow> string option \<Rightarrow> string option \<Rightarrow> datetime \<Rightarrow> control_db \<Rightarrow> access_token_row db_result" where
  "insert_access_token new_id now account_id workspace_id kind issued_from token_hash set_name
     purpose expires_at db =
     (let row = \<lparr>tok_id = new_id, tok_token_hash = token_hash, tok_account_id = account_id,
                 tok_workspace_id = workspace_id, tok_kind = kind, tok_issued_from = issued_from,
                 tok_set_name = set_name, tok_purpose = purpose, tok_created_at = now,
                 tok_expires_at = expires_at, tok_revoked_at = None, tok_last_used_at = None\<rparr>
      in (case put_token row db of
            Inr db' \<Rightarrow> Inr (row, db')
          | Inl (IntegrityError ForeignKeyViolation name) \<Rightarrow>
              Inl (if occurs_in ''account'' name then account_missing account_id
                   else workspace_missing workspace_id '' does not exist'')
          | Inl e \<Rightarrow> Inl e))"

definition get_access_token :: "uuid \<Rightarrow> control_db \<Rightarrow> access_token_row option" where
  "get_access_token i db = find (\<lambda>r. tok_id r = i) (db_tokens db)"

definition get_access_token_by_hash :: "bytes \<Rightarrow> control_db \<Rightarrow> access_token_row option" where
  "get_access_token_by_hash token_hash db = find (\<lambda>r. tok_token_hash r = token_hash) (db_tokens db)"

definition update_token :: "uuid \<Rightarrow> (access_token_row \<Rightarrow> access_token_row) \<Rightarrow> control_db
    \<Rightarrow> unit db_result" where
  "update_token i f db =
     ensure (length (filter (\<lambda>r. tok_id r = i) (db_tokens db)) = 1)
       (StorageRefusal ''access_token_missing'' (''access token '' @ uuid_str i @ '' has no row'') None)
     (Inr ((), db\<lparr>db_tokens := update_where (\<lambda>r. tok_id r = i) f (db_tokens db)\<rparr>))"

definition revoke_access_token :: "datetime \<Rightarrow> uuid \<Rightarrow> control_db \<Rightarrow> unit db_result" where
  "revoke_access_token now i = update_token i (\<lambda>r. r\<lparr>tok_revoked_at := Some now\<rparr>)"

definition touch_access_token_last_used :: "datetime \<Rightarrow> uuid \<Rightarrow> control_db \<Rightarrow> unit db_result" where
  "touch_access_token_last_used now i = update_token i (\<lambda>r. r\<lparr>tok_last_used_at := Some now\<rparr>)"

definition insert_access_token_operations :: "uuid \<Rightarrow> string list \<Rightarrow> control_db \<Rightarrow> unit db_result" where
  "insert_access_token_operations token_id operation_names db =
     (if operation_names = [] then Inr ((), db)
      else rbind (put_token_operations (map (\<lambda>n. (token_id, n)) operation_names) db)
             (\<lambda>db'. Inr ((), db')))"

definition list_access_token_operations :: "uuid \<Rightarrow> control_db \<Rightarrow> string set" where
  "list_access_token_operations token_id db =
     set (map snd (filter (\<lambda>r. fst r = token_id) (db_token_operations db)))"

section \<open>Integrity\<close>

text \<open>What the ten tables hold at every commit.\<close>

definition keys_ok :: "control_db \<Rightarrow> bool" where
  "keys_ok db = (distinct (map acc_id (db_accounts db))
     \<and> distinct (map idn_id (db_identities db))
     \<and> distinct (map (\<lambda>r. (idn_provider_id r, idn_provider_subject r)) (db_identities db))
     \<and> distinct (map ws_id (db_workspaces db))
     \<and> distinct (map ws_slug (db_workspaces db))
     \<and> distinct (map ws_database_name (db_workspaces db))
     \<and> distinct (map membership_key (db_memberships db))
     \<and> distinct (map ses_id (db_sessions db))
     \<and> distinct (map sec_secret_hash (db_secrets db))
     \<and> distinct (map (\<lambda>r. (sec_session_id r, sec_host r)) (db_secrets db))
     \<and> distinct (map gr_code_hash (db_grants db))
     \<and> distinct (map tok_id (db_tokens db))
     \<and> distinct (map tok_token_hash (db_tokens db))
     \<and> distinct (db_token_operations db)
     \<and> distinct (map ip_provider_id (db_providers db)))"

text \<open>References against given sets of ids, and the role and kind checks of the rows.\<close>

definition references :: "uuid set \<Rightarrow> uuid set \<Rightarrow> uuid set \<Rightarrow> uuid set \<Rightarrow> control_db \<Rightarrow> bool" where
  "references A W S T db =
     (list_all (\<lambda>r. idn_account_id r \<in> A) (db_identities db)
     \<and> list_all (\<lambda>r. mb_account_id r \<in> A \<and> mb_workspace_id r \<in> W
           \<and> role_value (mb_role r) \<in> set membership_roles) (db_memberships db)
     \<and> list_all (\<lambda>r. ses_account_id r \<in> A \<and> set_option (ses_active_workspace_id r) \<subseteq> W) (db_sessions db)
     \<and> list_all (\<lambda>r. sec_session_id r \<in> S) (db_secrets db)
     \<and> list_all (\<lambda>r. gr_session_id r \<in> S) (db_grants db)
     \<and> list_all (\<lambda>r. tok_account_id r \<in> A \<and> tok_workspace_id r \<in> W
           \<and> tok_kind r \<in> set token_kinds \<and> tok_issued_from r \<in> set token_issuers
           \<and> (tok_kind r = ''runtime'') = (tok_issued_from r = ''runtime'')) (db_tokens db)
     \<and> list_all (\<lambda>r. fst r \<in> T) (db_token_operations db))"

definition references_ok :: "control_db \<Rightarrow> bool" where
  "references_ok db = references (account_ids db) (workspace_ids db) (session_ids db) (token_ids db) db"

definition control_ok :: "control_db \<Rightarrow> bool" where
  "control_ok db = (keys_ok db \<and> references_ok db)"

lemmas id_defs = account_ids_def workspace_ids_def session_ids_def token_ids_def

lemma control_ok_empty: "control_ok empty_control_db"
  by (simp add: control_ok_def keys_ok_def references_ok_def references_def empty_control_db_def)

text \<open>
  Adding a row to a table keeps every reference, because the rows it may point to stay.
\<close>

lemma references_mono:
  "references A W S T db \<Longrightarrow> A \<subseteq> A' \<Longrightarrow> W \<subseteq> W' \<Longrightarrow> S \<subseteq> S' \<Longrightarrow> T \<subseteq> T' \<Longrightarrow> references A' W' S' T' db"
  unfolding references_def list_all_iff by (intro conjI) blast+

lemma references_insert:
  "references A W S T db \<Longrightarrow> references (insert a A) W S T db"
  "references A W S T db \<Longrightarrow> references A (insert w W) S T db"
  by (erule references_mono; blast)+

lemma references_update [simp]:
  "references A W S T (db\<lparr>db_accounts := x1\<rparr>) = references A W S T db"
  "references A W S T (db\<lparr>db_workspaces := x2\<rparr>) = references A W S T db"
  "references A W S T (db\<lparr>db_providers := x3\<rparr>) = references A W S T db"
  by (simp_all add: references_def)

lemma references_add:
  "references A W S T db \<Longrightarrow> idn_account_id i \<in> A \<Longrightarrow>
     references A W S T (db\<lparr>db_identities := db_identities db @ [i]\<rparr>)"
  "references A W S T db \<Longrightarrow> mb_account_id m \<in> A \<Longrightarrow> mb_workspace_id m \<in> W \<Longrightarrow>
     role_value (mb_role m) \<in> set membership_roles \<Longrightarrow>
     references A W S T (db\<lparr>db_memberships := db_memberships db @ [m]\<rparr>)"
  "references A W S T db \<Longrightarrow> ses_account_id s \<in> A \<Longrightarrow> set_option (ses_active_workspace_id s) \<subseteq> W \<Longrightarrow>
     references A W S T (db\<lparr>db_sessions := db_sessions db @ [s]\<rparr>)"
  "references A W S T db \<Longrightarrow> sec_session_id x \<in> S \<Longrightarrow>
     references A W S T (db\<lparr>db_secrets := db_secrets db @ [x]\<rparr>)"
  "references A W S T db \<Longrightarrow> gr_session_id g \<in> S \<Longrightarrow>
     references A W S T (db\<lparr>db_grants := db_grants db @ [g]\<rparr>)"
  "references A W S T db \<Longrightarrow> tok_account_id t \<in> A \<Longrightarrow> tok_workspace_id t \<in> W \<Longrightarrow>
     tok_kind t \<in> set token_kinds \<Longrightarrow> tok_issued_from t \<in> set token_issuers \<Longrightarrow>
     (tok_kind t = ''runtime'') = (tok_issued_from t = ''runtime'') \<Longrightarrow>
     references A W S T (db\<lparr>db_tokens := db_tokens db @ [t]\<rparr>)"
  "references A W S T db \<Longrightarrow> list_all (\<lambda>r. fst r \<in> T) ops \<Longrightarrow>
     references A W S T (db\<lparr>db_token_operations := db_token_operations db @ ops\<rparr>)"
  by (simp_all add: references_def)

lemma put_account_ok: "control_ok db \<Longrightarrow> put_account row db = Inr db' \<Longrightarrow> control_ok db'"
  by (auto simp: put_account_def control_ok_def keys_ok_def references_ok_def id_defs
      intro: references_insert)

lemma put_identity_ok: "control_ok db \<Longrightarrow> put_identity row db = Inr db' \<Longrightarrow> control_ok db'"
  by (auto simp: put_identity_def control_ok_def keys_ok_def references_ok_def id_defs
      intro: references_add)

lemma put_workspace_ok: "control_ok db \<Longrightarrow> put_workspace row db = Inr (b, db') \<Longrightarrow> control_ok db'"
  by (auto simp: put_workspace_def control_ok_def keys_ok_def references_ok_def id_defs
      intro: references_insert split: if_splits)

lemma put_membership_ok: "control_ok db \<Longrightarrow> put_membership row db = Inr db' \<Longrightarrow> control_ok db'"
  by (auto simp: put_membership_def control_ok_def keys_ok_def references_ok_def id_defs
      intro: references_add split: if_splits)

lemma put_session_ok: "control_ok db \<Longrightarrow> put_session row db = Inr db' \<Longrightarrow> control_ok db'"
proof -
  assume ok: "control_ok db" and p: "put_session row db = Inr db'"
  have d: "db' = db\<lparr>db_sessions := db_sessions db @ [row]\<rparr>" "ses_account_id row \<in> account_ids db"
    "ses_id row \<notin> session_ids db" "set_option (ses_active_workspace_id row) \<subseteq> workspace_ids db"
    using p by (auto simp: put_session_def split: option.splits)
  have "references (account_ids db) (workspace_ids db) (session_ids db) (token_ids db) db'"
    using ok d references_add(3) by (simp add: control_ok_def references_ok_def)
  then have "references (account_ids db) (workspace_ids db) (session_ids db') (token_ids db) db'"
    by (rule references_mono) (auto simp: d session_ids_def)
  then show ?thesis
    using ok d by (simp add: control_ok_def keys_ok_def references_ok_def id_defs)
qed

lemma put_secret_ok: "control_ok db \<Longrightarrow> put_secret row db = Inr db' \<Longrightarrow> control_ok db'"
  by (auto simp: put_secret_def control_ok_def keys_ok_def references_ok_def id_defs
      intro: references_add)

lemma put_grant_ok: "control_ok db \<Longrightarrow> put_grant row db = Inr db' \<Longrightarrow> control_ok db'"
  by (auto simp: put_grant_def control_ok_def keys_ok_def references_ok_def id_defs
      intro: references_add)

lemma put_token_ok: "control_ok db \<Longrightarrow> put_token row db = Inr db' \<Longrightarrow> control_ok db'"
proof -
  assume ok: "control_ok db" and p: "put_token row db = Inr db'"
  have d: "db' = db\<lparr>db_tokens := db_tokens db @ [row]\<rparr>" "tok_account_id row \<in> account_ids db"
    "tok_workspace_id row \<in> workspace_ids db" "tok_id row \<notin> token_ids db"
    "tok_token_hash row \<notin> tok_token_hash ` set (db_tokens db)"
    "tok_kind row \<in> set token_kinds" "tok_issued_from row \<in> set token_issuers"
    "(tok_kind row = ''runtime'') = (tok_issued_from row = ''runtime'')"
    using p by (auto simp: put_token_def)
  have "references (account_ids db) (workspace_ids db) (session_ids db) (token_ids db) db'"
    using ok d references_add(6) by (simp add: control_ok_def references_ok_def)
  then have "references (account_ids db) (workspace_ids db) (session_ids db) (token_ids db') db'"
    by (rule references_mono) (auto simp: d token_ids_def)
  then show ?thesis
    using ok d by (simp add: control_ok_def keys_ok_def references_ok_def id_defs)
qed

lemma put_token_operations_ok:
  "control_ok db \<Longrightarrow> put_token_operations rows db = Inr db' \<Longrightarrow> control_ok db'"
  by (auto simp: put_token_operations_def control_ok_def keys_ok_def references_ok_def id_defs
      intro: references_add)

lemma put_provider_ok: "control_ok db \<Longrightarrow> control_ok (put_provider row db)"
  by (simp add: put_provider_def control_ok_def keys_ok_def references_ok_def id_defs map_update_where)

text \<open>An update that leaves the key columns alone keeps the constraints.\<close>

lemma session_workspace: "control_ok db \<Longrightarrow> r \<in> set (db_sessions db) \<Longrightarrow> ses_active_workspace_id r = Some w
    \<Longrightarrow> w \<in> workspace_ids db"
  by (fastforce simp: control_ok_def references_ok_def references_def list_all_iff)

lemma update_sessions_ok:
  assumes "control_ok db" and "\<And>r. ses_id (f r) = ses_id r" and "\<And>r. ses_account_id (f r) = ses_account_id r"
    and "\<And>r. r \<in> set (db_sessions db) \<Longrightarrow> p r \<Longrightarrow> set_option (ses_active_workspace_id (f r)) \<subseteq> workspace_ids db"
  shows "control_ok (db\<lparr>db_sessions := update_where p f (db_sessions db)\<rparr>)"
proof -
  let ?db = "db\<lparr>db_sessions := update_where p f (db_sessions db)\<rparr>"
  have m: "map ses_id (db_sessions ?db) = map ses_id (db_sessions db)"
    using map_update_where [of p ses_id f "db_sessions db"] assms(2) by simp
  then have ids: "session_ids ?db = session_ids db" by (simp only: session_ids_def)
  have "ses_account_id r \<in> account_ids db \<and> set_option (ses_active_workspace_id r) \<subseteq> workspace_ids db"
    if "r \<in> set (update_where p f (db_sessions db))" for r
  proof -
    from that obtain q where q: "q \<in> set (db_sessions db)" "r = q \<and> \<not> p q \<or> r = f q \<and> p q"
      by (auto simp: set_update_where)
    moreover have "ses_account_id q \<in> account_ids db \<and> set_option (ses_active_workspace_id q) \<subseteq> workspace_ids db"
      using assms(1) q(1) by (simp add: control_ok_def references_ok_def references_def list_all_iff)
    ultimately show ?thesis using assms(3,4) by auto
  qed
  then have "references (account_ids db) (workspace_ids db) (session_ids db) (token_ids db) ?db"
    using assms(1) by (simp add: control_ok_def references_ok_def references_def list_all_iff)
  then have "references_ok ?db"
    using ids by (simp add: references_ok_def account_ids_def workspace_ids_def token_ids_def)
  moreover have "keys_ok ?db" using assms(1) m by (simp add: control_ok_def keys_ok_def)
  ultimately show ?thesis by (simp add: control_ok_def)
qed

lemma update_tokens_ok:
  assumes "control_ok db"
    and "\<And>r. tok_id (f r) = tok_id r \<and> tok_token_hash (f r) = tok_token_hash r
      \<and> tok_account_id (f r) = tok_account_id r \<and> tok_workspace_id (f r) = tok_workspace_id r
      \<and> tok_kind (f r) = tok_kind r \<and> tok_issued_from (f r) = tok_issued_from r"
  shows "control_ok (db\<lparr>db_tokens := update_where p f (db_tokens db)\<rparr>)"
proof -
  let ?db = "db\<lparr>db_tokens := update_where p f (db_tokens db)\<rparr>"
  have m: "map tok_id (db_tokens ?db) = map tok_id (db_tokens db)"
    and h: "map tok_token_hash (db_tokens ?db) = map tok_token_hash (db_tokens db)"
    using map_update_where [of p tok_id f "db_tokens db"]
      map_update_where [of p tok_token_hash f "db_tokens db"] assms(2) by simp_all
  from m have ids: "token_ids ?db = token_ids db" by (simp only: token_ids_def)
  have "tok_account_id r \<in> account_ids db \<and> tok_workspace_id r \<in> workspace_ids db
      \<and> tok_kind r \<in> set token_kinds \<and> tok_issued_from r \<in> set token_issuers
      \<and> (tok_kind r = ''runtime'') = (tok_issued_from r = ''runtime'')"
    if "r \<in> set (update_where p f (db_tokens db))" for r
  proof -
    from that obtain q where "q \<in> set (db_tokens db)" "r = q \<or> r = f q"
      by (auto simp: set_update_where)
    then show ?thesis
      using assms by (auto simp: control_ok_def references_ok_def references_def list_all_iff)
  qed
  then have "references (account_ids db) (workspace_ids db) (session_ids db) (token_ids db) ?db"
    using assms(1) by (simp add: control_ok_def references_ok_def references_def list_all_iff)
  then have "references_ok ?db"
    using ids by (simp add: references_ok_def account_ids_def workspace_ids_def session_ids_def)
  moreover have "keys_ok ?db" using assms(1) m h by (simp add: control_ok_def keys_ok_def)
  ultimately show ?thesis by (simp add: control_ok_def)
qed

lemma update_grants_ok:
  assumes "control_ok db" and "\<And>r. gr_code_hash (f r) = gr_code_hash r \<and> gr_session_id (f r) = gr_session_id r"
  shows "control_ok (db\<lparr>db_grants := update_where p f (db_grants db)\<rparr>)"
proof -
  have "gr_session_id r \<in> session_ids db" if "r \<in> set (update_where p f (db_grants db))" for r
    using that assms by (auto simp: set_update_where control_ok_def references_ok_def references_def list_all_iff)
  then show ?thesis
    using assms(1) map_update_where [of p gr_code_hash f "db_grants db"] assms(2)
    by (simp add: control_ok_def keys_ok_def references_ok_def references_def id_defs list_all_iff)
qed

lemma update_workspaces_ok:
  assumes "control_ok db" and "\<And>r. ws_id (f r) = ws_id r \<and> ws_slug (f r) = ws_slug r
      \<and> ws_database_name (f r) = ws_database_name r"
  shows "control_ok (db\<lparr>db_workspaces := update_where p f (db_workspaces db)\<rparr>)"
  using assms(1) map_update_where [of p ws_id f "db_workspaces db"]
    map_update_where [of p ws_slug f "db_workspaces db"]
    map_update_where [of p ws_database_name f "db_workspaces db"] assms(2)
  by (simp add: control_ok_def keys_ok_def references_ok_def id_defs flip: set_map)

section \<open>Every repository function keeps the database consistent\<close>

lemma insert_identity_InrD:
  "insert_identity i now a p subj email verified db = Inr (row, db') \<Longrightarrow> put_identity row db = Inr db'"
  by (auto simp: insert_identity_def Let_def split: sum.splits py_exc.splits violation.splits)

lemma insert_workspace_InrD:
  "insert_workspace_if_absent now w slug name dbname detail db = Inr (res, db') \<Longrightarrow>
     put_workspace \<lparr>ws_id = w, ws_slug = slug, ws_display_name = name, ws_database_name = dbname,
       ws_state = Provisioning, ws_created_at = now, ws_state_changed_at = now,
       ws_state_detail = Some detail\<rparr> db = Inr (snd res, db')
     \<and> get_workspace w db' = Some (fst res)"
  by (auto simp: insert_workspace_if_absent_def Let_def split: sum.splits py_exc.splits option.splits if_splits)

lemma set_workspace_state_InrD:
  "set_workspace_state now w st det exp db = Inr (u, db') \<Longrightarrow>
     db' = db\<lparr>db_workspaces := update_where (\<lambda>r. ws_id r = w
                 \<and> (case exp of None \<Rightarrow> True | Some es \<Rightarrow> ws_state r \<in> set es))
       (\<lambda>r. r\<lparr>ws_state := st, ws_state_detail := det, ws_state_changed_at := now\<rparr>) (db_workspaces db)\<rparr>"
  by (auto simp: set_workspace_state_def Let_def split: if_splits option.splits)

lemma insert_membership_InrD:
  "insert_membership_if_absent now a w role db = Inr (row, db') \<Longrightarrow>
     put_membership \<lparr>mb_account_id = a, mb_workspace_id = w, mb_role = role, mb_created_at = now\<rparr> db = Inr db'
     \<and> get_membership a w db' = Some row"
  by (auto simp: insert_membership_if_absent_def
      split: sum.splits py_exc.splits violation.splits option.splits)

lemma insert_session_secret_InrD:
  "insert_session_secret now h i host db = Inr (u, db') \<Longrightarrow>
     put_secret \<lparr>sec_secret_hash = h, sec_session_id = i, sec_host = host, sec_created_at = now\<rparr> db = Inr db'"
  by (auto simp: insert_session_secret_def split: sum.splits py_exc.splits violation.splits)

lemma insert_session_grant_InrD:
  "insert_session_grant h i host n t1 db = Inr (row, db') \<Longrightarrow> put_grant row db = Inr db'"
  by (auto simp: insert_session_grant_def Let_def split: sum.splits py_exc.splits violation.splits)

lemma insert_access_token_InrD:
  "insert_access_token i now a w kind from' h sn pu t1 db = Inr (row, db') \<Longrightarrow> put_token row db = Inr db'"
  by (auto simp: insert_access_token_def Let_def split: sum.splits py_exc.splits violation.splits)

text \<open>One successful call of a function of \<open>control_plane.py\<close> that writes.\<close>

inductive control_step :: "control_db \<Rightarrow> control_db \<Rightarrow> bool" where
  step_account: "insert_account i now name db = Inr (row, db') \<Longrightarrow> control_step db db'"
| step_identity: "insert_identity i now a p subj email verified db = Inr (irow, db') \<Longrightarrow> control_step db db'"
| step_workspace: "insert_workspace_if_absent now w slug name dbname detail db = Inr (wres, db')
    \<Longrightarrow> control_step db db'"
| step_state: "set_workspace_state now w st det exp db = Inr (u, db') \<Longrightarrow> control_step db db'"
| step_membership: "insert_membership_if_absent now a w role db = Inr (mrow, db') \<Longrightarrow> control_step db db'"
| step_session: "insert_session i now a db = Inr (srow, db') \<Longrightarrow> control_step db db'"
| step_touch: "touch_session i t1 t2 db = Inr (u, db') \<Longrightarrow> control_step db db'"
| step_revoke: "revoke_session now i db = Inr (u, db') \<Longrightarrow> control_step db db'"
| step_active: "set_active_workspace now i w db = Inr (u, db') \<Longrightarrow> control_step db db'"
| step_secret: "insert_session_secret now h i host db = Inr (u, db') \<Longrightarrow> control_step db db'"
| step_grant: "insert_session_grant h i host n t1 db = Inr (grow, db') \<Longrightarrow> control_step db db'"
| step_consume: "consume_session_grant now h host n db = (g, db') \<Longrightarrow> control_step db db'"
| step_provider: "upsert_identity_provider p en c sref db = (prow, db') \<Longrightarrow> control_step db db'"
| step_token: "insert_access_token i now a w kind issued h sn pu t1 db = Inr (trow, db') \<Longrightarrow> control_step db db'"
| step_revoke_token: "revoke_access_token now i db = Inr (u, db') \<Longrightarrow> control_step db db'"
| step_touch_token: "touch_access_token_last_used now i db = Inr (u, db') \<Longrightarrow> control_step db db'"
| step_token_operations: "insert_access_token_operations i names db = Inr (u, db') \<Longrightarrow> control_step db db'"

lemma control_step_ok: "control_step db db' \<Longrightarrow> control_ok db \<Longrightarrow> control_ok db'"
proof (induction rule: control_step.induct)
  case (step_account i now name db row db')
  then show ?case by (auto simp: insert_account_def Let_def intro: put_account_ok)
next
  case step_identity
  then show ?case by (blast dest: insert_identity_InrD intro: put_identity_ok)
next
  case step_workspace
  then show ?case by (blast dest: insert_workspace_InrD intro: put_workspace_ok)
next
  case step_state
  then show ?case by (auto dest!: set_workspace_state_InrD intro!: update_workspaces_ok)
next
  case step_membership
  then show ?case by (blast dest: insert_membership_InrD intro: put_membership_ok)
next
  case step_session
  then show ?case by (auto simp: insert_session_def Let_def intro: put_session_ok)
next
  case (step_touch i t1 t2 db u db')
  then have "db' = db\<lparr>db_sessions := update_where (\<lambda>r. ses_id r = i)
      (\<lambda>r. r\<lparr>ses_last_seen_at := t1, ses_expires_at := t2\<rparr>) (db_sessions db)\<rparr>"
    by (simp add: touch_session_def update_session_def)
  then show ?case using step_touch.prems session_workspace by (auto intro!: update_sessions_ok)
next
  case (step_revoke now i db u db')
  then have "db' = db\<lparr>db_sessions := update_where (\<lambda>r. ses_id r = i)
      (\<lambda>r. r\<lparr>ses_revoked_at := Some now\<rparr>) (db_sessions db)\<rparr>"
    by (simp add: revoke_session_def update_session_def)
  then show ?case using step_revoke.prems session_workspace by (auto intro!: update_sessions_ok)
next
  case (step_active now i w db u db')
  then have d: "db' = db\<lparr>db_sessions := update_where (\<lambda>r. ses_id r = i)
      (\<lambda>r. r\<lparr>ses_active_workspace_id := Some w, ses_active_workspace_changed_at := Some now\<rparr>)
      (db_sessions db)\<rparr>" and w: "i \<in> session_ids db \<longrightarrow> w \<in> workspace_ids db"
    by (auto simp: set_active_workspace_def update_session_def)
  show ?case unfolding d
    by (rule update_sessions_ok) (use step_active.prems w in \<open>auto simp: session_ids_def\<close>)
next
  case step_secret
  then show ?case by (blast dest: insert_session_secret_InrD intro: put_secret_ok)
next
  case step_grant
  then show ?case by (blast dest: insert_session_grant_InrD intro: put_grant_ok)
next
  case step_consume
  then show ?case by (auto simp: consume_session_grant_def Let_def intro!: update_grants_ok)
next
  case step_provider
  then show ?case by (auto simp: upsert_identity_provider_def Let_def intro: put_provider_ok)
next
  case step_token
  then show ?case by (blast dest: insert_access_token_InrD intro: put_token_ok)
next
  case step_revoke_token
  then show ?case by (auto simp: revoke_access_token_def update_token_def intro!: update_tokens_ok)
next
  case step_touch_token
  then show ?case by (auto simp: touch_access_token_last_used_def update_token_def intro!: update_tokens_ok)
next
  case step_token_operations
  then show ?case
    by (auto simp: insert_access_token_operations_def intro: put_token_operations_ok split: if_splits)
qed

text \<open>
  C17: whatever sequence of repository calls a control plane goes through from its empty
  tables, ids, slugs, database names, provider subjects, secrets, grant codes and token hashes
  stay unique, every reference points to a row, membership roles and token kinds stay in their
  closed sets and a runtime token is never issued by anything but the runtime.
\<close>

theorem control_plane_integrity: "control_step\<^sup>*\<^sup>* empty_control_db db \<Longrightarrow> control_ok db"
  by (induction rule: rtranclp_induct) (auto intro: control_ok_empty control_step_ok)

lemma control_plane_integrity_witness:
  "control_ok (empty_control_db\<lparr>db_accounts := [\<lparr>acc_id = 7, acc_display_name = ''Ada'',
     acc_created_at = 3, acc_disabled_at = None\<rparr>]\<rparr>)" (is "control_ok ?db")
proof (rule control_plane_integrity)
  have "insert_account 7 3 ''Ada'' empty_control_db = Inr
     (\<lparr>acc_id = 7, acc_display_name = ''Ada'', acc_created_at = 3, acc_disabled_at = None\<rparr>, ?db)"
    by code_simp
  then show "control_step\<^sup>*\<^sup>* empty_control_db ?db" by (blast intro: control_step.step_account)
qed

section \<open>Lookups and single-row updates\<close>

lemma find_unique: "distinct (map key rows) \<Longrightarrow> r \<in> set rows \<Longrightarrow> key r = k \<Longrightarrow> find (\<lambda>r. key r = k) rows = Some r"
  by (induction rows) auto

lemma find_None_notin: "find (\<lambda>r. key r = k) rows = None \<longleftrightarrow> k \<notin> set (map key rows)"
  by (induction rows) auto

lemma find_update_where:
  "(\<And>r. key (f r) = key r) \<Longrightarrow> find (\<lambda>r. key r = k) (update_where p f rows) =
     map_option (\<lambda>r. if p r then f r else r) (find (\<lambda>r. key r = k) rows)"
  by (induction rows) (auto simp: update_where_def)

lemma count_unique:
  assumes "distinct (map key rows)"
  shows "length (filter (\<lambda>r. key r = k \<and> p r) rows) =
     (case find (\<lambda>r. key r = k) rows of None \<Rightarrow> 0 | Some r \<Rightarrow> if p r then 1 else 0)"
  using assms
proof (induction rows)
  case (Cons x rows)
  show ?case
  proof (cases "key x = k")
    case True
    then have "filter (\<lambda>r. key r = k \<and> p r) rows = []"
      using Cons.prems by (auto simp: filter_empty_conv image_iff)
    then show ?thesis using True by simp
  qed (use Cons in simp)
qed simp

lemma distinct_session_ids: "control_ok db \<Longrightarrow> distinct (map ses_id (db_sessions db))"
  by (simp add: control_ok_def keys_ok_def)

lemma update_session_eq:
  assumes "control_ok db"
  shows "update_session i f db = (case get_session i db of
     None \<Rightarrow> Inl (session_row_missing i '' has no row'')
   | Some _ \<Rightarrow> Inr ((), db\<lparr>db_sessions := update_where (\<lambda>r. ses_id r = i) f (db_sessions db)\<rparr>))"
  using count_unique [OF distinct_session_ids [OF assms], of i "\<lambda>_. True"]
  by (auto simp: update_session_def get_session_def ensure_def split: option.splits)

lemma get_updated_session:
  "(\<And>r. ses_id (f r) = ses_id r) \<Longrightarrow>
     get_session j (db\<lparr>db_sessions := update_where (\<lambda>r. ses_id r = i) f (db_sessions db)\<rparr>) =
     (if j = i then map_option f (get_session j db) else get_session j db)"
  by (auto simp: get_session_def find_update_where option.map_comp find_Some_iff
      intro!: map_option_cong option.map_ident_strong)

lemma distinct_workspace_ids: "control_ok db \<Longrightarrow> distinct (map ws_id (db_workspaces db))"
  by (simp add: control_ok_def keys_ok_def)

lemma set_workspace_state_eq:
  assumes "control_ok db"
  shows "set_workspace_state now w st det exp db = (case get_workspace w db of
     None \<Rightarrow> Inl (workspace_missing w '' has no row'')
   | Some row \<Rightarrow>
       if (case exp of None \<Rightarrow> True | Some es \<Rightarrow> ws_state row \<in> set es)
       then Inr ((), db\<lparr>db_workspaces := update_where (\<lambda>r. ws_id r = w
                 \<and> (case exp of None \<Rightarrow> True | Some es \<Rightarrow> ws_state r \<in> set es))
              (\<lambda>r. r\<lparr>ws_state := st, ws_state_detail := det, ws_state_changed_at := now\<rparr>)
              (db_workspaces db)\<rparr>)
       else Inl (StorageRefusal ''workspace_state''
                 (''workspace '' @ uuid_str w @ '' is '' @ py_repr (state_value (ws_state row))
                    @ '', not one of '' @ py_repr_list (sort (map state_value
                        (case exp of None \<Rightarrow> [] | Some es \<Rightarrow> remdups es))))
                 (Some (state_value (ws_state row)))))"
  using count_unique [OF distinct_workspace_ids [OF assms], of w
      "\<lambda>r. case exp of None \<Rightarrow> True | Some es \<Rightarrow> ws_state r \<in> set es"]
  by (simp add: set_workspace_state_def get_workspace_def Let_def split: option.splits)

lemma get_workspace_updated:
  "get_workspace v (db\<lparr>db_workspaces := update_where (\<lambda>r. ws_id r = w \<and> q r)
      (\<lambda>r. r\<lparr>ws_state := st, ws_state_detail := det, ws_state_changed_at := now\<rparr>) (db_workspaces db)\<rparr>) =
     map_option (\<lambda>r. if v = w \<and> q r
        then r\<lparr>ws_state := st, ws_state_detail := det, ws_state_changed_at := now\<rparr> else r)
       (get_workspace v db)"
  by (auto simp: get_workspace_def find_update_where find_Some_iff intro!: map_option_cong)

text \<open>
  The state write is a compare-and-set. With expected states it writes exactly when the
  row exists and is in one of them, it changes that row only, and otherwise it names the state
  the row is in and writes nothing.
\<close>

theorem set_workspace_state_compare_and_set:
  assumes "control_ok db" and "get_workspace w db = Some row"
  shows "(if ws_state row \<in> set es
     then \<exists>db'. set_workspace_state now w st det (Some es) db = Inr ((), db')
       \<and> get_workspace w db' =
           Some (row\<lparr>ws_state := st, ws_state_detail := det, ws_state_changed_at := now\<rparr>)
       \<and> (\<forall>v. v \<noteq> w \<longrightarrow> get_workspace v db' = get_workspace v db)
     else \<exists>detail. set_workspace_state now w st det (Some es) db =
       Inl (StorageRefusal ''workspace_state'' detail (Some (state_value (ws_state row)))))"
  using assms(2) by (auto simp: set_workspace_state_eq [OF assms(1)] get_workspace_updated
      intro: option.map_ident_strong)

definition sample_workspace :: workspace_row where
  "sample_workspace = \<lparr>ws_id = 5, ws_slug = ''home'', ws_display_name = ''Home'',
     ws_database_name = ''rheo_ws_5'', ws_state = Active, ws_created_at = 0,
     ws_state_changed_at = 0, ws_state_detail = None\<rparr>"

definition sample_control :: control_db where
  "sample_control = empty_control_db\<lparr>
     db_accounts := [\<lparr>acc_id = 7, acc_display_name = ''Ada'', acc_created_at = 0, acc_disabled_at = None\<rparr>],
     db_workspaces := [sample_workspace],
     db_memberships := [\<lparr>mb_account_id = 7, mb_workspace_id = 5, mb_role = Role_Owner, mb_created_at = 0\<rparr>],
     db_sessions := [\<lparr>ses_id = 9, ses_account_id = 7, ses_active_workspace_id = Some 5,
        ses_active_workspace_changed_at = Some 0, ses_created_at = 0, ses_last_seen_at = 0,
        ses_expires_at = 100, ses_revoked_at = None\<rparr>],
     db_secrets := [\<lparr>sec_secret_hash = [1], sec_session_id = 9, sec_host = ''a.test'', sec_created_at = 0\<rparr>],
     db_grants := [\<lparr>gr_code_hash = [2], gr_session_id = 9, gr_target_host = ''b.test'',
        gr_nonce_hash = [3], gr_expires_at = 50, gr_used_at = None\<rparr>],
     db_tokens := [\<lparr>tok_id = 11, tok_token_hash = [4], tok_account_id = 7, tok_workspace_id = 5,
        tok_kind = ''mcp'', tok_issued_from = ''session'', tok_set_name = None, tok_purpose = None,
        tok_created_at = 0, tok_expires_at = 100, tok_revoked_at = None, tok_last_used_at = None\<rparr>],
     db_token_operations := [(11, ''core.workspace.status'')]\<rparr>"

lemma sample_control_ok: "control_ok sample_control"
  by (simp add: control_ok_def keys_ok_def references_ok_def references_def id_defs sample_control_def
      empty_control_db_def sample_workspace_def membership_roles_def token_kinds_def token_issuers_def)

lemma sample_get_workspace: "get_workspace 5 sample_control = Some sample_workspace"
  by (simp add: get_workspace_def sample_control_def sample_workspace_def)

lemma set_workspace_state_compare_and_set_witness:
  "\<exists>detail. set_workspace_state 3 5 Provisioning None (Some [Provisioning, Unavailable]) sample_control =
       Inl (StorageRefusal ''workspace_state'' detail (Some ''active''))"
  using set_workspace_state_compare_and_set [OF sample_control_ok sample_get_workspace,
      of "[Provisioning, Unavailable]" 3 Provisioning None]
  by (simp add: sample_workspace_def)

lemma find_update_where_none:
  "(\<And>r. q (f r) \<Longrightarrow> False) \<Longrightarrow> (\<And>r. r \<in> set rows \<Longrightarrow> q r \<Longrightarrow> p r) \<Longrightarrow> find q (update_where p f rows) = None"
  by (auto simp: find_None_iff set_update_where)

lemma consume_nothing:
  assumes "\<forall>r \<in> set (db_grants d). gr_code_hash r = c \<longrightarrow> gr_used_at r \<noteq> None"
  shows "consume_session_grant t c h n d = (None, d)"
proof -
  let ?q = "\<lambda>r. gr_code_hash r = c \<and> gr_used_at r = None \<and> gr_expires_at r > t
                 \<and> gr_target_host r = h \<and> gr_nonce_hash r = n"
  have none: "\<not> ?q r" if "r \<in> set (db_grants d)" for r using assms that by auto
  then have "find ?q (db_grants d) = None" by (simp add: find_None_iff)
  moreover have "update_where ?q k (db_grants d) = db_grants d" for k
    unfolding update_where_def using none by (intro map_idI if_not_P) blast
  ultimately show ?thesis by (simp add: consume_session_grant_def Let_def)
qed

text \<open>
  C7: a grant code is consumed at most once, and only by the holder of its nonce, on its own
  host, before it expires: after a consumption every later attempt with the same code finds
  nothing, and an attempt that finds nothing changes nothing.
\<close>

theorem grant_consumed_at_most_once:
  assumes "control_ok db" and "consume_session_grant now code host nonce db = (g, db')"
  shows "case g of
     None \<Rightarrow> db' = db
   | Some row \<Rightarrow> gr_code_hash row = code \<and> gr_target_host row = host \<and> gr_nonce_hash row = nonce
       \<and> now < gr_expires_at row \<and> gr_used_at row = Some now
       \<and> (\<exists>q \<in> set (db_grants db). gr_used_at q = None \<and> row = q\<lparr>gr_used_at := Some now\<rparr>)
       \<and> row \<in> set (db_grants db')
       \<and> (\<forall>now' host' nonce'. consume_session_grant now' code host' nonce' db' = (None, db'))"
proof -
  let ?p = "\<lambda>r. gr_code_hash r = code \<and> gr_used_at r = None \<and> gr_expires_at r > now
                 \<and> gr_target_host r = host \<and> gr_nonce_hash r = nonce"
  let ?f = "\<lambda>r::session_grant_row. r\<lparr>gr_used_at := Some now\<rparr>"
  have g: "g = map_option ?f (find ?p (db_grants db))"
    and db': "db' = db\<lparr>db_grants := update_where ?p ?f (db_grants db)\<rparr>"
    using assms(2) by (auto simp: consume_session_grant_def Let_def)
  show ?thesis
  proof (cases "find ?p (db_grants db)")
    case None
    then have "update_where ?p ?f (db_grants db) = db_grants db"
      unfolding update_where_def by (intro map_idI) (auto simp: find_None_iff)
    then show ?thesis using None g db' by simp
  next
    case (Some q)
    then have q: "q \<in> set (db_grants db)" "?p q" by (auto simp: find_Some_iff)
    have "distinct (map gr_code_hash (db_grants db))"
      using assms(1) by (simp add: control_ok_def keys_ok_def)
    then have only: "r = q" if "r \<in> set (db_grants db)" "gr_code_hash r = code" for r
      using that q by (simp add: distinct_map inj_on_def)
    have used: "gr_used_at r \<noteq> None" if r: "r \<in> set (db_grants db')" "gr_code_hash r = code" for r
    proof -
      from r(1) obtain r0 where r0: "r0 \<in> set (db_grants db)"
          "r = r0 \<and> \<not> ?p r0 \<or> r = ?f r0"
        by (auto simp: db' set_update_where)
      then have "r0 = q" using only [OF r0(1)] r(2) by auto
      then show ?thesis using r0(2) q(2) by auto
    qed
    have "consume_session_grant t code h n db' = (None, db')" for t h n
      using consume_nothing used by blast
    moreover have "?f q \<in> set (db_grants db')"
      unfolding db' using q by (auto simp: set_update_where)
    ultimately show ?thesis using Some g q by auto
  qed
qed

lemma grant_consumed_at_most_once_witness:
  "\<exists>row db'. consume_session_grant 10 [2] ''b.test'' [3] sample_control = (Some row, db')
     \<and> gr_used_at row = Some 10 \<and> consume_session_grant 11 [2] ''b.test'' [3] db' = (None, db')"
proof -
  obtain g db' where c: "consume_session_grant 10 [2] ''b.test'' [3] sample_control = (g, db')"
    by fastforce
  then have "g \<noteq> None" by (auto simp: consume_session_grant_def sample_control_def)
  then show ?thesis using grant_consumed_at_most_once [OF sample_control_ok c] c by (auto split: option.splits)
qed

end
