(* ===== verification/Interfaces.thy ===== *)
theory Interfaces
  imports Rheo_Prelude
begin

text \<open>
  The contracts several components share, as locales: a text codec (record references,
  secret references and token strings are printed and parsed back) and a declaration
  table (the settings, operation and resolver registries all refuse to rebind a name and
  accept a repeated identical declaration). Each is interpreted in the theory of the
  component that provides it.
\<close>

section \<open>Text codecs\<close>

locale text_codec =
  fixes parse :: "string \<Rightarrow> 'a result"
    and render :: "'a \<Rightarrow> string"
    and wf :: "'a \<Rightarrow> bool"
  assumes parse_render: "wf x \<Longrightarrow> parse (render x) = Inr x"
begin

lemma render_inject: "wf x \<Longrightarrow> wf y \<Longrightarrow> render x = render y \<longleftrightarrow> x = y"
  by (metis parse_render sum.inject(2))

lemma render_accepted: "wf x \<Longrightarrow> \<exists>y. parse (render x) = Inr y \<and> render y = render x"
  by (simp add: parse_render)

end

text \<open>An exact codec accepts nothing but the canonical text of a value.\<close>

locale exact_text_codec = text_codec +
  assumes render_parse: "parse s = Inr x \<Longrightarrow> wf x \<and> render x = s"
begin

lemma parse_iff: "parse s = Inr x \<longleftrightarrow> wf x \<and> render x = s"
  using parse_render render_parse by blast

lemma parse_injective: "parse s = Inr x \<Longrightarrow> parse t = Inr x \<Longrightarrow> s = t"
  using render_parse by blast

lemma accepted_texts: "{s. \<exists>x. parse s = Inr x} = render ` Collect wf"
  using parse_iff by fastforce

end

section \<open>Declaration tables\<close>

text \<open>
  \<open>reg d t\<close> registers declaration \<open>d\<close> (with its handler and origin) in table
  \<open>t\<close>; \<open>admissible\<close> is what the registry checks of the declaration itself.
\<close>

locale declaration_table =
  fixes reg :: "'d \<Rightarrow> 't \<Rightarrow> 't result"
    and find :: "'t \<Rightarrow> 'k \<Rightarrow> 'd option"
    and key :: "'d \<Rightarrow> 'k"
    and admissible :: "'d \<Rightarrow> bool"
  assumes reg_new: "admissible d \<Longrightarrow> find t (key d) = None \<Longrightarrow>
      \<exists>t'. reg d t = Inr t' \<and> (\<forall>k. find t' k = (if k = key d then Some d else find t k))"
    and reg_same: "admissible d \<Longrightarrow> find t (key d) = Some d \<Longrightarrow> reg d t = Inr t"
    and reg_conflict: "find t (key d) = Some d' \<Longrightarrow> d' \<noteq> d \<Longrightarrow> \<exists>e. reg d t = Inl e"
    and reg_inadmissible: "\<not> admissible d \<Longrightarrow> \<exists>e. reg d t = Inl e"
begin

lemma reg_InrD:
  assumes "reg d t = Inr t'"
  shows "admissible d" and "find t (key d) \<in> {None, Some d}"
    and "find t' k = (if k = key d then Some d else find t k)"
proof -
  show a: "admissible d" using assms reg_inadmissible [of d t] by auto
  show c: "find t (key d) \<in> {None, Some d}"
    using assms reg_conflict [of t d] by (cases "find t (key d)") auto
  show "find t' k = (if k = key d then Some d else find t k)"
  proof (cases "find t (key d)")
    case None
    from reg_new [OF a None] assms show ?thesis by auto
  next
    case (Some d')
    then have "find t (key d) = Some d" using c by auto
    with reg_same [OF a] assms show ?thesis by auto
  qed
qed

lemma reg_found: "reg d t = Inr t' \<Longrightarrow> find t' (key d) = Some d"
  by (simp add: reg_InrD(3))

lemma reg_stable: "reg d t = Inr t' \<Longrightarrow> find t k = Some d' \<Longrightarrow> find t' k = Some d'"
  using reg_InrD(2) [of d t t'] reg_InrD(3) [of d t t' k] by auto

lemma reg_idempotent: "reg d t = Inr t' \<Longrightarrow> reg d t' = Inr t'"
  using reg_same reg_InrD(1) reg_found by blast

lemma reg_never_rebinds:
  "find t (key d) = Some d' \<Longrightarrow> reg d t = Inr t' \<Longrightarrow> d' = d \<and> find t' (key d) = Some d"
  using reg_InrD(2) [of d t t'] reg_found [of d t t'] by auto

lemma reg_all_stable: "rfold reg ds t = Inr t' \<Longrightarrow> find t k = Some d' \<Longrightarrow> find t' k = Some d'"
  by (rule rfold_invariant [where P = "\<lambda>u. find u k = Some d'"]) (auto intro: reg_stable)

lemma reg_all_found: "rfold reg ds t = Inr t' \<Longrightarrow> d \<in> set ds \<Longrightarrow> find t' (key d) = Some d"
proof (induction ds arbitrary: t)
  case Nil
  then show ?case by simp
next
  case (Cons x xs)
  then obtain u where u: "reg x t = Inr u" "rfold reg xs u = Inr t'" by auto
  show ?case
  proof (cases "d = x")
    case True
    then show ?thesis using u reg_found reg_all_stable by blast
  next
    case False
    then show ?thesis using u Cons by auto
  qed
qed

lemma reg_all_only:
  "rfold reg ds t = Inr t' \<Longrightarrow> find t' k = Some d \<Longrightarrow> find t k = Some d \<or> d \<in> set ds \<and> key d = k"
proof (induction ds arbitrary: t)
  case Nil
  then show ?case by simp
next
  case (Cons x xs)
  then obtain u where u: "reg x t = Inr u" "rfold reg xs u = Inr t'" by auto
  from Cons.IH [OF u(2) Cons.prems(2)] show ?case
    using reg_InrD(3) [OF u(1), of k] by (auto split: if_splits)
qed

lemma reg_all_new:
  assumes "distinct (map key ds)" and "\<And>d. d \<in> set ds \<Longrightarrow> admissible d"
    and "\<And>d. d \<in> set ds \<Longrightarrow> find t (key d) = None"
  shows "\<exists>t'. rfold reg ds t = Inr t'"
  using assms
proof (induction ds arbitrary: t)
  case Nil
  then show ?case by simp
next
  case (Cons x xs)
  obtain u where u: "reg x t = Inr u" "\<forall>k. find u k = (if k = key x then Some x else find t k)"
    using reg_new [of x t] Cons.prems by auto
  have "\<exists>t'. rfold reg xs u = Inr t'"
  proof (rule Cons.IH)
    fix d assume d: "d \<in> set xs"
    then have "key d \<noteq> key x" using Cons.prems(1) by (metis distinct.simps(2) imageI list.simps(9) list.set_map)
    then show "find u (key d) = None" using Cons.prems(3) d u(2) by simp
  qed (use Cons.prems in auto)
  then show ?case using u by auto
qed

text \<open>Building the table twice (startup and the command line both do) changes nothing.\<close>

lemma reg_all_idempotent: "rfold reg ds t = Inr t' \<Longrightarrow> rfold reg ds t' = Inr t'"
proof -
  assume a: "rfold reg ds t = Inr t'"
  have adm: "admissible d" if "d \<in> set ds" for d
    using a that
  proof (induction ds arbitrary: t)
    case (Cons x xs)
    then show ?case using reg_InrD(1) by auto
  qed simp
  have "rfold reg xs t' = Inr t'" if "set xs \<subseteq> set ds" for xs
    using that
  proof (induction xs)
    case (Cons x xs)
    then have "reg x t' = Inr t'"
      using adm reg_same reg_all_found [OF a] by auto
    then show ?case using Cons by auto
  qed simp
  then show ?thesis by blast
qed

end

end
