(* ===== verification/Settings_Schema.thy ===== *)
theory Settings_Schema
  imports Py_Text Interfaces
begin

text \<open>
  \<open>rheo_core/settings/schema.py\<close>: the values a setting can hold, the declaration of a
  key (\<open>KeySpec\<close> with its \<open>__post_init__\<close> checks), the type check of native values,
  the text form of the environment and of override rows, the process-wide
  \<open>SettingsRegistry\<close> and the production keys it is built from.

  A value is a \<open>pyval\<close>: what TOML, the environment or a caller can hand over. \<open>POther\<close>
  is any value of another class, with the name of its class and its \<open>repr\<close>.
\<close>

section \<open>Values\<close>

datatype pyval =
    PStr string
  | PInt int
  | PBool bool
  | PList "pyval list"
  | PTuple "pyval list"
  | PNone
  | POther string string

datatype scope = Deployment | Workspace | Member

datatype floor = Floor_Min | Floor_Union | Floor_Subset | Floor_And

datatype value_type = TStr | TInt | TBool | TStrList

fun scope_value :: "scope \<Rightarrow> string" where
  "scope_value Deployment = ''deployment''"
| "scope_value Workspace = ''workspace''"
| "scope_value Member = ''member''"

fun floor_value :: "floor \<Rightarrow> string" where
  "floor_value Floor_Min = ''min''"
| "floor_value Floor_Union = ''union''"
| "floor_value Floor_Subset = ''subset''"
| "floor_value Floor_And = ''and''"

fun type_value :: "value_type \<Rightarrow> string" where
  "type_value TStr = ''str''"
| "type_value TInt = ''int''"
| "type_value TBool = ''bool''"
| "type_value TStrList = ''list[str]''"

text \<open>\<open>type(value).__name__\<close>, \<open>repr(value)\<close> and \<open>str(value)\<close>.\<close>

fun type_name :: "pyval \<Rightarrow> string" where
  "type_name (PStr _) = ''str''"
| "type_name (PInt _) = ''int''"
| "type_name (PBool _) = ''bool''"
| "type_name (PList _) = ''list''"
| "type_name (PTuple _) = ''tuple''"
| "type_name PNone = ''NoneType''"
| "type_name (POther n _) = n"

fun value_repr :: "pyval \<Rightarrow> string" where
  "value_repr (PStr s) = py_repr s"
| "value_repr (PInt i) = int_str i"
| "value_repr (PBool b) = (if b then ''True'' else ''False'')"
| "value_repr (PList xs) = ''['' @ join_with '', '' (map value_repr xs) @ '']''"
| "value_repr (PTuple xs) =
     ''('' @ join_with '', '' (map value_repr xs) @ (if length xs = 1 then '',)'' else '')'')"
| "value_repr PNone = ''None''"
| "value_repr (POther _ r) = r"

definition value_str :: "pyval \<Rightarrow> string" where
  "value_str v = (case v of PStr s \<Rightarrow> s | _ \<Rightarrow> value_repr v)"

fun is_str :: "pyval \<Rightarrow> bool" where
  "is_str (PStr _) = True"
| "is_str _ = False"

definition freeze_value :: "pyval \<Rightarrow> pyval result" where
  "freeze_value v = (case v of
       PList xs \<Rightarrow> Inr (PTuple xs)
     | PStr _ \<Rightarrow> Inr v
     | PInt _ \<Rightarrow> Inr v
     | PBool _ \<Rightarrow> Inr v
     | PTuple _ \<Rightarrow> Inr v
     | _ \<Rightarrow> Inl (TypeError (''unsupported settings value of type '' @ type_name v)))"

definition thaw_value :: "pyval \<Rightarrow> pyval" where
  "thaw_value v = (case v of PTuple xs \<Rightarrow> PList xs | _ \<Rightarrow> v)"

fun matches_type :: "value_type \<Rightarrow> pyval \<Rightarrow> bool" where
  "matches_type TStr v = is_str v"
| "matches_type TInt v = (case v of PInt _ \<Rightarrow> True | _ \<Rightarrow> False)"
| "matches_type TBool v = (case v of PBool _ \<Rightarrow> True | _ \<Rightarrow> False)"
| "matches_type TStrList v =
     (case v of PList xs \<Rightarrow> list_all is_str xs | PTuple xs \<Rightarrow> list_all is_str xs | _ \<Rightarrow> False)"

section \<open>Key declarations\<close>

record key_spec =
  ks_key :: string
  ks_type :: value_type
  ks_scope :: scope
  ks_floor :: "floor option"
  ks_explicit_per_workspace :: bool
  ks_default :: pyval
  ks_choices :: "string list option"

text \<open>\<open>_KEY_SHAPE.fullmatch\<close>: dotted lowercase segments.\<close>

definition key_shape :: "string \<Rightarrow> bool" where
  "key_shape k = list_all is_segment (split_on (CHR ''.'') k)"

fun floor_type :: "floor \<Rightarrow> value_type" where
  "floor_type Floor_Min = TInt"
| "floor_type Floor_Union = TStrList"
| "floor_type Floor_Subset = TStrList"
| "floor_type Floor_And = TBool"

definition in_choices :: "pyval \<Rightarrow> string list \<Rightarrow> bool" where
  "in_choices v cs = (case v of PStr s \<Rightarrow> s \<in> set cs | _ \<Rightarrow> False)"

definition post_init :: "key_spec \<Rightarrow> key_spec result" where
  "post_init raw = (let k = ''settings key '' @ py_repr (ks_key raw) in
     ensure (key_shape (ks_key raw)) (ValueError (k @ '' is not dotted lowercase segments''))
     (rbind (freeze_value (ks_default raw)) (\<lambda>default.
     let spec = raw\<lparr>ks_default := default\<rparr> in
     ensure (matches_type (ks_type raw) default)
       (TypeError (k @ '': default '' @ value_repr default @ '' is not a '' @ type_value (ks_type raw)))
     (rbind (case ks_floor raw of None \<Rightarrow> Inr ()
             | Some f \<Rightarrow> ensure (floor_type f = ks_type raw)
                 (TypeError (k @ '': floor '' @ py_repr (floor_value f) @ '' applies to ''
                    @ type_value (floor_type f) @ '' keys, not '' @ type_value (ks_type raw)))
                 (Inr ())) (\<lambda>_.
     case ks_choices raw of None \<Rightarrow> Inr spec
     | Some cs \<Rightarrow>
         ensure (ks_type raw = TStr) (TypeError (k @ '': choices apply to str keys only''))
         (ensure (in_choices default cs)
           (ValueError (k @ '': default '' @ value_repr default @ '' is not one of '' @ py_repr_list cs))
           (Inr spec)))))))"

text \<open>What a \<open>KeySpec\<close> object satisfies once it exists.\<close>

definition is_plist :: "pyval \<Rightarrow> bool" where
  "is_plist v = (case v of PList _ \<Rightarrow> True | _ \<Rightarrow> False)"

definition spec_ok :: "key_spec \<Rightarrow> bool" where
  "spec_ok s = (key_shape (ks_key s) \<and> matches_type (ks_type s) (ks_default s)
     \<and> \<not> is_plist (ks_default s)
     \<and> (case ks_floor s of None \<Rightarrow> True | Some f \<Rightarrow> floor_type f = ks_type s)
     \<and> (case ks_choices s of None \<Rightarrow> True
        | Some cs \<Rightarrow> ks_type s = TStr \<and> in_choices (ks_default s) cs))"

lemma freeze_value_Inr:
  "freeze_value v = Inr w \<Longrightarrow> matches_type t w = matches_type t v \<and> \<not> is_plist w
     \<and> thaw_value w = thaw_value v"
  by (cases t; cases v) (auto simp: freeze_value_def is_plist_def thaw_value_def)

lemma freeze_value_fixed: "matches_type t v \<Longrightarrow> \<not> is_plist v \<Longrightarrow> freeze_value v = Inr v"
  by (cases t; cases v) (auto simp: freeze_value_def is_plist_def)

lemma freeze_value_total: "matches_type t v \<Longrightarrow> \<exists>w. freeze_value v = Inr w"
  by (cases t; cases v) (auto simp: freeze_value_def)

lemma freeze_not_plist: "freeze_value v = Inr w \<Longrightarrow> \<not> is_plist w"
  using freeze_value_Inr by blast

lemma post_init_ok: "post_init raw = Inr s \<Longrightarrow> spec_ok s"
  by (auto simp: post_init_def spec_ok_def Let_def freeze_not_plist split: option.splits)

lemma post_init_fixed: "spec_ok s \<Longrightarrow> post_init s = Inr s"
  using freeze_value_fixed [of "ks_type s" "ks_default s"]
  by (auto simp: post_init_def spec_ok_def Let_def split: option.splits)

section \<open>Native values\<close>

definition setting_type_mismatch :: "string \<Rightarrow> string \<Rightarrow> py_exc" where
  "setting_type_mismatch detail key = SettingsError ''setting_type'' detail (Some key)"

definition check_value :: "key_spec \<Rightarrow> pyval \<Rightarrow> string \<Rightarrow> pyval result" where
  "check_value spec v source =
     ensure (matches_type (ks_type spec) v)
       (setting_type_mismatch (ks_key spec @ '': '' @ source @ '' holds a value of type ''
          @ type_name v @ '', declared type is '' @ type_value (ks_type spec)) (ks_key spec))
     (rbind (freeze_value v) (\<lambda>frozen.
      ensure (case ks_choices spec of None \<Rightarrow> True | Some cs \<Rightarrow> in_choices frozen cs)
       (setting_type_mismatch (ks_key spec @ '': '' @ source @ '' holds '' @ value_repr frozen
          @ '', which is not one of '' @ py_repr_list (case ks_choices spec of None \<Rightarrow> [] | Some cs \<Rightarrow> cs))
          (ks_key spec))
       (Inr frozen)))"

text \<open>A stored value fits a key: its type, its frozen form and its closed set of values.\<close>

definition fits :: "key_spec \<Rightarrow> pyval \<Rightarrow> bool" where
  "fits spec v = (matches_type (ks_type spec) v \<and> \<not> is_plist v
     \<and> (case ks_choices spec of None \<Rightarrow> True | Some cs \<Rightarrow> in_choices v cs))"

lemma freeze_fits:
  assumes "freeze_value v = Inr w"
  shows "fits s w \<longleftrightarrow> matches_type (ks_type s) v
     \<and> (case ks_choices s of None \<Rightarrow> True | Some cs \<Rightarrow> in_choices v cs)"
proof -
  have "in_choices w cs = in_choices v cs" for cs
    using assms by (cases v) (auto simp: freeze_value_def in_choices_def)
  then show ?thesis using freeze_value_Inr [OF assms, of "ks_type s"]
    by (simp add: fits_def split: option.splits)
qed

lemma spec_ok_default: "spec_ok s \<Longrightarrow> fits s (ks_default s)"
  by (auto simp: spec_ok_def fits_def split: option.splits)

lemma check_value_fits: "check_value spec v source = Inr w \<Longrightarrow> fits spec w"
  using freeze_value_Inr [of v w "ks_type spec"]
  by (auto simp: check_value_def fits_def split: option.splits)

lemma check_value_frozen: "fits spec v \<Longrightarrow> check_value spec v source = Inr v"
  using freeze_value_fixed [of "ks_type spec" v]
  by (auto simp: check_value_def fits_def split: option.splits)

section \<open>Text values\<close>

definition true_words :: "string list" where
  "true_words = [''1'', ''true'', ''yes'', ''on'']"

definition false_words :: "string list" where
  "false_words = [''0'', ''false'', ''no'', ''off'']"

definition decode_text :: "key_spec \<Rightarrow> string \<Rightarrow> string \<Rightarrow> pyval result" where
  "decode_text spec text source =
     rbind (case ks_type spec of
         TStr \<Rightarrow> Inr (PStr text)
       | TInt \<Rightarrow> (case py_int 10 (strip text) of
             Some i \<Rightarrow> Inr (PInt i)
           | None \<Rightarrow> Inl (setting_type_mismatch
               (ks_key spec @ '': '' @ source @ '' is not an integer'') (ks_key spec)))
       | TBool \<Rightarrow> (let word = lower (strip text) in
           if word \<in> set true_words then Inr (PBool True)
           else if word \<in> set false_words then Inr (PBool False)
           else Inl (setting_type_mismatch
               (ks_key spec @ '': '' @ source @ '' is not a boolean'') (ks_key spec)))
       | TStrList \<Rightarrow> Inr (PTuple (map (\<lambda>item. PStr (strip item))
             (filter (\<lambda>item. strip item \<noteq> []) (split_on (CHR '','') text)))))
     (\<lambda>value. case ks_choices spec of None \<Rightarrow> Inr value
        | Some cs \<Rightarrow> ensure (in_choices value cs)
            (setting_type_mismatch (ks_key spec @ '': '' @ source @ '' is not one of ''
               @ py_repr_list cs) (ks_key spec))
            (Inr value))"

text \<open>
  \<open>encode_text\<close> is declared for the frozen and thawed setting values. \<open>None\<close> and values
  of other classes are outside that type; the model answers \<open>TypeError\<close> for a \<open>POther\<close>.
\<close>

definition py_int_of :: "pyval \<Rightarrow> int result" where
  "py_int_of v = (case v of
       PInt i \<Rightarrow> Inr i
     | PBool b \<Rightarrow> Inr (if b then 1 else 0)
     | PStr s \<Rightarrow> (case py_int 10 s of Some i \<Rightarrow> Inr i
         | None \<Rightarrow> Inl (ValueError (''invalid literal for int() with base 10: '' @ py_repr s)))
     | _ \<Rightarrow> Inl (TypeError (''int() argument must be a string, a bytes-like object or a real number, not ''
                 @ py_repr (type_name v))))"

definition truthy :: "pyval \<Rightarrow> bool result" where
  "truthy v = (case v of
       PStr s \<Rightarrow> Inr (s \<noteq> [])
     | PInt i \<Rightarrow> Inr (i \<noteq> 0)
     | PBool b \<Rightarrow> Inr b
     | PList xs \<Rightarrow> Inr (xs \<noteq> [])
     | PTuple xs \<Rightarrow> Inr (xs \<noteq> [])
     | PNone \<Rightarrow> Inr False
     | POther n _ \<Rightarrow> Inl (TypeError n))"

fun join_strs :: "nat \<Rightarrow> pyval list \<Rightarrow> string list result" where
  "join_strs i [] = Inr []"
| "join_strs i (x # xs) = (case x of
       PStr s \<Rightarrow> rbind (join_strs (Suc i) xs) (\<lambda>r. Inr (s # r))
     | _ \<Rightarrow> Inl (TypeError (''sequence item '' @ nat_str i @ '': expected str instance, ''
                 @ type_name x @ '' found'')))"

definition encode_text :: "key_spec \<Rightarrow> pyval \<Rightarrow> string result" where
  "encode_text spec v = (case ks_type spec of
       TStr \<Rightarrow> Inr (value_str v)
     | TInt \<Rightarrow> rbind (py_int_of v) (\<lambda>i. Inr (int_str i))
     | TBool \<Rightarrow> rbind (truthy v) (\<lambda>b. Inr (if b then ''true'' else ''false''))
     | TStrList \<Rightarrow> (case v of
           PList xs \<Rightarrow> rbind (join_strs 0 xs) (\<lambda>ss. Inr (join_with '','' ss))
         | PTuple xs \<Rightarrow> rbind (join_strs 0 xs) (\<lambda>ss. Inr (join_with '','' ss))
         | _ \<Rightarrow> Inl (TypeError (ks_key spec @ '': expected a list of str''))))"

text \<open>
  The text of a value survives only for the values the text form can carry: list items
  without commas or outer white space, and not empty.
\<close>

definition text_safe :: "key_spec \<Rightarrow> pyval \<Rightarrow> bool" where
  "text_safe spec v = (fits spec v \<and> (case v of
       PTuple xs \<Rightarrow> list_all (\<lambda>x. case x of
           PStr s \<Rightarrow> s \<noteq> [] \<and> strip s = s \<and> CHR '','' \<notin> set s | _ \<Rightarrow> False) xs
     | _ \<Rightarrow> True))"

lemma strip_by_idem [simp]: "strip_by p (strip_by p s) = strip_by p s"
proof -
  define u where "u = dropWhile p s"
  define v where "v = dropWhile p (rev u)"
  have u: "u = [] \<or> \<not> p (hd u)" and v: "v = [] \<or> \<not> p (hd v)"
    unfolding u_def v_def using hd_dropWhile by blast+
  have drop_id: "dropWhile p xs = xs" if "xs = [] \<or> \<not> p (hd xs)" for xs
    using that by (cases xs) auto
  obtain w where w: "rev u = w @ v" by (metis v_def takeWhile_dropWhile_id)
  have "rev v = [] \<or> \<not> p (hd (rev v))"
  proof (cases "v = []")
    case False
    have "u = rev v @ rev w" using w by (metis rev_append rev_rev_ident)
    then have "hd u = hd (rev v)" "u \<noteq> []" using False by (auto simp: hd_append)
    then show ?thesis using u by auto
  qed simp
  then have "strip_by p (rev v) = rev v"
    using drop_id [OF v] by (simp add: strip_by_def drop_id)
  moreover have "strip_by p s = rev v" by (simp add: strip_by_def u_def v_def)
  ultimately show ?thesis by simp
qed

lemma strip_idem [simp]: "strip (strip s) = strip s"
  by (simp add: strip_def)

lemma set_strip: "set (strip s) \<subseteq> set s"
  unfolding strip_def strip_by_def by (auto dest!: set_dropWhileD)

lemma split_on_pieces: "x \<in> set (split_on c s) \<Longrightarrow> c \<notin> set x"
proof (induction s arbitrary: x)
  case (Cons a s)
  then show ?case by (cases "split_on c s") (auto split: if_splits)
qed simp

lemma decode_text_safe:
  assumes "spec_ok spec" and "decode_text spec text source = Inr v"
  shows "text_safe spec v"
proof (cases "ks_type spec")
  case TStrList
  have "CHR '','' \<notin> set (strip x)" if "x \<in> set (split_on (CHR '','') text)" for x
    using split_on_pieces [OF that] set_strip [of x] by blast
  moreover have "ks_choices spec = None"
    using assms TStrList by (auto simp: spec_ok_def split: option.splits)
  ultimately show ?thesis
    using assms TStrList
    by (auto simp: decode_text_def text_safe_def fits_def is_plist_def list_all_iff)
qed (use assms in \<open>auto simp: decode_text_def text_safe_def fits_def is_plist_def Let_def
  split: option.splits if_splits\<close>)

lemma join_strs_map [simp]: "join_strs i (map PStr ss) = Inr ss"
  by (induction ss arbitrary: i) auto

lemma list_text_roundtrip:
  assumes "\<And>s. s \<in> set ss \<Longrightarrow> s \<noteq> [] \<and> strip s = s \<and> CHR '','' \<notin> set s"
  shows "map (\<lambda>item. PStr (strip item))
     (filter (\<lambda>item. strip item \<noteq> []) (split_on (CHR '','') (join_with '','' ss))) = map PStr ss"
proof (cases "ss = []")
  case True
  then show ?thesis by (simp add: strip_def strip_by_def)
next
  case False
  have "split_on (CHR '','') (join_with '','' ss) = ss"
    by (rule split_on_join) (use False assms in auto)
  moreover have "filter (\<lambda>item. strip item \<noteq> []) ss = ss"
    using assms by (intro filter_True) auto
  ultimately show ?thesis using assms by simp
qed

lemma lower_words [simp]: "lower (strip ''true'') = ''true''" "lower (strip ''false'') = ''false''"
  by (simp_all add: lower_def lower_char_def strip_def strip_by_def is_space_def)

lemma py_int_strip [simp]: "py_int b (strip s) = py_int b s"
  by (simp add: py_int_def)

lemma encode_decode:
  assumes "text_safe spec v"
  shows "rbind (encode_text spec v) (\<lambda>t. decode_text spec t source) = Inr v"
proof -
  have f: "matches_type (ks_type spec) v" "\<not> is_plist v"
    and c: "case ks_choices spec of None \<Rightarrow> True | Some cs \<Rightarrow> in_choices v cs"
    using assms by (auto simp: text_safe_def fits_def)
  show ?thesis
  proof (cases "ks_type spec")
    case TStr
    then obtain s where "v = PStr s" using f by (cases v) auto
    then show ?thesis using TStr c
      by (auto simp: encode_text_def decode_text_def value_str_def split: option.splits)
  next
    case TInt
    then obtain i where "v = PInt i" using f by (cases v) auto
    then show ?thesis using TInt c
      by (auto simp: encode_text_def decode_text_def py_int_of_def split: option.splits)
  next
    case TBool
    then obtain b where "v = PBool b" using f by (cases v) auto
    then show ?thesis using TBool c
      by (cases b) (auto simp: encode_text_def decode_text_def truthy_def Let_def true_words_def
        false_words_def split: option.splits)
  next
    case TStrList
    then obtain xs where v: "v = PTuple xs" and "list_all is_str xs"
      using f by (cases v) (auto simp: is_plist_def)
    then have "\<exists>ss. xs = map PStr ss"
    proof (induction xs arbitrary: v)
      case (Cons x xs)
      then obtain s ss where "x = PStr s" "xs = map PStr ss" by (cases x) auto
      then show ?case by (metis list.simps(9))
    qed simp
    then obtain ss where xs: "xs = map PStr ss" by blast
    have "s \<noteq> [] \<and> strip s = s \<and> CHR '','' \<notin> set s" if "s \<in> set ss" for s
      using assms that v xs by (auto simp: text_safe_def list_all_iff)
    then show ?thesis
      using TStrList c v xs list_text_roundtrip [of ss]
      by (auto simp: encode_text_def decode_text_def split: option.splits)
  qed
qed

lemma join_strs_total: "list_all is_str xs \<Longrightarrow> \<exists>ss. join_strs i xs = Inr ss"
proof (induction xs arbitrary: i)
  case (Cons x xs)
  then show ?case by (cases x) (auto simp del: rbind_eq_Inr, metis rbind_simps(2))
qed simp

lemma encode_text_total: "fits s v \<Longrightarrow> \<exists>t. encode_text s v = Inr t"
proof -
  assume f: "fits s v"
  show ?thesis
  proof (cases "ks_type s")
    case TStrList
    then obtain xs where "v = PTuple xs" "list_all is_str xs"
      using f by (cases v) (auto simp: fits_def is_plist_def)
    then show ?thesis using TStrList join_strs_total [of xs 0] by (auto simp: encode_text_def)
  qed (use f in \<open>cases v; auto simp: encode_text_def fits_def py_int_of_def truthy_def\<close>)+
qed

section \<open>The registry\<close>

record settings_registry =
  sr_specs :: "(string \<times> key_spec) list"
  sr_origins :: "(string \<times> string) list"

definition empty_registry :: settings_registry where
  "empty_registry = \<lparr>sr_specs = [], sr_origins = []\<rparr>"

definition test_harness_origin :: string where
  "test_harness_origin = ''test_harness''"

definition core_origin :: string where
  "core_origin = ''core''"

definition origin_item :: "settings_registry \<Rightarrow> string \<Rightarrow> string result" where
  "origin_item r key = (case map_of (sr_origins r) key of
       Some o' \<Rightarrow> Inr o' | None \<Rightarrow> Inl (OtherException ''KeyError'' key))"

text \<open>
  \<open>profile\<close> is what \<open>current_profile()\<close> returns or raises; the code calls it only for
  the harness origin.
\<close>

definition register :: "string result \<Rightarrow> key_spec \<Rightarrow> string \<Rightarrow> settings_registry
    \<Rightarrow> settings_registry result" where
  "register profile spec origin r =
     ensure (origin \<noteq> []) (ValueError ''a settings registration needs a non-empty origin'')
     (rbind (if origin = test_harness_origin
             then rbind profile (\<lambda>p. ensure (p = ''test'')
               (SettingsError ''setting_origin_refused''
                 (ks_key spec @ '': origin '' @ py_repr origin
                    @ '' is accepted only under profile = test (resolved profile is ''
                    @ py_repr p @ '')'') (Some (ks_key spec)))
               (Inr ()))
             else Inr ()) (\<lambda>_.
      case map_of (sr_specs r) (ks_key spec) of
        None \<Rightarrow> Inr (r\<lparr>sr_specs := dict_set (ks_key spec) spec (sr_specs r),
                      sr_origins := dict_set (ks_key spec) origin (sr_origins r)\<rparr>)
      | Some existing \<Rightarrow> rbind (origin_item r (ks_key spec)) (\<lambda>o'.
          if existing = spec \<and> o' = origin then Inr r
          else Inl (SettingsError ''setting_redeclared''
            (ks_key spec @ '' is already declared (origin '' @ py_repr o'
               @ '') with a different spec or origin'') (Some (ks_key spec))))))"

definition lookup :: "settings_registry \<Rightarrow> string \<Rightarrow> key_spec option" where
  "lookup r key = map_of (sr_specs r) key"

definition setting_undeclared :: "string \<Rightarrow> py_exc" where
  "setting_undeclared key =
     SettingsError ''setting_undeclared'' (key @ '' is not a declared settings key'') (Some key)"

definition get_spec :: "settings_registry \<Rightarrow> string \<Rightarrow> key_spec result" where
  "get_spec r key = (case lookup r key of None \<Rightarrow> Inl (setting_undeclared key) | Some s \<Rightarrow> Inr s)"

definition origin_of :: "settings_registry \<Rightarrow> string \<Rightarrow> string result" where
  "origin_of r key = rbind (get_spec r key) (\<lambda>_. origin_item r key)"

text \<open>\<open>keys\<close> returns a frozenset; here, a list without repetition.\<close>

definition keys :: "string option \<Rightarrow> settings_registry \<Rightarrow> string list" where
  "keys origin r = (case origin of
       None \<Rightarrow> map fst (sr_specs r)
     | Some o' \<Rightarrow> map fst (filter (\<lambda>(k, x). x = o') (sr_origins r)))"

definition specs :: "string option \<Rightarrow> settings_registry \<Rightarrow> key_spec list" where
  "specs origin r = map (\<lambda>k. the (map_of (sr_specs r) k)) (sort (keys origin r))"

definition explicit_per_workspace :: "settings_registry \<Rightarrow> key_spec list" where
  "explicit_per_workspace r = filter ks_explicit_per_workspace (specs None r)"

text \<open>
  The invariant of the two tables: the same keys, each once, each spec stored under its own
  key, and no empty origin.
\<close>

definition registry_ok :: "settings_registry \<Rightarrow> bool" where
  "registry_ok r = (map fst (sr_origins r) = map fst (sr_specs r)
     \<and> distinct (map fst (sr_specs r))
     \<and> list_all (\<lambda>(k, s). ks_key s = k) (sr_specs r)
     \<and> list_all (\<lambda>(k, o'). o' \<noteq> []) (sr_origins r))"

lemma dict_set_absent: "map_of d k = None \<Longrightarrow> dict_set k v d = d @ [(k, v)]"
  by (induction d) (auto split: if_splits)

lemma register_InrD:
  assumes "register profile spec origin r = Inr r'"
  shows "origin \<noteq> []" and "origin = test_harness_origin \<Longrightarrow> profile = Inr ''test''"
    and "r' = r \<or> map_of (sr_specs r) (ks_key spec) = None
       \<and> r' = r\<lparr>sr_specs := dict_set (ks_key spec) spec (sr_specs r),
              sr_origins := dict_set (ks_key spec) origin (sr_origins r)\<rparr>"
  using assms by (auto simp: register_def split: if_splits option.splits)

lemma register_ok:
  assumes "registry_ok r" and "register profile spec origin r = Inr r'"
  shows "registry_ok r'"
proof -
  from register_InrD(3) [OF assms(2)] show ?thesis
  proof
    assume n: "map_of (sr_specs r) (ks_key spec) = None
       \<and> r' = r\<lparr>sr_specs := dict_set (ks_key spec) spec (sr_specs r),
              sr_origins := dict_set (ks_key spec) origin (sr_origins r)\<rparr>"
    then have "ks_key spec \<notin> set (map fst (sr_specs r))" by (simp add: map_of_eq_None_iff)
    then have o: "map_of (sr_origins r) (ks_key spec) = None"
      using assms(1) by (metis map_of_eq_None_iff registry_ok_def set_map)
    show ?thesis
      using n assms(1) register_InrD(1) [OF assms(2)]
      by (auto simp: registry_ok_def dict_set_absent o map_of_eq_None_iff)
  qed (use assms in simp)
qed

lemma empty_registry_ok: "registry_ok empty_registry"
  by (simp add: registry_ok_def empty_registry_def)

text \<open>The registry as a declaration table of a spec with its origin.\<close>

definition found :: "settings_registry \<Rightarrow> string \<Rightarrow> (key_spec \<times> string) option" where
  "found r key = (case map_of (sr_specs r) key of None \<Rightarrow> None
     | Some s \<Rightarrow> Some (s, case map_of (sr_origins r) key of None \<Rightarrow> [] | Some o' \<Rightarrow> o'))"

definition origin_admissible :: "string result \<Rightarrow> string \<Rightarrow> bool" where
  "origin_admissible profile origin =
     (origin \<noteq> [] \<and> (origin = test_harness_origin \<longrightarrow> profile = Inr ''test''))"

definition register_pair :: "string result \<Rightarrow> key_spec \<times> string \<Rightarrow> settings_registry
    \<Rightarrow> settings_registry result" where
  "register_pair profile d r = register profile (fst d) (snd d) r"

interpretation settings_table: declaration_table "register_pair profile" found
    "\<lambda>d. ks_key (fst d)" "\<lambda>d. origin_admissible profile (snd d)" for profile
proof
  fix d :: "key_spec \<times> string" and t :: settings_registry and d'
  show "origin_admissible profile (snd d) \<Longrightarrow> found t (ks_key (fst d)) = None \<Longrightarrow>
      \<exists>t'. register_pair profile d t = Inr t' \<and>
        (\<forall>k. found t' k = (if k = ks_key (fst d) then Some d else found t k))"
    by (auto simp: register_pair_def register_def origin_admissible_def found_def
        split: option.splits)
  show "origin_admissible profile (snd d) \<Longrightarrow> found t (ks_key (fst d)) = Some d \<Longrightarrow>
      register_pair profile d t = Inr t"
    by (auto simp: register_pair_def register_def origin_admissible_def found_def origin_item_def
        split: option.splits)
  show "found t (ks_key (fst d)) = Some d' \<Longrightarrow> d' \<noteq> d \<Longrightarrow> \<exists>e. register_pair profile d t = Inl e"
    by (cases d; cases d')
      (auto simp: register_pair_def register_def found_def origin_item_def ensure_def rbind_def
        split: option.splits sum.splits if_splits)
  show "\<not> origin_admissible profile (snd d) \<Longrightarrow> \<exists>e. register_pair profile d t = Inl e"
    by (auto simp: register_pair_def register_def origin_admissible_def ensure_def rbind_def
        split: sum.splits)
qed

section \<open>The production keys\<close>

definition profiles :: "string list" where
  "profiles = [''production'', ''development'', ''test'']"

definition profile_key :: string where
  "profile_key = ''profile''"

definition storage_keys :: "key_spec list" where
  "storage_keys = [
     key_spec.make ''storage.cluster_dsn_ref'' TStr Deployment None False (PStr ''secret://env/RHEO_CLUSTER_DSN'') None,
     key_spec.make ''storage.control_database'' TStr Deployment None False (PStr ''rheo_control'') None,
     key_spec.make ''storage.template_database'' TStr Deployment None False (PStr ''template1'') None,
     key_spec.make ''storage.pool_cache_size'' TInt Deployment None False (PInt 32) None,
     key_spec.make ''storage.pool_max_connections'' TInt Deployment None False (PInt 5) None,
     key_spec.make profile_key TStr Deployment None False (PStr ''development'') (Some profiles),
     key_spec.make ''identity.token_max_days.cli'' TInt Workspace (Some Floor_Min) False (PInt 90) None,
     key_spec.make ''identity.token_max_days.mcp'' TInt Workspace (Some Floor_Min) False (PInt 30) None]"

definition routing_keys :: "key_spec list" where
  "routing_keys = [
     key_spec.make ''routing.mode'' TStr Deployment None False (PStr ''path'') (Some [''path'', ''subdomain'']),
     key_spec.make ''routing.scheme'' TStr Deployment None False (PStr ''https'') (Some [''https'', ''http'']),
     key_spec.make ''routing.base_host'' TStr Deployment None False (PStr ''localhost'') None,
     key_spec.make ''routing.shell.host'' TStr Deployment None False (PStr ''circuit'') None,
     key_spec.make ''routing.shell.path'' TStr Deployment None False (PStr ''/'') None,
     key_spec.make ''routing.identity.host'' TStr Deployment None False (PStr ''auth'') None,
     key_spec.make ''routing.identity.path'' TStr Deployment None False (PStr ''/auth'') None,
     key_spec.make ''routing.api.host'' TStr Deployment None False (PStr ''api'') None,
     key_spec.make ''routing.api.path'' TStr Deployment None False (PStr ''/api'') None,
     key_spec.make ''routing.mcp.host'' TStr Deployment None False (PStr ''mcp'') None,
     key_spec.make ''routing.mcp.path'' TStr Deployment None False (PStr ''/mcp'') None,
     key_spec.make ''routing.docs.host'' TStr Deployment None False (PStr ''docs'') None,
     key_spec.make ''routing.docs.external'' TBool Deployment None False (PBool True) None,
     key_spec.make ''routing.integration.host'' TStr Deployment None False (PStr ''tuttle'') None,
     key_spec.make ''routing.integration.external'' TBool Deployment None False (PBool True) None,
     key_spec.make ''routing.integration.reserved'' TBool Deployment None False (PBool True) None]"

definition identity_keys :: "key_spec list" where
  "identity_keys = [
     key_spec.make ''identity.allow_signup'' TBool Deployment None False (PBool False) None,
     key_spec.make ''identity.allow_workspace_create'' TBool Deployment None False (PBool False) None,
     key_spec.make ''identity.session_idle_days'' TInt Deployment None False (PInt 14) None,
     key_spec.make ''identity.session_max_days'' TInt Deployment None False (PInt 30) None,
     key_spec.make ''identity.providers.github.enabled'' TBool Deployment None False (PBool False) None,
     key_spec.make ''identity.providers.github.client_id'' TStr Deployment None False (PStr '''') None,
     key_spec.make ''identity.providers.github.client_secret_ref'' TStr Deployment None False (PStr '''') None,
     key_spec.make ''internal.secret_ref'' TStr Deployment None False (PStr '''') None]"


definition production_keys :: "key_spec list" where
  "production_keys = storage_keys @ routing_keys @ identity_keys"

text \<open>The module-level loop that fills \<open>REGISTRY\<close>; \<open>core\<close> never asks for the profile.\<close>

definition load_production_keys :: "string result \<Rightarrow> settings_registry result" where
  "load_production_keys profile =
     rfold (\<lambda>spec. register profile spec core_origin) production_keys empty_registry"

definition core_registry :: settings_registry where
  "core_registry = \<lparr>sr_specs = map (\<lambda>s. (ks_key s, s)) production_keys,
                    sr_origins = map (\<lambda>s. (ks_key s, core_origin)) production_keys\<rparr>"

lemma register_many:
  assumes "distinct (map ks_key ss)" and "origin \<noteq> []" and "origin \<noteq> test_harness_origin"
    and "\<And>s. s \<in> set ss \<Longrightarrow> ks_key s \<notin> fst ` set (sr_specs r) \<union> fst ` set (sr_origins r)"
  shows "rfold (\<lambda>s. register profile s origin) ss r =
     Inr (r\<lparr>sr_specs := sr_specs r @ map (\<lambda>s. (ks_key s, s)) ss,
            sr_origins := sr_origins r @ map (\<lambda>s. (ks_key s, origin)) ss\<rparr>)"
  using assms
proof (induction ss arbitrary: r)
  case Nil
  then show ?case by simp
next
  case (Cons s ss)
  let ?r = "r\<lparr>sr_specs := sr_specs r @ [(ks_key s, s)],
             sr_origins := sr_origins r @ [(ks_key s, origin)]\<rparr>"
  have "map_of (sr_specs r) (ks_key s) = None" "map_of (sr_origins r) (ks_key s) = None"
    using Cons.prems(4) [of s] by (simp_all add: map_of_eq_None_iff)
  then have 1: "register profile s origin r = Inr ?r"
    using Cons.prems by (simp add: register_def dict_set_absent)
  have 2: "rfold (\<lambda>s. register profile s origin) ss ?r =
     Inr (?r\<lparr>sr_specs := sr_specs ?r @ map (\<lambda>s. (ks_key s, s)) ss,
            sr_origins := sr_origins ?r @ map (\<lambda>s. (ks_key s, origin)) ss\<rparr>)"
  proof (rule Cons.IH)
    fix d assume d: "d \<in> set ss"
    then have "ks_key d \<noteq> ks_key s" using Cons.prems(1) by (metis distinct.simps(2) imageI list.simps(9) list.set_map)
    then show "ks_key d \<notin> fst ` set (sr_specs ?r) \<union> fst ` set (sr_origins ?r)"
      using Cons.prems(4) [of d] d by simp
  qed (use Cons.prems in auto)
  show ?case using 1 2 by simp
qed

lemmas production_key_defs = production_keys_def storage_keys_def routing_keys_def
  identity_keys_def key_spec.make_def profile_key_def

lemma production_keys_distinct: "distinct (map ks_key production_keys)"
  by (simp add: production_key_defs)

lemma load_production_keys_eq: "load_production_keys profile = Inr core_registry"
  unfolding load_production_keys_def
  by (subst register_many) (simp_all add: production_keys_distinct empty_registry_def
      core_registry_def core_origin_def test_harness_origin_def)

lemma production_keys_ok: "list_all spec_ok production_keys"
  by (simp add: production_key_defs spec_ok_def key_shape_def is_plist_def in_choices_def
      profiles_def is_segment_char_def is_lower_def is_digit_def)

lemma core_registry_ok: "registry_ok core_registry"
  using production_keys_distinct
  by (simp add: registry_ok_def core_registry_def o_def list_all_iff core_origin_def)

text \<open>A registry whose specs all passed \<open>__post_init__\<close>.\<close>

definition specs_ok :: "settings_registry \<Rightarrow> bool" where
  "specs_ok r = (registry_ok r \<and> list_all (\<lambda>(k, s). spec_ok s) (sr_specs r))"

lemma core_specs_ok: "specs_ok core_registry"
  using core_registry_ok production_keys_ok
  by (simp add: specs_ok_def core_registry_def list_all_iff)

lemma register_specs_ok:
  assumes "specs_ok r" and "spec_ok spec" and "register profile spec origin r = Inr r'"
  shows "specs_ok r'"
  using assms register_ok [of r profile spec origin r'] register_InrD(3) [OF assms(3)]
  by (auto simp: specs_ok_def dict_set_absent)

lemma lookup_ok: "specs_ok r \<Longrightarrow> lookup r k = Some s \<Longrightarrow> spec_ok s \<and> ks_key s = k"
  by (auto simp: specs_ok_def registry_ok_def lookup_def list_all_iff dest!: map_of_SomeD)

lemma set_specs: "registry_ok r \<Longrightarrow> set (specs None r) = snd ` set (sr_specs r)"
proof -
  assume r: "registry_ok r"
  have "(\<lambda>k. the (map_of (sr_specs r) k)) ` fst ` set (sr_specs r) = snd ` set (sr_specs r)"
    using r by (force simp: registry_ok_def image_image image_iff)
  then show ?thesis by (simp add: specs_def keys_def)
qed

lemma specs_lookup: "registry_ok r \<Longrightarrow> s \<in> set (specs None r) \<longleftrightarrow> lookup r (ks_key s) = Some s"
proof -
  assume r: "registry_ok r"
  then have "s \<in> snd ` set (sr_specs r) \<longleftrightarrow> (ks_key s, s) \<in> set (sr_specs r)"
    by (force simp: registry_ok_def list_all_iff)
  then show ?thesis using r by (simp add: set_specs lookup_def registry_ok_def)
qed

lemma specs_keys_distinct: "registry_ok r \<Longrightarrow> distinct (map ks_key (specs None r))"
proof -
  assume r: "registry_ok r"
  have "map ks_key (specs None r) = sort (map fst (sr_specs r))"
    using r by (fastforce simp: specs_def keys_def registry_ok_def list_all_iff intro!: map_idI)
  then show ?thesis using r by (simp add: registry_ok_def)
qed

end
