(* ===== verification/Workspace_Db.thy ===== *)
theory Workspace_Db
  imports Control_Plane Settings_Schema
begin

text \<open>
  \<open>rheo_core/storage/core_tables.py\<close> and \<open>repositories.py\<close>: the tables of one workspace
  database and the repository functions over them. Upserts cannot fail; ids and the clock are
  arguments, as in the control plane.
\<close>

record composition_row =
  cp_core_version :: string
  cp_core_contract_version :: int
  cp_updated_at :: datetime

record module_state_row =
  ms_module_id :: string
  ms_package_version :: string
  ms_state :: string
  ms_installed_at :: datetime
  ms_enabled_at :: "datetime option"
  ms_disabled_at :: "datetime option"
  ms_state_detail :: "string option"

record module_schema_version_row =
  mv_module_id :: string
  mv_schema_version :: string
  mv_applied_at :: datetime
  mv_core_version_at_apply :: string

record workspace_setting_row =
  wset_key :: string
  wset_value :: string
  wset_value_type :: value_type
  wset_updated_by :: "uuid option"
  wset_updated_at :: datetime

record member_setting_row =
  mset_account_id :: uuid
  mset_key :: string
  mset_value :: string
  mset_value_type :: value_type
  mset_updated_at :: datetime

text \<open>\<open>wd_revisions\<close> is the \<open>core\<close> chain's version table, \<open>wd_schema\<close> whether the schema exists.\<close>

record workspace_db =
  wd_schema :: bool
  wd_revisions :: "string list"
  wd_composition :: "composition_row option"
  wd_module_states :: "module_state_row list"
  wd_schema_versions :: "module_schema_version_row list"
  wd_settings :: "workspace_setting_row list"
  wd_member_settings :: "member_setting_row list"

definition empty_workspace_db :: workspace_db where
  "empty_workspace_db = \<lparr>wd_schema = False, wd_revisions = [], wd_composition = None,
     wd_module_states = [], wd_schema_versions = [], wd_settings = [], wd_member_settings = []\<rparr>"

definition write_composition :: "datetime \<Rightarrow> string \<Rightarrow> int \<Rightarrow> workspace_db \<Rightarrow> composition_row \<times> workspace_db" where
  "write_composition now core_version contract_version db =
     (let row = \<lparr>cp_core_version = core_version, cp_core_contract_version = contract_version,
                 cp_updated_at = now\<rparr>
      in (row, db\<lparr>wd_composition := Some row\<rparr>))"

definition read_composition :: "workspace_db \<Rightarrow> composition_row option" where
  "read_composition db = wd_composition db"

definition list_module_states :: "workspace_db \<Rightarrow> module_state_row list" where
  "list_module_states db = sort_key ms_module_id (wd_module_states db)"

definition list_module_schema_versions :: "workspace_db \<Rightarrow> module_schema_version_row list" where
  "list_module_schema_versions db =
     sort_key (\<lambda>r. (mv_applied_at r, mv_module_id r)) (wd_schema_versions db)"

text \<open>\<open>INSERT ... ON CONFLICT (key) DO UPDATE\<close>.\<close>

definition upsert_row :: "('r \<Rightarrow> 'k) \<Rightarrow> 'r \<Rightarrow> 'r list \<Rightarrow> 'r list" where
  "upsert_row key row rows =
     (if key row \<in> set (map key rows) then update_where (\<lambda>r. key r = key row) (\<lambda>_. row) rows
      else rows @ [row])"

lemma find_replace_key:
  "find (\<lambda>r. key r = k) (update_where (\<lambda>r. key r = key row) (\<lambda>_. row) rows) =
     (if k = key row then map_option (\<lambda>_. row) (find (\<lambda>r. key r = k) rows)
      else find (\<lambda>r. key r = k) rows)"
proof (induction rows)
  case (Cons r rows)
  then show ?case
    by (cases "key r = key row"; cases "key r = k") (auto simp: update_where_def)
qed (simp add: update_where_def)

lemma find_append: "find p (xs @ ys) = (case find p xs of Some r \<Rightarrow> Some r | None \<Rightarrow> find p ys)"
  by (induction xs) auto

lemma find_upsert_row:
  "find (\<lambda>r. key r = k) (upsert_row key row rows) =
     (if k = key row then Some row else find (\<lambda>r. key r = k) rows)"
proof (cases "key row \<in> set (map key rows)")
  case True
  then obtain r where "find (\<lambda>r. key r = key row) rows = Some r"
    by (metis find_None_notin not_None_eq)
  then show ?thesis using True by (simp add: upsert_row_def find_replace_key)
next
  case False
  then have "find (\<lambda>r. key r = key row) rows = None" by (simp add: find_None_notin)
  then show ?thesis using False by (auto simp: upsert_row_def find_append split: option.splits)
qed

lemma distinct_upsert_row:
  assumes "distinct (map key rows)"
  shows "distinct (map key (upsert_row key row rows))"
proof (cases "key row \<in> set (map key rows)")
  case True
  have "map key (update_where (\<lambda>r. key r = key row) (\<lambda>_. row) rows) = map key rows"
    by (rule map_update_where) simp
  then show ?thesis using True assms by (simp add: upsert_row_def)
qed (use assms in \<open>simp add: upsert_row_def\<close>)

definition workspace_settings :: "workspace_db \<Rightarrow> (string \<times> string) list" where
  "workspace_settings db = map (\<lambda>r. (wset_key r, wset_value r)) (wd_settings db)"

definition upsert_workspace_setting :: "datetime \<Rightarrow> string \<Rightarrow> string \<Rightarrow> value_type \<Rightarrow> uuid option
    \<Rightarrow> workspace_db \<Rightarrow> workspace_db" where
  "upsert_workspace_setting now key v ty updated_by db =
     db\<lparr>wd_settings := upsert_row wset_key
          \<lparr>wset_key = key, wset_value = v, wset_value_type = ty, wset_updated_by = updated_by,
           wset_updated_at = now\<rparr> (wd_settings db)\<rparr>"

definition insert_workspace_setting_if_absent :: "datetime \<Rightarrow> string \<Rightarrow> string \<Rightarrow> value_type
    \<Rightarrow> uuid option \<Rightarrow> workspace_db \<Rightarrow> bool \<times> workspace_db" where
  "insert_workspace_setting_if_absent now key v ty updated_by db =
     (if key \<in> set (map wset_key (wd_settings db)) then (False, db)
      else (True, db\<lparr>wd_settings := wd_settings db @
          [\<lparr>wset_key = key, wset_value = v, wset_value_type = ty, wset_updated_by = updated_by,
            wset_updated_at = now\<rparr>]\<rparr>))"

definition member_settings :: "uuid \<Rightarrow> workspace_db \<Rightarrow> (string \<times> string) list" where
  "member_settings account_id db = map (\<lambda>r. (mset_key r, mset_value r))
     (filter (\<lambda>r. mset_account_id r = account_id) (wd_member_settings db))"

definition upsert_member_setting :: "datetime \<Rightarrow> uuid \<Rightarrow> string \<Rightarrow> string \<Rightarrow> value_type
    \<Rightarrow> workspace_db \<Rightarrow> workspace_db" where
  "upsert_member_setting now account_id key v ty db =
     db\<lparr>wd_member_settings := upsert_row (\<lambda>r. (mset_account_id r, mset_key r))
          \<lparr>mset_account_id = account_id, mset_key = key, mset_value = v, mset_value_type = ty,
           mset_updated_at = now\<rparr> (wd_member_settings db)\<rparr>"

text \<open>The primary keys of the settings tables.\<close>

definition settings_ok :: "workspace_db \<Rightarrow> bool" where
  "settings_ok db = (distinct (map wset_key (wd_settings db))
     \<and> distinct (map (\<lambda>r. (mset_account_id r, mset_key r)) (wd_member_settings db)))"

lemma map_of_rows: "map_of (map (\<lambda>r. (key r, val r)) rows) k = map_option val (find (\<lambda>r. key r = k) rows)"
  by (induction rows) auto

lemma upsert_workspace_setting_ok:
  "settings_ok db \<Longrightarrow> settings_ok (upsert_workspace_setting now key v ty u db)"
  by (simp add: settings_ok_def upsert_workspace_setting_def distinct_upsert_row)

lemma upsert_member_setting_ok:
  "settings_ok db \<Longrightarrow> settings_ok (upsert_member_setting now a key v ty db)"
  by (simp add: settings_ok_def upsert_member_setting_def distinct_upsert_row)

lemma insert_setting_if_absent_ok:
  "settings_ok db \<Longrightarrow> settings_ok (snd (insert_workspace_setting_if_absent now key v ty u db))"
  by (simp add: settings_ok_def insert_workspace_setting_if_absent_def)

lemma workspace_settings_upsert:
  "map_of (workspace_settings (upsert_workspace_setting now key v ty u db)) =
     (map_of (workspace_settings db))(key \<mapsto> v)"
  by (auto simp: workspace_settings_def upsert_workspace_setting_def map_of_rows find_upsert_row)

lemma find_filter: "find p (filter q rows) = find (\<lambda>r. q r \<and> p r) rows"
  by (induction rows) auto

lemma map_of_member_settings:
  "map_of (member_settings a db) k =
     map_option mset_value (find (\<lambda>r. (mset_account_id r, mset_key r) = (a, k)) (wd_member_settings db))"
  by (simp add: member_settings_def map_of_rows find_filter)

lemma member_settings_upsert:
  "map_of (member_settings a' (upsert_member_setting now a key v ty db)) =
     (if a' = a then (map_of (member_settings a' db))(key \<mapsto> v) else map_of (member_settings a' db))"
proof
  fix k
  have "find (\<lambda>r. (mset_account_id r, mset_key r) = (a', k))
      (wd_member_settings (upsert_member_setting now a key v ty db)) =
      (if (a', k) = (a, key) then Some \<lparr>mset_account_id = a, mset_key = key, mset_value = v,
          mset_value_type = ty, mset_updated_at = now\<rparr>
       else find (\<lambda>r. (mset_account_id r, mset_key r) = (a', k)) (wd_member_settings db))"
    using find_upsert_row [of "\<lambda>r. (mset_account_id r, mset_key r)" "(a', k)"
        "\<lparr>mset_account_id = a, mset_key = key, mset_value = v, mset_value_type = ty,
          mset_updated_at = now\<rparr>" "wd_member_settings db"]
    by (simp add: upsert_member_setting_def)
  then show "map_of (member_settings a' (upsert_member_setting now a key v ty db)) k =
     (if a' = a then (map_of (member_settings a' db))(key \<mapsto> v) else map_of (member_settings a' db)) k"
    unfolding map_of_member_settings by simp
qed

lemma distinct_workspace_settings: "settings_ok db \<Longrightarrow> distinct (map fst (workspace_settings db))"
  by (simp add: settings_ok_def workspace_settings_def o_def)

end
