(* ===== verification/Storage_Pool.thy ===== *)
theory Storage_Pool
  imports Workspace_Db "HOL-Library.Multiset"
begin

text \<open>
  \<open>rheo_core/storage/backend.py\<close>, \<open>pools.py\<close> and \<open>routing.py\<close>: the unit of work as a state
  machine over one database, the LRU of engines and the routing of a context to its
  workspace's database.
\<close>

section \<open>Database names\<close>

text \<open>\<open>[a-z_][a-z0-9_]{0,62}\<close>.\<close>

fun database_name_ok :: "string \<Rightarrow> bool" where
  "database_name_ok [] = False"
| "database_name_ok (c # cs) =
     ((is_lower c \<or> c = CHR ''_'') \<and> list_all is_segment_char cs \<and> length cs \<le> 62)"

definition check_database_name :: "string \<Rightarrow> string result" where
  "check_database_name name = ensure (database_name_ok name)
     (ValueError ''database names are lowercase identifiers of at most 63 chars'') (Inr name)"

section \<open>The engine pool\<close>

text \<open>
  An engine is the database name it was created for and the number of its creation; the
  \<open>OrderedDict\<close> is a list, least recent first. \<open>ep_disposed\<close> records the disposed engines.
\<close>

record engine =
  en_serial :: nat
  en_database :: string

record engine_pool =
  ep_cache_size :: nat
  ep_pool_size :: nat
  ep_engines :: "(string \<times> engine) list"
  ep_created :: nat
  ep_disposed :: "engine list"

definition make_pool :: "int \<Rightarrow> int \<Rightarrow> engine_pool result" where
  "make_pool cache_size pool_size =
     ensure (\<not> (cache_size < 1 \<or> pool_size < 1)) (ValueError ''cache_size and pool_size must be positive'')
     (Inr \<lparr>ep_cache_size = nat cache_size, ep_pool_size = nat pool_size, ep_engines = [],
           ep_created = 0, ep_disposed = []\<rparr>)"

definition move_to_end :: "'k \<Rightarrow> ('k \<times> 'v) list \<Rightarrow> ('k \<times> 'v) list" where
  "move_to_end k d = filter (\<lambda>(k', v). k' \<noteq> k) d @ filter (\<lambda>(k', v). k' = k) d"

text \<open>\<open>while len(d) > n: d.popitem(last=False)\<close>: what stays and what was popped.\<close>

function pop_oldest :: "nat \<Rightarrow> ('k \<times> 'v) list \<Rightarrow> 'v list \<Rightarrow> ('k \<times> 'v) list \<times> 'v list" where
  "pop_oldest n d evicted =
     (if length d > n then pop_oldest n (tl d) (evicted @ [snd (hd d)]) else (d, evicted))"
  by pat_completeness auto
termination
  by (relation "measure (\<lambda>(n, d, e). length d)") auto

declare pop_oldest.simps [simp del]

definition engine_for :: "string \<Rightarrow> engine_pool \<Rightarrow> (engine \<times> engine_pool) result" where
  "engine_for database_name pool =
     rbind (check_database_name database_name) (\<lambda>name.
     case map_of (ep_engines pool) name of
       Some engine \<Rightarrow> Inr (engine, pool\<lparr>ep_engines := move_to_end name (ep_engines pool)\<rparr>)
     | None \<Rightarrow>
         (let engine = \<lparr>en_serial = ep_created pool, en_database = name\<rparr>;
              (engines, evicted) = pop_oldest (ep_cache_size pool) (ep_engines pool @ [(name, engine)]) []
          in Inr (engine, pool\<lparr>ep_engines := engines, ep_created := Suc (ep_created pool),
                               ep_disposed := ep_disposed pool @ evicted\<rparr>)))"

definition cached :: "engine_pool \<Rightarrow> string list" where
  "cached pool = map fst (ep_engines pool)"

definition dispose_all :: "engine_pool \<Rightarrow> engine_pool" where
  "dispose_all pool = pool\<lparr>ep_engines := [],
     ep_disposed := ep_disposed pool @ map snd (ep_engines pool)\<rparr>"

text \<open>
  The invariant: each name once, each engine on the database it is kept for, at most
  \<open>cache_size\<close> of them, none of them disposed, and no engine disposed twice.
\<close>

definition pool_ok :: "engine_pool \<Rightarrow> bool" where
  "pool_ok pool = (0 < ep_cache_size pool
     \<and> distinct (cached pool)
     \<and> length (ep_engines pool) \<le> ep_cache_size pool
     \<and> list_all (\<lambda>(name, e). en_database e = name) (ep_engines pool)
     \<and> distinct (map en_serial (map snd (ep_engines pool) @ ep_disposed pool))
     \<and> list_all (\<lambda>e. en_serial e < ep_created pool) (map snd (ep_engines pool) @ ep_disposed pool))"

lemma pop_oldest_eq: "pop_oldest n d ev = (drop (length d - n) d, ev @ map snd (take (length d - n) d))"
proof (induction n d ev rule: pop_oldest.induct)
  case (1 n d ev)
  show ?case
  proof (cases "length d > n")
    case True
    then obtain x xs where d: "d = x # xs" by (cases d) auto
    then have "length d - n = Suc (length xs - n)" using True by auto
    then show ?thesis using 1 True d by (subst pop_oldest.simps) auto
  qed (subst pop_oldest.simps, simp)
qed

lemma make_pool_ok: "make_pool c p = Inr pool \<Longrightarrow> pool_ok pool"
  by (auto simp: make_pool_def pool_ok_def cached_def)

lemma set_move_to_end: "set (move_to_end k d) = set d"
  by (auto simp: move_to_end_def)

lemma map_fst_filter: "map fst (filter (\<lambda>(k, v). p k) d) = filter p (map fst d)"
  by (induction d) auto

lemma keys_move_to_end: "map fst (move_to_end k d) = filter (\<lambda>x. x \<noteq> k) (map fst d) @ filter (\<lambda>x. x = k) (map fst d)"
  by (simp add: move_to_end_def map_fst_filter)

lemma length_move_to_end: "length (move_to_end k d) = length d"
  unfolding move_to_end_def
  using sum_length_filter_compl [of "\<lambda>(k', v). k' \<noteq> k" d] by (simp add: case_prod_unfold)

lemma mset_move_to_end: "mset (move_to_end k d) = mset d"
  by (induction d) (auto simp: move_to_end_def)

lemma distinct_filter_eq_single: "distinct xs \<Longrightarrow> x \<in> set xs \<Longrightarrow> filter (\<lambda>y. y = x) xs = [x]"
  by (induction xs) (auto simp: filter_empty_conv)

lemma length_filter_neq: "distinct xs \<Longrightarrow> x \<in> set xs \<Longrightarrow> length (filter (\<lambda>y. y \<noteq> x) xs) = length xs - 1"
proof (induction xs)
  case (Cons a xs)
  show ?case
  proof (cases "a = x")
    case True
    then have "filter (\<lambda>y. y \<noteq> x) xs = xs" using Cons.prems by (intro filter_True) auto
    then show ?thesis using True by simp
  next
    case False
    then have "x \<in> set xs" using Cons.prems by simp
    moreover from this have "0 < length xs" by (cases xs) auto
    ultimately show ?thesis using Cons False by simp
  qed
qed simp

lemma engine_for_known:
  "map_of (ep_engines pool) name = Some e \<Longrightarrow> database_name_ok name \<Longrightarrow>
     engine_for name pool = Inr (e, pool\<lparr>ep_engines := move_to_end name (ep_engines pool)\<rparr>)"
  by (simp add: engine_for_def check_database_name_def)

lemma engine_for_fresh:
  "map_of (ep_engines pool) name = None \<Longrightarrow> database_name_ok name \<Longrightarrow>
     engine_for name pool =
       (let e = \<lparr>en_serial = ep_created pool, en_database = name\<rparr>; d = ep_engines pool @ [(name, e)];
            k = length d - ep_cache_size pool
        in Inr (e, pool\<lparr>ep_engines := drop k d, ep_created := Suc (ep_created pool),
                        ep_disposed := ep_disposed pool @ map snd (take k d)\<rparr>))"
  by (simp add: engine_for_def check_database_name_def pop_oldest_eq Let_def)

lemma mset_take_drop: "mset (map f (drop k d)) + mset (map f (take k d)) = mset (map f d)"
  by (metis append_take_drop_id add.commute map_append mset_append)

lemma engine_for_InrD:
  assumes "pool_ok pool" and "engine_for name pool = Inr (e, pool')"
  shows "pool_ok pool' \<and> en_database e = name \<and> map_of (ep_engines pool') name = Some e
     \<and> ep_cache_size pool' = ep_cache_size pool"
proof -
  have n: "database_name_ok name" using assms(2) by (auto simp: engine_for_def check_database_name_def)
  have d: "distinct (map fst (ep_engines pool))" using assms(1) by (simp add: pool_ok_def cached_def)
  have serials: "distinct (map en_serial xs) = distinct (map en_serial ys)" if "mset xs = mset ys" for xs ys
    by (rule mset_eq_imp_distinct_iff) (simp only: mset_map that)
  have old: "distinct (map en_serial (map snd (ep_engines pool) @ ep_disposed pool))"
    using assms(1) unfolding pool_ok_def by blast
  show ?thesis
  proof (cases "map_of (ep_engines pool) name")
    case (Some e')
    have e: "e' = e" and p: "pool' = pool\<lparr>ep_engines := move_to_end name (ep_engines pool)\<rparr>"
      using assms(2) engine_for_known [OF Some n] by simp_all
    have "mset (map snd (move_to_end name (ep_engines pool))) = mset (map snd (ep_engines pool))"
      by (simp add: mset_move_to_end)
    then have m: "mset (map snd (ep_engines pool') @ ep_disposed pool')
        = mset (map snd (ep_engines pool) @ ep_disposed pool)" by (simp add: p)
    have ser: "distinct (map en_serial (map snd (ep_engines pool') @ ep_disposed pool'))"
      using serials [OF m] old by blast
    have bound: "list_all (\<lambda>e. en_serial e < ep_created pool')
        (map snd (ep_engines pool') @ ep_disposed pool')"
      using assms(1) mset_eq_setD [OF m] by (simp add: pool_ok_def list_all_iff p)
    have "distinct (map fst (move_to_end name (ep_engines pool)))"
      using d by (auto simp: keys_move_to_end)
    moreover from this have "map_of (ep_engines pool') name = Some e"
      using Some e by (simp add: p set_move_to_end d map_of_eq_Some_iff)
    moreover have "en_database e = name"
      using Some e assms(1) by (auto simp: pool_ok_def list_all_iff dest!: map_of_SomeD)
    ultimately show ?thesis using assms(1) ser bound
      by (simp add: pool_ok_def cached_def p length_move_to_end set_move_to_end list_all_iff)
  next
    case None
    define k where "k = length (ep_engines pool @ [(name, e)]) - ep_cache_size pool"
    define dd where "dd = ep_engines pool @ [(name, e)]"
    have e: "e = \<lparr>en_serial = ep_created pool, en_database = name\<rparr>"
      and p: "pool' = pool\<lparr>ep_engines := drop k dd, ep_created := Suc (ep_created pool),
                        ep_disposed := ep_disposed pool @ map snd (take k dd)\<rparr>"
      using assms(2) engine_for_fresh [OF None n] by (auto simp: Let_def k_def dd_def)
    have "mset (map snd (ep_engines pool') @ ep_disposed pool')
        = mset (e # map snd (ep_engines pool) @ ep_disposed pool)"
      using mset_take_drop [of snd k dd] by (simp add: p dd_def add.assoc)
    then have m: "mset (map snd (ep_engines pool') @ ep_disposed pool')
        = mset (e # map snd (ep_engines pool) @ ep_disposed pool)" .
    have older: "en_serial x < ep_created pool"
      if "x \<in> set (map snd (ep_engines pool) @ ep_disposed pool)" for x
      using that assms(1) unfolding pool_ok_def list_all_iff by blast
    have "distinct (map en_serial (e # map snd (ep_engines pool) @ ep_disposed pool))"
    proof -
      have "en_serial e \<notin> set (map en_serial (map snd (ep_engines pool) @ ep_disposed pool))"
        using older by (force simp: e)
      then show ?thesis using old by simp
    qed
    then have ser: "distinct (map en_serial (map snd (ep_engines pool') @ ep_disposed pool'))"
      using serials [OF m] by simp
    have bound: "list_all (\<lambda>e. en_serial e < ep_created pool')
        (map snd (ep_engines pool') @ ep_disposed pool')"
      unfolding list_all_iff
    proof
      fix x assume "x \<in> set (map snd (ep_engines pool') @ ep_disposed pool')"
      then have "x = e \<or> x \<in> set (map snd (ep_engines pool) @ ep_disposed pool)"
        using mset_eq_setD [OF m] by auto
      then have "x = e \<or> en_serial x < ep_created pool" using older by blast
      then show "en_serial x < ep_created pool'" by (auto simp: e p)
    qed
    have dis: "distinct (map fst dd)" using d None by (simp add: dd_def map_of_eq_None_iff)
    have k: "k \<le> length (ep_engines pool)" and l: "length dd - k \<le> ep_cache_size pool"
      using assms(1) by (auto simp: k_def dd_def pool_ok_def)
    have "(name, e) \<in> set (drop k dd)" using k by (simp add: dd_def)
    moreover have dk: "distinct (map fst (drop k dd))" using dis by (simp flip: drop_map)
    ultimately have "map_of (ep_engines pool') name = Some e" by (simp add: p)
    moreover have "list_all (\<lambda>(name, e). en_database e = name) (drop k dd)"
      using assms(1) by (auto simp: pool_ok_def list_all_iff dd_def e dest!: in_set_dropD)
    ultimately show ?thesis using assms(1) ser bound dk l
      by (simp add: pool_ok_def cached_def p e)
  qed
qed

text \<open>The reference: the names used last, least recent first.\<close>

definition last_used :: "nat \<Rightarrow> string list \<Rightarrow> string list" where
  "last_used n names = (let d = remdups names in drop (length d - n) d)"

lemma remdups_snoc: "remdups (xs @ [x]) = filter (\<lambda>y. y \<noteq> x) (remdups xs) @ [x]"
  by (induction xs) auto

lemma cached_engine_for:
  assumes "pool_ok pool" and "engine_for name pool = Inr (e, pool')"
    and "cached pool = last_used (ep_cache_size pool) names"
  shows "cached pool' = last_used (ep_cache_size pool) (names @ [name])"
proof -
  let ?n = "ep_cache_size pool"
  let ?C = "cached pool"
  have n: "database_name_ok name" using assms(2) by (auto simp: engine_for_def check_database_name_def)
  define R where "R = remdups names"
  define A where "A = take (length R - ?n) R"
  have R: "R = A @ ?C" using assms(3) by (simp add: A_def last_used_def Let_def R_def)
  have lA: "length A = length R - ?n" by (simp add: A_def)
  have dR: "distinct R" by (simp add: R_def)
  have spec: "last_used ?n (names @ [name]) =
      drop (length (filter (\<lambda>y. y \<noteq> name) R @ [name]) - ?n) (filter (\<lambda>y. y \<noteq> name) R @ [name])"
    by (simp add: last_used_def remdups_snoc R_def Let_def)
  show ?thesis
  proof (cases "map_of (ep_engines pool) name")
    case (Some e')
    then have inC: "name \<in> set ?C" by (force simp: cached_def dest: map_of_SomeD)
    have C': "cached pool' = filter (\<lambda>y. y \<noteq> name) ?C @ [name]"
    proof -
      have "filter (\<lambda>x. x = name) ?C = [name]"
        using inC assms(1) by (simp add: pool_ok_def distinct_filter_eq_single)
      then show ?thesis
        using assms(2) engine_for_known [OF Some n] by (auto simp: cached_def keys_move_to_end)
    qed
    have fA: "filter (\<lambda>y. y \<noteq> name) A = A" using inC dR R by (intro filter_True) auto
    have "length (filter (\<lambda>y. y \<noteq> name) ?C) = length ?C - 1"
      using inC assms(1) by (simp add: pool_ok_def length_filter_neq)
    moreover have "0 < length ?C" using inC by (cases ?C) auto
    ultimately have "length (filter (\<lambda>y. y \<noteq> name) R @ [name]) = length R"
      using fA by (subst (1 2) R) simp
    moreover have "filter (\<lambda>y. y \<noteq> name) R = A @ filter (\<lambda>y. y \<noteq> name) ?C" using R fA by (metis filter_append)
    ultimately show ?thesis using C' spec lA by simp
  next
    case None
    then have notC: "name \<notin> set ?C" by (simp add: cached_def map_of_eq_None_iff)
    have C': "cached pool' = drop (Suc (length ?C) - ?n) (?C @ [name])"
    proof -
      obtain e0 where "cached pool' = map fst (drop (Suc (length ?C) - ?n) (ep_engines pool @ [(name, e0)]))"
        using assms(2) engine_for_fresh [OF None n] by (auto simp: cached_def Let_def)
      then show ?thesis by (simp add: cached_def drop_map [symmetric])
    qed
    have fC: "filter (\<lambda>y. y \<noteq> name) ?C = ?C" using notC by (intro filter_True) auto
    have lC: "length ?C \<le> ?n" using assms(1) by (simp add: pool_ok_def cached_def)
    show ?thesis
    proof (cases "name \<in> set A")
      case False
      then have nR: "name \<notin> set R" using notC by (subst R) simp
      then have "filter (\<lambda>y. y \<noteq> name) R = R" by (intro filter_True) auto
      then have "last_used ?n (names @ [name]) = drop (Suc (length R) - ?n) (R @ [name])"
        using spec by simp
      also have "\<dots> = drop (Suc (length A + length ?C) - ?n) (A @ ?C @ [name])"
        by (subst (1 2) R) simp
      also have "\<dots> = drop (Suc (length ?C) - ?n) (?C @ [name])"
      proof -
        have "length A = 0 \<or> length ?C = ?n"
        proof -
          have "length R = length A + length ?C" by (subst R) simp
          then show ?thesis using lA lC by arith
        qed
        then show ?thesis using lC by auto
      qed
      finally show ?thesis using C' by simp
    next
      case True
      then have "0 < length A" by (cases A) auto
      moreover have "length R = length A + length ?C" by (subst R) simp
      ultimately have l: "length ?C = ?n" using lA lC by linarith
      have "length (filter (\<lambda>y. y \<noteq> name) A) = length A - 1"
        using True dR R by (simp add: length_filter_neq)
      moreover have "filter (\<lambda>y. y \<noteq> name) R = filter (\<lambda>y. y \<noteq> name) A @ ?C" using R fC by (metis filter_append)
      ultimately show ?thesis using C' spec l \<open>0 < length A\<close> by simp
    qed
  qed
qed

text \<open>
  The engines a sequence of requests is given and the pool it leads to; a refused name raises and
  changes nothing.
\<close>

fun request_all :: "string list \<Rightarrow> engine_pool \<Rightarrow> (engine list \<times> engine_pool) result" where
  "request_all [] pool = Inr ([], pool)"
| "request_all (n # ns) pool = rbind (engine_for n pool) (\<lambda>(e, pool').
     rbind (request_all ns pool') (\<lambda>(es, pool''). Inr (e # es, pool'')))"

lemma request_all_snoc:
  "request_all (ns @ [n]) pool = rbind (request_all ns pool) (\<lambda>(es, pool').
     rbind (engine_for n pool') (\<lambda>(e, pool''). Inr (es @ [e], pool'')))"
proof (induction ns arbitrary: pool)
  case (Cons m ns)
  then show ?case
    by (cases "engine_for m pool") (auto simp: rbind_def split: sum.splits prod.splits)
qed (simp del: rbind_eq_Inr)

lemma engine_for_hit_or_new:
  assumes "pool_ok pool" and "engine_for name pool = Inr (e, pool')"
  shows "(if name \<in> set (cached pool) then (name, e) \<in> set (ep_engines pool) \<and> ep_created pool' = ep_created pool
       else en_serial e = ep_created pool \<and> ep_created pool' = Suc (ep_created pool))
     \<and> set (ep_engines pool') \<subseteq> insert (name, e) (set (ep_engines pool))"
proof -
  have n: "database_name_ok name" using assms(2) by (auto simp: engine_for_def check_database_name_def)
  show ?thesis
  proof (cases "map_of (ep_engines pool) name")
    case None
    then have "name \<notin> set (cached pool)" by (simp add: cached_def map_of_eq_None_iff)
    moreover from assms(2) engine_for_fresh [OF None n] obtain k where
      "e = \<lparr>en_serial = ep_created pool, en_database = name\<rparr>" "ep_created pool' = Suc (ep_created pool)"
      and k: "ep_engines pool' = drop k (ep_engines pool @ [(name, e)])" by (auto simp: Let_def simp del: drop_append)
    moreover have "set (ep_engines pool') \<subseteq> insert (name, e) (set (ep_engines pool))"
      using set_drop_subset [of k "ep_engines pool @ [(name, e)]"] unfolding k by simp
    ultimately show ?thesis by simp
  next
    case (Some e')
    then have "(name, e') \<in> set (ep_engines pool)" by (rule map_of_SomeD)
    then show ?thesis using assms(2) engine_for_known [OF Some n] by (force simp: cached_def set_move_to_end)
  qed
qed

text \<open>Every engine kept was handed out, and every engine handed out has its number.\<close>

definition handed_out :: "engine list \<Rightarrow> engine_pool \<Rightarrow> bool" where
  "handed_out es pool = (snd ` set (ep_engines pool) \<subseteq> set es \<and> (\<forall>e \<in> set es. en_serial e < ep_created pool))"

lemma request_all_lru:
  assumes "pool_ok fresh" and "cached fresh = []" and "ep_engines fresh = []"
  shows "request_all names fresh = Inr (es, pool) \<Longrightarrow> pool_ok pool \<and> ep_cache_size pool = ep_cache_size fresh
     \<and> cached pool = last_used (ep_cache_size fresh) names \<and> map en_database es = names \<and> handed_out es pool
     \<and> (names \<noteq> [] \<longrightarrow> map_of (ep_engines pool) (last names) = Some (last es))
     \<and> (\<forall>i < length names. names ! i \<in> set (last_used (ep_cache_size fresh) (take i names)) \<longleftrightarrow> es ! i \<in> set (take i es))"
proof (induction names arbitrary: es pool rule: rev_induct)
  case Nil
  then show ?case using assms by (simp add: last_used_def handed_out_def)
next
  case (snoc n names)
  then obtain es0 p e where u: "request_all names fresh = Inr (es0, p)" "engine_for n p = Inr (e, pool)" "es = es0 @ [e]"
    by (auto simp: request_all_snoc)
  note IH = snoc.IH [OF u(1)]
  have l: "length es0 = length names" using IH by (metis length_map)
  have c: "cached pool = last_used (ep_cache_size fresh) (names @ [n])"
    using cached_engine_for [of p n e pool names] IH u(2) by simp
  note E = engine_for_InrD [OF conjunct1 [OF IH] u(2)]
  note H = engine_for_hit_or_new [OF conjunct1 [OF IH] u(2)]
  have hit: "n \<in> set (cached p) \<longleftrightarrow> e \<in> set es0" using H IH by (force simp: handed_out_def split: if_splits)
  have out: "handed_out es pool"
    using H IH u(3) by (fastforce simp: handed_out_def split: if_splits)
  have "(names @ [n]) ! i \<in> set (last_used (ep_cache_size fresh) (take i (names @ [n]))) \<longleftrightarrow> es ! i \<in> set (take i es)"
    if "i < length (names @ [n])" for i
  proof (cases "i < length names")
    case True
    then show ?thesis using IH u(3) l by (simp add: nth_append)
  next
    case False
    then have "i = length names" using that by simp
    then show ?thesis using hit IH u(3) l by (simp add: nth_append)
  qed
  then show ?case using E IH c out u(3) by simp
qed

text \<open>
  C22: the engine pool is an LRU. Each request of a sequence made to a fresh pool is given an
  engine on the database it names: the one kept for that name where the name is among the
  \<open>cache_size\<close> names used last before it, a new one where it is not. After the sequence the pool
  holds engines for exactly the \<open>cache_size\<close> names used last, in the order of their last use, the
  engine of the last request is the one kept for its name, and no engine kept has been
  disposed.
\<close>

theorem engine_pool_is_lru:
  assumes "make_pool cache_size pool_size = Inr fresh" and "request_all names fresh = Inr (engines, pool)"
  shows "map en_database engines = names
     \<and> (\<forall>i < length names. names ! i \<in> set (last_used (nat cache_size) (take i names)) \<longleftrightarrow> engines ! i \<in> set (take i engines))
     \<and> cached pool = last_used (nat cache_size) names \<and> pool_ok pool
     \<and> (names \<noteq> [] \<longrightarrow> map_of (ep_engines pool) (last names) = Some (last engines))
     \<and> set (map en_serial (map snd (ep_engines pool))) \<inter> set (map en_serial (ep_disposed pool)) = {}"
proof -
  have fresh: "cached fresh = []" "ep_engines fresh = []" "ep_cache_size fresh = nat cache_size"
    using assms(1) by (auto simp: make_pool_def cached_def)
  note L = request_all_lru [OF make_pool_ok [OF assms(1)] fresh(1,2) assms(2)]
  have "distinct (map en_serial (map snd (ep_engines pool)) @ map en_serial (ep_disposed pool))"
    using L by (simp only: pool_ok_def map_append)
  then have "set (map en_serial (map snd (ep_engines pool))) \<inter> set (map en_serial (ep_disposed pool)) = {}"
    by (simp only: distinct_append)
  then show ?thesis using L fresh(3) by simp
qed

lemma engine_pool_is_lru_witness:
  "\<exists>es pool. request_all [''a'', ''b'', ''a'', ''c''] \<lparr>ep_cache_size = 2, ep_pool_size = 5, ep_engines = [],
       ep_created = 0, ep_disposed = []\<rparr> = Inr (es, pool) \<and> map en_database es = [''a'', ''b'', ''a'', ''c'']
     \<and> map en_serial es = [0, 1, 0, 2] \<and> cached pool = [''a'', ''c''] \<and> pool_ok pool"
proof -
  let ?fresh = "\<lparr>ep_cache_size = 2, ep_pool_size = 5, ep_engines = [], ep_created = 0, ep_disposed = []\<rparr>"
  let ?pool = "\<lparr>ep_cache_size = 2, ep_pool_size = 5,
      ep_engines = [(''a'', \<lparr>en_serial = 0, en_database = ''a''\<rparr>), (''c'', \<lparr>en_serial = 2, en_database = ''c''\<rparr>)],
      ep_created = 3, ep_disposed = [\<lparr>en_serial = 1, en_database = ''b''\<rparr>]\<rparr>"
  let ?es = "[\<lparr>en_serial = 0, en_database = ''a''\<rparr>, \<lparr>en_serial = 1, en_database = ''b''\<rparr>,
      \<lparr>en_serial = 0, en_database = ''a''\<rparr>, \<lparr>en_serial = 2, en_database = ''c''\<rparr>]"
  have m: "make_pool 2 5 = Inr ?fresh" by (simp add: make_pool_def)
  have r: "request_all [''a'', ''b'', ''a'', ''c''] ?fresh = Inr (?es, ?pool)" by code_simp
  have "pool_ok ?pool" using engine_pool_is_lru [OF m r] by blast
  moreover have "cached ?pool = [''a'', ''c'']" by (simp add: cached_def)
  moreover have "map en_serial ?es = [0, 1, 0, 2]" "map en_database ?es = [''a'', ''b'', ''a'', ''c'']" by simp_all
  ultimately show ?thesis using r by (intro exI [of _ ?es] exI [of _ ?pool] conjI)
qed

section \<open>The unit of work\<close>

text \<open>
  \<open>uw_transaction\<close> is the transaction's view of the database while it is active. The
  committed database is the caller's: \<open>enter\<close> reads it and \<open>commit\<close> returns the new one.
\<close>

record 'd uow =
  uw_database :: string
  uw_expected :: string
  uw_connection :: bool
  uw_transaction :: "'d option"

definition uow_closed :: "string \<Rightarrow> py_exc" where
  "uow_closed detail = StorageRefusal ''unit_of_work_closed'' detail None"

definition make_uow :: "engine \<Rightarrow> string \<Rightarrow> 'd uow result" where
  "make_uow engine expected_database =
     ensure (expected_database \<noteq> []) (TypeError ''UnitOfWork needs the expected database name'')
     (Inr \<lparr>uw_database = en_database engine, uw_expected = expected_database,
           uw_connection = False, uw_transaction = None\<rparr>)"

definition uow_enter :: "bool \<Rightarrow> 'd \<Rightarrow> 'd uow \<Rightarrow> 'd uow result" where
  "uow_enter verify_database committed u =
     ensure (\<not> uw_connection u) (uow_closed ''a unit of work is entered once'')
     (ensure (\<not> (verify_database \<and> uw_database u \<noteq> uw_expected u))
       (StorageRefusal ''database_mismatch'' (''unit of work expected database ''
          @ py_repr (uw_expected u) @ '' but the connection is to '' @ py_repr (uw_database u)) None)
     (Inr (u\<lparr>uw_connection := True, uw_transaction := Some committed\<rparr>)))"

definition uow_exit :: "'d uow \<Rightarrow> 'd uow" where
  "uow_exit u = u\<lparr>uw_transaction := None\<rparr>"

definition uow_view :: "'d uow \<Rightarrow> 'd result" where
  "uow_view u = (case (uw_connection u, uw_transaction u) of
       (True, Some d) \<Rightarrow> Inr d
     | _ \<Rightarrow> Inl (uow_closed (''the unit of work is not open: enter it, and use it before commit ''
                  @ ''or rollback'')))"

definition uow_commit :: "'d uow \<Rightarrow> ('d \<times> 'd uow) result" where
  "uow_commit u = (case uw_transaction u of
       None \<Rightarrow> Inl (uow_closed ''nothing to commit'')
     | Some d \<Rightarrow> Inr (d, u\<lparr>uw_transaction := None\<rparr>))"

definition uow_rollback :: "'d uow \<Rightarrow> 'd uow result" where
  "uow_rollback u = (case uw_transaction u of
       None \<Rightarrow> Inl (uow_closed ''nothing to roll back'')
     | Some _ \<Rightarrow> Inr (u\<lparr>uw_transaction := None\<rparr>))"

text \<open>
  What a holder of a unit of work can do to it, on a database only this unit of work writes.
  A call that raises has no effect on either.
\<close>

datatype 'd uow_call = Ev_Enter | Ev_Write "'d \<Rightarrow> 'd" | Ev_Commit | Ev_Rollback | Ev_Exit

fun uow_event :: "bool \<Rightarrow> 'd uow_call \<Rightarrow> 'd \<times> 'd uow \<Rightarrow> 'd \<times> 'd uow" where
  "uow_event verify Ev_Enter (d, u) = (case uow_enter verify d u of Inl _ \<Rightarrow> (d, u) | Inr u' \<Rightarrow> (d, u'))"
| "uow_event verify (Ev_Write f) (d, u) =
     (case uow_view u of Inl _ \<Rightarrow> (d, u) | Inr x \<Rightarrow> (d, u\<lparr>uw_transaction := Some (f x)\<rparr>))"
| "uow_event verify Ev_Commit (d, u) = (case uow_commit u of Inl _ \<Rightarrow> (d, u) | Inr (d', u') \<Rightarrow> (d', u'))"
| "uow_event verify Ev_Rollback (d, u) = (case uow_rollback u of Inl _ \<Rightarrow> (d, u) | Inr u' \<Rightarrow> (d, u'))"
| "uow_event verify Ev_Exit (d, u) = (d, uow_exit u)"

definition uow_run :: "bool \<Rightarrow> 'd uow_call list \<Rightarrow> 'd \<times> 'd uow \<Rightarrow> 'd \<times> 'd uow" where
  "uow_run verify evs s = foldl (\<lambda>s e. uow_event verify e s) s evs"

definition uow_finished :: "'d uow \<Rightarrow> bool" where
  "uow_finished u = (uw_connection u \<and> uw_transaction u = None)"

lemma finished_absorbs: "uow_finished u \<Longrightarrow> uow_event verify e (d, u) = (d, u)"
  by (cases e) (auto simp: uow_finished_def uow_enter_def uow_view_def uow_commit_def
      uow_rollback_def uow_exit_def)

lemma finished_run: "uow_finished u \<Longrightarrow> uow_run verify evs (d, u) = (d, u)"
  by (induction evs) (auto simp: uow_run_def finished_absorbs)

fun writes_of :: "'d uow_call list \<Rightarrow> 'd \<Rightarrow> 'd" where
  "writes_of [] d = d"
| "writes_of (Ev_Write f # evs) d = writes_of evs (f d)"
| "writes_of (_ # evs) d = writes_of evs d"

lemma open_run:
  assumes "uw_connection u" and "uw_transaction u = Some x"
    and "uow_run verify evs (d, u) = (d', u')"
  shows "d' = d \<or> (\<exists>mid post. evs = mid @ Ev_Commit # post
     \<and> set mid \<inter> {Ev_Commit, Ev_Rollback, Ev_Exit} = {} \<and> d' = writes_of mid x)"
  using assms
proof (induction evs arbitrary: u x)
  case Nil
  then show ?case by (simp add: uow_run_def)
next
  case (Cons e evs)
  have step: "uow_run verify evs (uow_event verify e (d, u)) = (d', u')"
    using Cons.prems(3) by (simp add: uow_run_def)
  have stop: "d' = d" if "uow_event verify e (d, u) = (d, v)" "uow_finished v" for v
    using step that finished_run by fastforce
  have go: ?case if "uow_event verify e (d, u) = (d, v)" "uw_connection v" "uw_transaction v = Some y"
    "e \<notin> {Ev_Commit, Ev_Rollback, Ev_Exit}" "\<And>mid. writes_of (e # mid) x = writes_of mid y" for v y
  proof -
    have "uow_run verify evs (d, v) = (d', u')" using step that(1) by simp
    from Cons.IH [OF that(2,3) this] show ?thesis
    proof
      assume "\<exists>mid post. evs = mid @ Ev_Commit # post
        \<and> set mid \<inter> {Ev_Commit, Ev_Rollback, Ev_Exit} = {} \<and> d' = writes_of mid y"
      then obtain mid post where m: "evs = mid @ Ev_Commit # post"
        "set mid \<inter> {Ev_Commit, Ev_Rollback, Ev_Exit} = {}" "d' = writes_of mid y" by blast
      then show ?thesis using that(4,5) by (intro disjI2 exI [of _ "e # mid"] exI [of _ post]) auto
    qed simp
  qed
  show ?case
  proof (cases e)
    case Ev_Enter
    show ?thesis by (rule go [of u x]) (use Cons.prems Ev_Enter in \<open>simp_all add: uow_enter_def\<close>)
  next
    case (Ev_Write f)
    show ?thesis
      by (rule go [of "u\<lparr>uw_transaction := Some (f x)\<rparr>" "f x"])
        (use Cons.prems Ev_Write in \<open>simp_all add: uow_view_def\<close>)
  next
    case Ev_Commit
    have "uow_event verify e (d, u) = (x, u\<lparr>uw_transaction := None\<rparr>)"
      using Ev_Commit Cons.prems by (simp add: uow_commit_def)
    moreover have "uow_finished (u\<lparr>uw_transaction := None\<rparr>)"
      using Cons.prems by (simp add: uow_finished_def)
    ultimately have "d' = x" using step finished_run by fastforce
    then show ?thesis using Ev_Commit by (intro disjI2 exI [of _ "[]"] exI [of _ evs]) simp
  next
    case Ev_Rollback
    then have "d' = d" using Cons.prems
      by (intro stop [of "u\<lparr>uw_transaction := None\<rparr>"]) (simp_all add: uow_rollback_def uow_finished_def)
    then show ?thesis ..
  next
    case Ev_Exit
    then have "d' = d" using Cons.prems
      by (intro stop [of "uow_exit u"]) (simp_all add: uow_exit_def uow_finished_def)
    then show ?thesis ..
  qed
qed

text \<open>Before it is entered a unit of work does nothing.\<close>

lemma unentered_event:
  assumes "\<not> uw_connection u" and "uw_transaction u = None"
    and "\<not> (e = Ev_Enter \<and> \<not> (verify \<and> uw_database u \<noteq> uw_expected u))"
  shows "uow_event verify e (d, u) = (d, u)"
  using assms by (cases e) (auto simp: uow_enter_def uow_view_def uow_commit_def uow_rollback_def uow_exit_def)

lemma fresh_run:
  assumes "\<not> uw_connection u" and "uw_transaction u = None" and "uow_run verify evs (d, u) = (d', v)"
  shows "d' = d \<or> (\<not> (verify \<and> uw_database u \<noteq> uw_expected u) \<and>
     (\<exists>pre mid post. evs = pre @ Ev_Enter # mid @ Ev_Commit # post \<and> Ev_Enter \<notin> set pre
        \<and> set mid \<inter> {Ev_Commit, Ev_Rollback, Ev_Exit} = {} \<and> d' = writes_of mid d))"
  using assms(3)
proof (induction evs)
  case Nil
  then show ?case by (simp add: uow_run_def)
next
  case (Cons e evs)
  have step: "uow_run verify evs (uow_event verify e (d, u)) = (d', v)"
    using Cons.prems by (simp add: uow_run_def)
  show ?case
  proof (cases "e = Ev_Enter \<and> \<not> (verify \<and> uw_database u \<noteq> uw_expected u)")
    case False
    then have "uow_run verify evs (d, u) = (d', v)" using step unentered_event [OF assms(1,2)] by simp
    from Cons.IH [OF this] show ?thesis
    proof (elim disjE conjE exE)
      fix pre mid post
      assume "\<not> (verify \<and> uw_database u \<noteq> uw_expected u)" "evs = pre @ Ev_Enter # mid @ Ev_Commit # post"
        "Ev_Enter \<notin> set pre" "set mid \<inter> {Ev_Commit, Ev_Rollback, Ev_Exit} = {}" "d' = writes_of mid d"
      then show ?thesis using False by (intro disjI2 conjI exI [of _ "e # pre"] exI [of _ mid] exI [of _ post]) auto
    qed simp
  next
    case True
    let ?open = "u\<lparr>uw_connection := True, uw_transaction := Some d\<rparr>"
    have "uow_event verify e (d, u) = (d, ?open)" using True assms(1,2) by (auto simp: uow_enter_def)
    then have "uow_run verify evs (d, ?open) = (d', v)" using step by simp
    from open_run [OF _ _ this, of d] show ?thesis 
    proof
      assume "\<exists>mid post. evs = mid @ Ev_Commit # post
        \<and> set mid \<inter> {Ev_Commit, Ev_Rollback, Ev_Exit} = {} \<and> d' = writes_of mid d"
      then obtain mid post where "evs = mid @ Ev_Commit # post"
        "set mid \<inter> {Ev_Commit, Ev_Rollback, Ev_Exit} = {}" "d' = writes_of mid d" by blast
      then show ?thesis using True by (intro disjI2 conjI exI [of _ "[]"] exI [of _ mid] exI [of _ post]) auto
    qed simp_all
  qed
qed

text \<open>Once entered it stays entered, and once ended it is finished.\<close>

lemma event_keeps:
  "uow_event verify e (d, u) = (d', u') \<Longrightarrow> uw_database u' = uw_database u \<and> uw_expected u' = uw_expected u
     \<and> (uw_connection u \<longrightarrow> uw_connection u')"
  by (cases e) (auto simp: uow_enter_def uow_view_def uow_commit_def uow_rollback_def uow_exit_def
      split: sum.splits option.splits if_splits)

lemma uow_run_Cons: "uow_run verify (e # evs) s = uow_run verify evs (uow_event verify e s)"
  by (simp add: uow_run_def)

lemma uow_run_append: "uow_run verify (xs @ ys) s = uow_run verify ys (uow_run verify xs s)"
  by (simp add: uow_run_def)

lemma run_keeps:
  "uow_run verify evs (d, u) = (d', u') \<Longrightarrow> uw_database u' = uw_database u \<and> uw_expected u' = uw_expected u
     \<and> (uw_connection u \<longrightarrow> uw_connection u')"
proof (induction evs arbitrary: d u)
  case (Cons e evs)
  obtain d1 u1 where e: "uow_event verify e (d, u) = (d1, u1)" by fastforce
  then show ?case using Cons.IH [of d1 u1] Cons.prems event_keeps [OF e] by (auto simp: uow_run_Cons)
qed (simp add: uow_run_def)

lemma end_finishes:
  assumes "uw_connection u" and "e \<in> {Ev_Commit, Ev_Rollback, Ev_Exit}"
  shows "uow_finished (snd (uow_event verify e (d, u)))"
  using assms by (auto simp: uow_finished_def uow_commit_def uow_rollback_def uow_exit_def split: option.splits)

lemma ended_run:
  assumes "uow_run verify (pre @ Ev_Enter # mid @ e # post) (d, u) = (d', v)" and "e \<in> {Ev_Commit, Ev_Rollback, Ev_Exit}"
    and "\<not> (verify \<and> uw_database u \<noteq> uw_expected u)"
  shows "uow_finished v"
proof -
  obtain d1 u1 where 1: "uow_run verify pre (d, u) = (d1, u1)" by fastforce
  obtain d2 u2 where 2: "uow_event verify Ev_Enter (d1, u1) = (d2, u2)" by fastforce
  obtain d3 u3 where 3: "uow_run verify mid (d2, u2) = (d3, u3)" by fastforce
  obtain d4 u4 where 4: "uow_event verify e (d3, u3) = (d4, u4)" by fastforce
  have "uw_connection u2"
    using 2 run_keeps [OF 1] assms(3) by (cases "uw_connection u1") (auto simp: uow_enter_def)
  then have "uw_connection u3" using run_keeps [OF 3] by simp
  then have "uow_finished u4" using end_finishes [OF _ assms(2), of u3 verify d3] 4 by simp
  moreover have "uow_run verify post (d4, u4) = (d', v)"
    using assms(1) 1 2 3 4 by (simp only: uow_run_append uow_run_Cons)
  ultimately show ?thesis using finished_run [of u4 verify post d4] by simp
qed

text \<open>
  C21: a unit of work is atomic and single-use. Whatever its holder does with it, in any order,
  the database ends as it was, or holds exactly the writes made between the first \<open>enter\<close>
  and the first \<open>commit\<close> after it, with no rollback or exit between them; nothing done before,
  after a rollback, after the exit or after the commit reaches it. With verification on, a
  unit of work on another database than the expected one commits nothing. Once entered and ended,
  by a commit, a rollback or the exit, it stays so: its connection, \<open>commit\<close>, \<open>rollback\<close> and
  another \<open>enter\<close> raise \<open>unit_of_work_closed\<close>.
\<close>

theorem unit_of_work_atomic:
  assumes "make_uow engine expected = Inr fresh" and "uow_run verify evs (d, fresh) = (d', u)"
  shows "(d' = d \<or> (\<not> (verify \<and> en_database engine \<noteq> expected) \<and>
       (\<exists>pre mid post. evs = pre @ Ev_Enter # mid @ Ev_Commit # post \<and> Ev_Enter \<notin> set pre
          \<and> set mid \<inter> {Ev_Commit, Ev_Rollback, Ev_Exit} = {} \<and> d' = writes_of mid d)))
     \<and> ((\<exists>pre mid e post. evs = pre @ Ev_Enter # mid @ e # post \<and> e \<in> {Ev_Commit, Ev_Rollback, Ev_Exit})
          \<and> \<not> (verify \<and> en_database engine \<noteq> expected) \<longrightarrow>
        (\<exists>m. uow_view u = Inl (uow_closed m)) \<and> (\<exists>m. uow_commit u = Inl (uow_closed m))
          \<and> (\<exists>m. uow_rollback u = Inl (uow_closed m)) \<and> (\<exists>m. uow_enter verify d' u = Inl (uow_closed m)))"
proof (intro conjI impI)
  have f: "\<not> uw_connection fresh" "uw_transaction fresh = None" "uw_database fresh = en_database engine" "uw_expected fresh = expected"
    using assms(1) by (auto simp: make_uow_def)
  show "d' = d \<or> (\<not> (verify \<and> en_database engine \<noteq> expected) \<and>
       (\<exists>pre mid post. evs = pre @ Ev_Enter # mid @ Ev_Commit # post \<and> Ev_Enter \<notin> set pre
          \<and> set mid \<inter> {Ev_Commit, Ev_Rollback, Ev_Exit} = {} \<and> d' = writes_of mid d))"
    using fresh_run [OF f(1,2) assms(2)] f(3,4) by simp
next
  assume "(\<exists>pre mid e post. evs = pre @ Ev_Enter # mid @ e # post \<and> e \<in> {Ev_Commit, Ev_Rollback, Ev_Exit})
      \<and> \<not> (verify \<and> en_database engine \<noteq> expected)"
  then have "uow_finished u" using ended_run assms by (fastforce simp: make_uow_def)
  then show "\<exists>m. uow_view u = Inl (uow_closed m)" "\<exists>m. uow_commit u = Inl (uow_closed m)"
      "\<exists>m. uow_rollback u = Inl (uow_closed m)" "\<exists>m. uow_enter verify d' u = Inl (uow_closed m)"
    by (auto simp: uow_finished_def uow_view_def uow_commit_def uow_rollback_def uow_enter_def)
qed

lemma unit_of_work_atomic_witness:
  "fst (uow_run True [Ev_Enter, Ev_Write (\<lambda>n. n + 1), Ev_Exit, Ev_Commit]
     ((3::nat), \<lparr>uw_database = ''a'', uw_expected = ''a'', uw_connection = False, uw_transaction = None\<rparr>)) = 3"
proof -
  let ?fresh = "\<lparr>uw_database = ''a'', uw_expected = ''a'', uw_connection = False, uw_transaction = None\<rparr> :: nat uow"
  let ?evs = "[Ev_Enter, Ev_Write (\<lambda>n. n + 1), Ev_Exit, Ev_Commit] :: nat uow_call list"
  obtain d' u where r: "uow_run True ?evs (3, ?fresh) = (d', u)" by fastforce
  have m: "make_uow \<lparr>en_serial = 0, en_database = ''a''\<rparr> ''a'' = Inr ?fresh" by (simp add: make_uow_def)
  have "\<not> (\<exists>pre mid post. ?evs = pre @ Ev_Enter # mid @ Ev_Commit # post
        \<and> set mid \<inter> {Ev_Commit, Ev_Rollback, Ev_Exit} = {})"
    by (auto simp: Cons_eq_append_conv)
  then have "d' = 3" using unit_of_work_atomic [OF m r] by blast
  then show ?thesis using r by simp
qed

section \<open>Routing\<close>

definition active_workspace :: "uuid \<Rightarrow> control_db \<Rightarrow> workspace_row result" where
  "active_workspace workspace_id db = (case get_workspace workspace_id db of
       None \<Rightarrow> Inl (StorageRefusal ''workspace_unavailable''
         (''workspace '' @ uuid_str workspace_id @ '' has no registry row'') None)
     | Some row \<Rightarrow>
         if ws_state row \<noteq> Active
         then Inl (StorageRefusal ''workspace_unavailable''
           (''workspace '' @ uuid_str workspace_id @ '' is '' @ state_value (ws_state row))
           (Some (state_value (ws_state row))))
         else Inr row)"

definition route :: "workspace_context \<Rightarrow> control_db \<Rightarrow> engine_pool \<Rightarrow> (engine \<times> engine_pool) result" where
  "route ctx db pool =
     rbind (active_workspace (cx_workspace_id ctx) db) (\<lambda>row. engine_for (ws_database_name row) pool)"

definition open_unit_of_work :: "workspace_context \<Rightarrow> control_db \<Rightarrow> engine_pool
    \<Rightarrow> ('d uow \<times> engine_pool) result" where
  "open_unit_of_work ctx db pool =
     rbind (active_workspace (cx_workspace_id ctx) db) (\<lambda>row.
     rbind (engine_for (ws_database_name row) pool) (\<lambda>(engine, pool').
     rbind (make_uow engine (ws_database_name row)) (\<lambda>u. Inr (u, pool'))))"

text \<open>
  A unit of work opened for a context is on the database of the context's workspace and on
  no other: the registry row is read for the call, must be active, and its database name is
  both the engine's and the expected one. Contexts that agree on the workspace get the same
  database whatever else they carry, and two workspaces never share one.
\<close>

theorem routing_is_by_workspace:
  assumes "control_ok db" and "pool_ok pool" and "open_unit_of_work ctx db pool = Inr (u, pool')"
  shows "\<exists>row. get_workspace (cx_workspace_id ctx) db = Some row \<and> ws_state row = Active
     \<and> uw_database u = ws_database_name row \<and> uw_expected u = ws_database_name row \<and> pool_ok pool'
     \<and> (\<forall>other pool2 v pool2'. pool_ok pool2 \<and> open_unit_of_work other db pool2 = Inr (v, pool2') \<longrightarrow>
          (uw_database v = uw_database u \<longleftrightarrow> cx_workspace_id other = cx_workspace_id ctx))"
proof -
  have opened: "\<exists>row. get_workspace (cx_workspace_id c) db = Some row \<and> ws_state row = Active
      \<and> uw_database x = ws_database_name row \<and> uw_expected x = ws_database_name row \<and> pool_ok p'"
    if "pool_ok p" "open_unit_of_work c db p = Inr (x, p')" for c p p' and x :: "'d uow"
    using that engine_for_InrD [OF that(1)]
    by (fastforce simp: open_unit_of_work_def active_workspace_def make_uow_def split: option.splits if_splits)
  obtain row where row: "get_workspace (cx_workspace_id ctx) db = Some row" "ws_state row = Active"
      "uw_database u = ws_database_name row" "uw_expected u = ws_database_name row" "pool_ok pool'"
    using opened [OF assms(2,3)] by blast
  have "uw_database v = uw_database u \<longleftrightarrow> cx_workspace_id other = cx_workspace_id ctx"
    if o: "pool_ok pool2" "open_unit_of_work other db pool2 = Inr (v, pool2')" for other pool2 pool2' and v :: "'d uow"
  proof -
    obtain row2 where row2: "get_workspace (cx_workspace_id other) db = Some row2"
        "uw_database v = ws_database_name row2" using opened [OF o] by blast
    have r: "row \<in> set (db_workspaces db)" "ws_id row = cx_workspace_id ctx"
      "row2 \<in> set (db_workspaces db)" "ws_id row2 = cx_workspace_id other"
      using row(1) row2(1) by (auto simp: get_workspace_def find_Some_iff)
    have d: "distinct (map ws_database_name (db_workspaces db))"
      using assms(1) by (simp add: control_ok_def keys_ok_def)
    show ?thesis
    proof
      assume "uw_database v = uw_database u"
      then have "row2 = row" using d r row(3) row2(2) by (simp add: distinct_map inj_on_def)
      then show "cx_workspace_id other = cx_workspace_id ctx" using r by simp
    qed (use row row2 in simp)
  qed
  then show ?thesis using row by blast
qed

definition sample_context :: workspace_context where
  "sample_context = \<lparr>cx_workspace_id = 5, cx_actor = \<lparr>actor_kind = Actor_Account, actor_id = Some 7\<rparr>,
     cx_role = Role_Owner, cx_entry = Entry_Web, cx_audience = None,
     cx_operation_set = All_Operations, cx_enabled_modules = {}, cx_request_id = 1\<rparr>"

definition sample_pool :: engine_pool where
  "sample_pool = \<lparr>ep_cache_size = 2, ep_pool_size = 5, ep_engines = [], ep_created = 0,
     ep_disposed = []\<rparr>"

lemma sample_pool_ok: "pool_ok sample_pool"
  by (simp add: pool_ok_def sample_pool_def cached_def)

lemma routing_is_by_workspace_witness:
  "\<exists>u pool'. open_unit_of_work sample_context sample_control sample_pool = Inr (u :: nat uow, pool')
     \<and> uw_database u = ''rheo_ws_5'' \<and> uw_expected u = ''rheo_ws_5'' \<and> pool_ok pool'"
proof -
  let ?u = "\<lparr>uw_database = ''rheo_ws_5'', uw_expected = ''rheo_ws_5'', uw_connection = False,
      uw_transaction = None\<rparr> :: nat uow"
  let ?pool = "sample_pool\<lparr>ep_engines := [(''rheo_ws_5'', \<lparr>en_serial = 0, en_database = ''rheo_ws_5''\<rparr>)],
      ep_created := 1\<rparr>"
  have o: "open_unit_of_work sample_context sample_control sample_pool = Inr (?u, ?pool)"
    by code_simp
  show ?thesis
    using routing_is_by_workspace [OF sample_control_ok sample_pool_ok o] o by auto
qed

end
