(* ===== verification/Settings_Deployment.thy ===== *)
theory Settings_Deployment
  imports Settings_Schema
begin

text \<open>
  \<open>rheo_core/settings/defaults.py\<close> and \<open>rheo_core/settings/deployment.py\<close>: the package
  defaults checked against the registry at import time, \<open>deployment.toml\<close>, the \<open>RHEO__\<close>
  environment variables, and the profile read from them.

  \<open>tomllib\<close> is outside the repository: a parsed table is the parameter, and
  \<open>defaults.toml\<close> itself is written out as the table it denotes.
\<close>

section \<open>Package defaults\<close>

datatype toml = TTable "(string \<times> toml) list" | TValue pyval

function flatten_table :: "string \<Rightarrow> (string \<times> toml) list \<Rightarrow> (string \<times> pyval) list" where
  "flatten_table pre [] = []"
| "flatten_table pre ((name, TTable t) # rest) =
     dict_update (flatten_table (pre @ name @ ''.'') t) (flatten_table pre rest)"
| "flatten_table pre ((name, TValue v) # rest) =
     dict_update [(pre @ name, v)] (flatten_table pre rest)"
  by pat_completeness auto
termination
  by (relation "measure (\<lambda>(p, t). size_list (size_prod (\<lambda>_. 0) size) t)") auto

text \<open>The keys not in the other set, sorted.\<close>

definition sorted_diff :: "string list \<Rightarrow> string list \<Rightarrow> string list" where
  "sorted_diff xs ys = sort (filter (\<lambda>x. x \<notin> set ys) xs)"

definition declaration_mismatch :: "string \<Rightarrow> py_exc" where
  "declaration_mismatch detail = SettingsError ''settings_declaration_mismatch'' detail None"

text \<open>One declared key: its checked value, and the drift line when it differs.\<close>

definition match_default :: "settings_registry \<Rightarrow> (string \<times> pyval) list \<Rightarrow> string
    \<Rightarrow> (string \<times> pyval) list \<times> string list \<Rightarrow> ((string \<times> pyval) list \<times> string list) result" where
  "match_default r defaults key acc =
     rbind (get_spec r key) (\<lambda>spec.
     rbind (case map_of defaults key of Some v \<Rightarrow> Inr v | None \<Rightarrow> Inl (OtherException ''KeyError'' key)) (\<lambda>raw.
     rbind (check_value spec raw ''defaults.toml'') (\<lambda>v.
     Inr (dict_set key v (fst acc),
          snd acc @ (if v \<noteq> ks_default spec
             then [key @ '': registry '' @ value_repr (ks_default spec) @ '' vs defaults.toml '' @ value_repr v]
             else [])))))"

definition assert_registry_matches :: "(string \<times> pyval) list \<Rightarrow> settings_registry
    \<Rightarrow> (string \<times> pyval) list result" where
  "assert_registry_matches defaults r =
     (let declared = keys (Some core_origin) r; provided = map fst defaults;
          undeclared = sorted_diff provided declared; unlisted = sorted_diff declared provided in
      ensure (undeclared = [] \<and> unlisted = [])
        (declaration_mismatch (''settings registry and defaults.toml disagree on the key set: ''
           @ ''in defaults.toml but not declared: '' @ py_repr_list undeclared
           @ ''; declared but absent from defaults.toml: '' @ py_repr_list unlisted))
      (rbind (rfold (match_default r defaults) (sort declared) ([], [])) (\<lambda>acc.
       ensure (snd acc = [])
         (declaration_mismatch (''settings registry and defaults.toml disagree on values: ''
            @ join_with ''; '' (snd acc)))
       (Inr (fst acc)))))"

text \<open>\<open>rheo_core/config/defaults.toml\<close> as \<open>tomllib\<close> reads it, its tables in file order.\<close>

definition defaults_toml :: "(string \<times> toml) list" where
  "defaults_toml = [
     (''profile'', TValue (PStr ''development'')),
     (''storage'', TTable [
        (''cluster_dsn_ref'', TValue (PStr ''secret://env/RHEO_CLUSTER_DSN'')),
        (''control_database'', TValue (PStr ''rheo_control'')),
        (''template_database'', TValue (PStr ''template1'')),
        (''pool_cache_size'', TValue (PInt 32)),
        (''pool_max_connections'', TValue (PInt 5))]),
     (''identity'', TTable [
        (''token_max_days'', TTable [
           (''cli'', TValue (PInt 90)),
           (''mcp'', TValue (PInt 30))]),
        (''allow_signup'', TValue (PBool False)),
        (''allow_workspace_create'', TValue (PBool False)),
        (''session_idle_days'', TValue (PInt 14)),
        (''session_max_days'', TValue (PInt 30)),
        (''providers'', TTable [
           (''github'', TTable [
              (''enabled'', TValue (PBool False)),
              (''client_id'', TValue (PStr [])),
              (''client_secret_ref'', TValue (PStr []))])])]),
     (''routing'', TTable [
        (''mode'', TValue (PStr ''path'')),
        (''scheme'', TValue (PStr ''https'')),
        (''base_host'', TValue (PStr ''localhost'')),
        (''shell'', TTable [(''host'', TValue (PStr ''circuit'')), (''path'', TValue (PStr ''/''))]),
        (''identity'', TTable [(''host'', TValue (PStr ''auth'')), (''path'', TValue (PStr ''/auth''))]),
        (''api'', TTable [(''host'', TValue (PStr ''api'')), (''path'', TValue (PStr ''/api''))]),
        (''mcp'', TTable [(''host'', TValue (PStr ''mcp'')), (''path'', TValue (PStr ''/mcp''))]),
        (''docs'', TTable [(''host'', TValue (PStr ''docs'')), (''external'', TValue (PBool True))]),
        (''integration'', TTable [
           (''host'', TValue (PStr ''tuttle'')),
           (''external'', TValue (PBool True)),
           (''reserved'', TValue (PBool True))])]),
     (''internal'', TTable [(''secret_ref'', TValue (PStr []))])]"

definition load_package_defaults :: "(string \<times> pyval) list" where
  "load_package_defaults = flatten_table [] defaults_toml"

section \<open>The deployment file\<close>

text \<open>
  \<open>file\<close> is what the file at \<open>path\<close> holds: \<open>None\<close> when there is none, an exception when
  it does not parse.
\<close>

definition load_deployment_toml :: "settings_registry \<Rightarrow> string \<Rightarrow> (string \<times> toml) list result option
    \<Rightarrow> (string \<times> pyval) list result" where
  "load_deployment_toml r path file = (case file of
       None \<Rightarrow> Inr []
     | Some content \<Rightarrow> rbind content (\<lambda>table.
         rfold (\<lambda>(key, v) layer. case lookup r key of
             None \<Rightarrow> Inl (SettingsError ''setting_undeclared''
               (key @ '': '' @ path @ '' names a key no settings schema declares'') (Some key))
           | Some spec \<Rightarrow> rbind (check_value spec v path) (\<lambda>w. Inr (dict_set key w layer)))
         (flatten_table [] table) []))"

section \<open>The environment\<close>

definition env_prefix :: string where
  "env_prefix = ''RHEO__''"

definition profile_variable :: string where
  "profile_variable = ''RHEO_PROFILE''"

definition env_variable_names :: "string \<Rightarrow> string list" where
  "env_variable_names key =
     (let exact = env_prefix @ replace_char (CHR ''.'') ''__'' key in [exact, upper exact])"

text \<open>One spec of the loop: the first of its two names that is set is decoded.\<close>

definition env_step :: "(string \<times> string) list \<Rightarrow> key_spec \<Rightarrow> (string \<times> pyval) list \<times> string list
    \<Rightarrow> ((string \<times> pyval) list \<times> string list) result" where
  "env_step environ spec acc =
     (let present = filter (\<lambda>n. n \<in> set (map fst environ)) (env_variable_names (ks_key spec)) in
      rbind (case present of
          [] \<Rightarrow> Inr (fst acc)
        | name # _ \<Rightarrow> rbind (decode_text spec (the (map_of environ name)) name)
            (\<lambda>v. Inr (dict_set (ks_key spec) v (fst acc))))
      (\<lambda>layer. Inr (layer, snd acc @ present)))"

text \<open>A variable under the reserved prefix that no declared key reads is refused.\<close>

definition refuse_strays :: "string list \<Rightarrow> 'a \<Rightarrow> 'a result" where
  "refuse_strays strays layer = (case strays of
       [] \<Rightarrow> Inr layer
     | first # rest \<Rightarrow>
         (let derived = lower (replace_all ''__'' ''.'' (drop (length env_prefix) first)) in
          Inl (SettingsError ''setting_undeclared''
            (derived @ '': environment variable '' @ first
               @ '' names a key no settings schema declares (stray RHEO__ variables: ''
               @ py_repr_list strays @ '')'') (Some derived))))"

definition load_environment :: "settings_registry \<Rightarrow> (string \<times> string) list
    \<Rightarrow> (string \<times> pyval) list result" where
  "load_environment r environ =
     rbind (rfold (env_step environ) (specs None r) ([], [])) (\<lambda>(layer, consumed).
     rbind (case map_of environ profile_variable of
         None \<Rightarrow> Inr layer
       | Some text \<Rightarrow> rbind (get_spec r profile_key) (\<lambda>spec.
           rbind (decode_text spec text profile_variable) (\<lambda>v. Inr (dict_set profile_key v layer))))
     (refuse_strays (sort
        (filter (\<lambda>name. startswith name env_prefix \<and> name \<notin> set consumed) (map fst environ)))))"

text \<open>
  \<open>toml_path\<close> is \<open>deployment_toml_path\<close> of the resolved data root (or the exception its
  resolution raises), \<open>files\<close> the file system under it.
\<close>

definition deployment_layer :: "settings_registry \<Rightarrow> string result
    \<Rightarrow> (string \<Rightarrow> (string \<times> toml) list result option) \<Rightarrow> (string \<times> string) list
    \<Rightarrow> (string \<times> pyval) list result" where
  "deployment_layer r toml_path files environ =
     rbind toml_path (\<lambda>path.
     rbind (load_deployment_toml r path (files path)) (\<lambda>layer.
     rbind (load_environment r environ) (\<lambda>env. Inr (dict_update layer env))))"

definition current_profile :: "settings_registry \<Rightarrow> (string \<times> pyval) list result \<Rightarrow> string result" where
  "current_profile r layer_result =
     rbind layer_result (\<lambda>layer.
     rbind (get_spec r profile_key) (\<lambda>spec.
     Inr (value_str (case map_of layer profile_key of Some v \<Rightarrow> v | None \<Rightarrow> ks_default spec))))"

section \<open>What the layers hold\<close>

lemma sort_Nil [simp]: "sort xs = [] \<longleftrightarrow> xs = []"
  by (metis set_empty set_sort)

lemma sorted_diff_Nil [simp]: "sorted_diff xs ys = [] \<longleftrightarrow> set xs \<subseteq> set ys"
  by (auto simp: sorted_diff_def filter_empty_conv)

lemma assert_registry_matchesD:
  assumes "assert_registry_matches defaults r = Inr typed"
  shows "set (map fst defaults) = set (keys (Some core_origin) r)"
  using assms by (auto simp: assert_registry_matches_def Let_def)

lemma match_default_agrees:
  assumes "rfold (match_default r defaults) ks acc = Inr acc'" and "snd acc' = []"
  shows "snd acc = [] \<and> (\<forall>k \<in> set ks. \<exists>spec v. get_spec r k = Inr spec \<and> map_of defaults k = Some v
      \<and> check_value spec v ''defaults.toml'' = Inr (ks_default spec))"
  using assms
proof (induction ks arbitrary: acc)
  case (Cons k ks)
  then obtain u where u: "match_default r defaults k acc = Inr u"
      "rfold (match_default r defaults) ks u = Inr acc'" by auto
  note IH = Cons.IH [OF u(2) Cons.prems(2)]
  with u(1) show ?case
    by (auto simp: match_default_def split: option.splits if_splits)
qed simp

text \<open>The name an environment value of a key is read from.\<close>

definition env_name :: "(string \<times> string) list \<Rightarrow> key_spec \<Rightarrow> string option" where
  "env_name environ spec =
     find (\<lambda>n. n \<in> set (map fst environ)) (env_variable_names (ks_key spec))"

lemma env_step_InrD:
  assumes "env_step environ spec acc = Inr acc'"
  shows "snd acc' = snd acc @ filter (\<lambda>n. n \<in> set (map fst environ)) (env_variable_names (ks_key spec))"
    and "case env_name environ spec of None \<Rightarrow> fst acc' = fst acc
      | Some n \<Rightarrow> \<exists>v. decode_text spec (the (map_of environ n)) n = Inr v
          \<and> fst acc' = dict_set (ks_key spec) v (fst acc)"
  using assms
  by (auto simp: env_step_def env_name_def env_variable_names_def Let_def split: if_splits)

lemma env_fold_value:
  assumes "rfold (env_step environ) ss acc = Inr acc'" and "distinct (map ks_key ss)"
  shows "map_of (fst acc') k =
     (case find (\<lambda>s. ks_key s = k) ss of
        None \<Rightarrow> map_of (fst acc) k
      | Some s \<Rightarrow> (case env_name environ s of None \<Rightarrow> map_of (fst acc) k
          | Some n \<Rightarrow> (case decode_text s (the (map_of environ n)) n of
              Inr v \<Rightarrow> Some v | Inl e \<Rightarrow> None)))"
  using assms
proof (induction ss arbitrary: acc)
  case (Cons s ss)
  then obtain u where u: "env_step environ s acc = Inr u" "rfold (env_step environ) ss u = Inr acc'"
    by auto
  note IH = Cons.IH [OF u(2)]
  show ?case
  proof (cases "ks_key s = k")
    case True
    then have "find (\<lambda>s. ks_key s = k) ss = None"
      using Cons.prems(2) by (fastforce simp: find_None_iff image_iff)
    then show ?thesis
      using IH Cons.prems(2) True env_step_InrD(2) [OF u(1)] by (auto split: option.splits)
  next
    case False
    have "map_of (fst u) k = map_of (fst acc) k"
      using False env_step_InrD(2) [OF u(1)] by (auto split: option.splits)
    then show ?thesis using IH Cons.prems(2) False by (auto split: option.splits sum.splits)
  qed
qed simp

lemma env_fold_consumed:
  assumes "rfold (env_step environ) ss acc = Inr acc'"
  shows "set (snd acc') = set (snd acc) \<union>
     {n. n \<in> set (map fst environ) \<and> (\<exists>s \<in> set ss. n \<in> set (env_variable_names (ks_key s)))}"
  using assms
proof (induction ss arbitrary: acc)
  case (Cons s ss)
  then obtain u where u: "env_step environ s acc = Inr u" "rfold (env_step environ) ss u = Inr acc'"
    by auto
  show ?case using Cons.IH [OF u(2)] env_step_InrD(1) [OF u(1)] by auto
qed simp

lemma decode_text_fits: "spec_ok spec \<Longrightarrow> decode_text spec text source = Inr v \<Longrightarrow> fits spec v"
  using decode_text_safe [of spec "text" source v] by (auto simp: text_safe_def)

definition layer_fits :: "settings_registry \<Rightarrow> (string \<times> pyval) list \<Rightarrow> bool" where
  "layer_fits r layer = (distinct (map fst layer) \<and>
     list_all (\<lambda>(k, v). case lookup r k of None \<Rightarrow> False | Some s \<Rightarrow> fits s v) layer)"

lemma layer_fitsD: "layer_fits r layer \<Longrightarrow> map_of layer k = Some v \<Longrightarrow> \<exists>s. lookup r k = Some s \<and> fits s v"
  by (fastforce simp: layer_fits_def list_all_iff dest!: map_of_SomeD split: option.splits)

lemma set_dict_set: "x \<in> set (dict_set k v d) \<Longrightarrow> x = (k, v) \<or> x \<in> set d"
  by (induction d) (auto split: if_splits)

lemma layer_fits_set:
  "layer_fits r layer \<Longrightarrow> lookup r k = Some s \<Longrightarrow> fits s v \<Longrightarrow> layer_fits r (dict_set k v layer)"
  unfolding layer_fits_def list_all_iff
  by (auto simp: distinct_dict_set dest!: set_dict_set)

lemma layer_fits_update: "layer_fits r d \<Longrightarrow> layer_fits r e \<Longrightarrow> layer_fits r (dict_update d e)"
proof (induction e arbitrary: d)
  case Nil
  then show ?case by (simp add: dict_update_def)
next
  case (Cons x e)
  obtain k v where x: "x = (k, v)" by (cases x)
  have "layer_fits r (dict_set k v d)" "layer_fits r e"
    using Cons.prems x layer_fits_set [of r d k _ v]
    by (auto simp: layer_fits_def split: option.splits)
  then show ?case using Cons.IH x by (simp add: dict_update_def)
qed

lemma env_fold_fits:
  assumes "specs_ok r" and "rfold (env_step environ) (specs None r) ([], []) = Inr acc"
  shows "layer_fits r (fst acc)"
proof (rule rfold_invariant [OF assms(2)])
  show "layer_fits r (fst ([], []))" by (simp add: layer_fits_def)
  fix s u v
  assume s: "s \<in> set (specs None r)" and u: "layer_fits r (fst u)" and e: "env_step environ s u = Inr v"
  have "lookup r (ks_key s) = Some s" using s assms(1) by (simp add: specs_lookup specs_ok_def)
  moreover from this have "spec_ok s" using assms(1) lookup_ok by blast
  ultimately show "layer_fits r (fst v)"
    using u env_step_InrD(2) [OF e] layer_fits_set [OF u] decode_text_fits
    by (auto split: option.splits)
qed

lemma refuse_strays_Inr [simp]: "refuse_strays strays layer = Inr x \<longleftrightarrow> strays = [] \<and> x = layer"
  by (cases strays) (auto simp: refuse_strays_def Let_def)

text \<open>What a successful read of the environment went through.\<close>

lemma load_environment_InrD:
  assumes "load_environment r environ = Inr layer"
  obtains l c where "rfold (env_step environ) (specs None r) ([], []) = Inr (l, c)"
    and "\<And>n. n \<in> fst ` set environ \<Longrightarrow> startswith n env_prefix \<Longrightarrow> n \<in> set c"
    and "case map_of environ profile_variable of None \<Rightarrow> layer = l
      | Some text \<Rightarrow> \<exists>s v. lookup r profile_key = Some s
          \<and> decode_text s text profile_variable = Inr v \<and> layer = dict_set profile_key v l"
proof -
  from assms obtain l c where f: "rfold (env_step environ) (specs None r) ([], []) = Inr (l, c)"
    by (auto simp: load_environment_def)
  show thesis
    by (rule that [OF f])
      (use assms f in \<open>auto simp: load_environment_def Let_def filter_empty_conv get_spec_def
        split: option.splits\<close>)
qed

lemma load_environment_fits:
  assumes "specs_ok r" and "load_environment r environ = Inr layer"
  shows "layer_fits r layer"
proof -
  from assms(2) obtain l c
    where f: "rfold (env_step environ) (specs None r) ([], []) = Inr (l, c)"
    and p: "case map_of environ profile_variable of None \<Rightarrow> layer = l
      | Some text \<Rightarrow> \<exists>s v. lookup r profile_key = Some s
          \<and> decode_text s text profile_variable = Inr v \<and> layer = dict_set profile_key v l"
    by (rule load_environment_InrD)
  have l: "layer_fits r l" using env_fold_fits [OF assms(1) f] by simp
  show ?thesis
    using p l layer_fits_set [OF l] decode_text_fits lookup_ok [OF assms(1)]
    by (auto split: option.splits)
qed

lemma load_deployment_toml_fits:
  assumes "specs_ok r" and "load_deployment_toml r path file = Inr layer"
  shows "layer_fits r layer"
proof (cases "file")
  case None
  then show ?thesis using assms by (auto simp: load_deployment_toml_def layer_fits_def)
next
  case (Some content)
  then obtain table where t: "rfold (\<lambda>(key, v) layer. case lookup r key of
             None \<Rightarrow> Inl (SettingsError ''setting_undeclared''
               (key @ '': '' @ path @ '' names a key no settings schema declares'') (Some key))
           | Some spec \<Rightarrow> rbind (check_value spec v path) (\<lambda>w. Inr (dict_set key w layer)))
         (flatten_table [] table) [] = Inr layer"
    using assms by (auto simp: load_deployment_toml_def)
  show ?thesis
  proof (rule rfold_invariant [OF t])
    show "layer_fits r []" by (simp add: layer_fits_def)
  qed (auto dest!: check_value_fits simp: layer_fits_set split: option.splits)
qed

lemma deployment_layer_fits:
  "specs_ok r \<Longrightarrow> deployment_layer r p files environ = Inr layer \<Longrightarrow> layer_fits r layer"
  by (auto simp: deployment_layer_def intro: layer_fits_update dest: load_environment_fits
      load_deployment_toml_fits)

section \<open>The shipped defaults agree with the registry\<close>

lemma match_default_fold:
  assumes "\<And>k. k \<in> set ks \<Longrightarrow> \<exists>spec v. lookup r k = Some spec \<and> map_of defaults k = Some v
      \<and> check_value spec v ''defaults.toml'' = Inr (ks_default spec)"
    and "snd acc = []"
  shows "\<exists>acc'. rfold (match_default r defaults) ks acc = Inr acc' \<and> snd acc' = []
     \<and> (\<forall>k. map_of (fst acc') k =
          (if k \<in> set ks then map_option ks_default (lookup r k) else map_of (fst acc) k))"
  using assms
proof (induction ks arbitrary: acc)
  case (Cons k ks)
  obtain spec v where k: "lookup r k = Some spec" "map_of defaults k = Some v"
      "check_value spec v ''defaults.toml'' = Inr (ks_default spec)"
    using Cons.prems(1) [of k] by auto
  let ?u = "(dict_set k (ks_default spec) (fst acc), [])"
  have 1: "match_default r defaults k acc = Inr ?u"
    using k Cons.prems(2) by (simp add: match_default_def get_spec_def)
  obtain acc' where 2: "rfold (match_default r defaults) ks ?u = Inr acc'" "snd acc' = []"
      "\<forall>k'. map_of (fst acc') k' = (if k' \<in> set ks then map_option ks_default (lookup r k')
          else map_of (fst ?u) k')"
    using Cons.IH [of ?u] Cons.prems(1) by auto
  show ?case using 1 2 k(1) by auto
qed simp

lemma assert_registry_matches_ok:
  assumes "registry_ok r" and "set (map fst defaults) = set (keys (Some core_origin) r)"
    and "\<And>k. k \<in> set (keys (Some core_origin) r) \<Longrightarrow> \<exists>spec v. lookup r k = Some spec
      \<and> map_of defaults k = Some v \<and> check_value spec v ''defaults.toml'' = Inr (ks_default spec)"
  shows "\<exists>typed. assert_registry_matches defaults r = Inr typed
     \<and> (\<forall>k. map_of typed k = (if k \<in> set (keys (Some core_origin) r)
          then map_option ks_default (lookup r k) else None))"
proof -
  obtain acc where a: "rfold (match_default r defaults) (sort (keys (Some core_origin) r)) ([], []) = Inr acc"
      "snd acc = []"
      "\<forall>k. map_of (fst acc) k = (if k \<in> set (keys (Some core_origin) r)
          then map_option ks_default (lookup r k) else None)"
    using match_default_fold [of "sort (keys (Some core_origin) r)" r defaults "([], [])"] assms(3)
    by auto
  show ?thesis
    using a assms(2) by (auto simp: assert_registry_matches_def Let_def)
qed

lemma core_registry_keys: "keys (Some core_origin) core_registry = map ks_key production_keys"
  by (simp add: keys_def core_registry_def filter_map o_def)

lemma lookup_core: "lookup core_registry k = find (\<lambda>s. ks_key s = k) production_keys"
proof -
  have "map_of (map (\<lambda>s. (ks_key s, s)) ss) k = find (\<lambda>s. ks_key s = k) ss" for ss
    by (induction ss) auto
  then show ?thesis by (simp add: lookup_def core_registry_def)
qed

lemma lookup_core_production: "s \<in> set production_keys \<Longrightarrow> lookup core_registry (ks_key s) = Some s"
  using specs_lookup [OF core_registry_ok, of s] set_specs [OF core_registry_ok]
  by (force simp: core_registry_def)

text \<open>
  \<open>flatten_table\<close> is lookup along the dotted path, for tables whose names are distinct and
  without dots.
\<close>

fun table_ok :: "(string \<times> toml) list \<Rightarrow> bool" where
  "table_ok [] = True"
| "table_ok ((name, TTable t) # rest) =
     (CHR ''.'' \<notin> set name \<and> name \<notin> fst ` set rest \<and> table_ok t \<and> table_ok rest)"
| "table_ok ((name, TValue v) # rest) =
     (CHR ''.'' \<notin> set name \<and> name \<notin> fst ` set rest \<and> table_ok rest)"

fun toml_get :: "(string \<times> toml) list \<Rightarrow> string list \<Rightarrow> pyval option" where
  "toml_get t [] = None"
| "toml_get t [n] = (case map_of t n of Some (TValue v) \<Rightarrow> Some v | _ \<Rightarrow> None)"
| "toml_get t (n # m # ps) = (case map_of t n of Some (TTable u) \<Rightarrow> toml_get u (m # ps) | _ \<Rightarrow> None)"

fun flat_keys :: "string \<Rightarrow> (string \<times> toml) list \<Rightarrow> string list" where
  "flat_keys pre [] = []"
| "flat_keys pre ((name, TTable t) # rest) = flat_keys (pre @ name @ ''.'') t @ flat_keys pre rest"
| "flat_keys pre ((name, TValue v) # rest) = (pre @ name) # flat_keys pre rest"

lemma keys_dict_update: "fst ` set (dict_update d e) = fst ` set d \<union> fst ` set e"
proof (induction e arbitrary: d)
  case (Cons x e)
  then show ?case by (cases x) (auto simp: dict_update_def keys_dict_set)
qed (simp add: dict_update_def)

lemma distinct_dict_update: "distinct (map fst d) \<Longrightarrow> distinct (map fst (dict_update d e))"
proof (induction e arbitrary: d)
  case (Cons x e)
  then show ?case by (cases x) (auto simp: dict_update_def distinct_dict_set)
qed (simp add: dict_update_def)

lemma distinct_flatten_table: "distinct (map fst (flatten_table pre t))"
  by (induction pre t rule: flatten_table.induct) (auto simp: distinct_dict_update)

lemma keys_flatten_table: "fst ` set (flatten_table pre t) = set (flat_keys pre t)"
  by (induction pre t rule: flatten_table.induct) (auto simp: keys_dict_update)

lemma flat_keys_prefix: "k \<in> set (flat_keys pre t) \<Longrightarrow> \<exists>k'. k = pre @ k'"
  by (induction pre t rule: flat_keys.induct) auto

lemma split_on_Cons: "split_on c k = n # m # ps \<longleftrightarrow>
    (\<exists>k'. k = n @ c # k' \<and> c \<notin> set n \<and> split_on c k' = m # ps)"
proof
  assume s: "split_on c k = n # m # ps"
  have "k = n @ c # join_with [c] (m # ps)" using join_split_on [of c k] s by simp
  moreover have "c \<notin> set n" using split_on_pieces [of n c k] s by simp
  ultimately show "\<exists>k'. k = n @ c # k' \<and> c \<notin> set n \<and> split_on c k' = m # ps"
    using s split_on_append [of c n "join_with [c] (m # ps)"] by auto
qed (auto simp: split_on_append)

lemma toml_get_Cons_other:
  "p \<noteq> [] \<Longrightarrow> hd p \<noteq> name \<Longrightarrow> toml_get ((name, x) # rest) p = toml_get rest p"
  by (cases "(rest, p)" rule: toml_get.cases) auto

lemma toml_get_absent: "n \<notin> fst ` set t \<Longrightarrow> toml_get t (n # ps) = None"
  by (cases ps) (auto simp: map_of_eq_None_iff [THEN iffD2])

lemma map_of_flatten_other: "(\<And>k'. k \<noteq> pre @ k') \<Longrightarrow> map_of (flatten_table pre t) k = None"
  using flat_keys_prefix [of k pre t] by (auto simp: map_of_eq_None_iff keys_flatten_table)

lemma map_of_flatten_table:
  "table_ok t \<Longrightarrow> map_of (flatten_table pre t) (pre @ k) = toml_get t (split_on (CHR ''.'') k)"
proof (induction pre t arbitrary: k rule: flatten_table.induct)
  case (1 pre)
  have "toml_get [] ps = None" for ps :: "string list"
    by (cases "([] :: (string \<times> toml) list, ps)" rule: toml_get.cases) auto
  then show ?case by simp
next
  case (2 pre name t rest)
  obtain n ps where s: "split_on (CHR ''.'') k = n # ps" by (cases "split_on (CHR ''.'') k") auto
  have r: "map_of (flatten_table pre rest) (pre @ k) = toml_get rest (n # ps)"
    using 2 s by simp
  have m: "map_of (flatten_table pre ((name, TTable t) # rest)) (pre @ k) =
     (case toml_get rest (n # ps) of Some v \<Rightarrow> Some v
      | None \<Rightarrow> map_of (flatten_table (pre @ name @ ''.'') t) (pre @ k))"
    by (simp add: distinct_flatten_table map_add_def r)
  show ?case
  proof (cases "n = name \<and> ps \<noteq> []")
    case True
    then obtain q qs where ps: "ps = q # qs" by (cases ps) auto
    then obtain k' where k': "k = name @ CHR ''.'' # k'" "split_on (CHR ''.'') k' = q # qs"
      using s True by (auto simp: split_on_Cons)
    have "map_of (flatten_table (pre @ name @ ''.'') t) ((pre @ name @ ''.'') @ k') = toml_get t (q # qs)"
      using 2 k'(2) by (metis table_ok.simps(2))
    moreover have "map_of rest name = None" using 2(3) by (simp add: map_of_eq_None_iff)
    ultimately show ?thesis using m s True ps k' by simp
  next
    case False
    have "map_of (flatten_table (pre @ name @ ''.'') t) (pre @ k) = None"
    proof (rule map_of_flatten_other)
      fix k' show "pre @ k \<noteq> (pre @ name @ ''.'') @ k'"
      proof
        assume "pre @ k = (pre @ name @ ''.'') @ k'"
        then have "k = name @ CHR ''.'' # k'" by simp
        then have "split_on (CHR ''.'') k = name # split_on (CHR ''.'') k'"
          using 2(3) by (simp add: split_on_append)
        then show False using s False by simp
      qed
    qed
    moreover have "toml_get ((name, TTable t) # rest) (n # ps) = toml_get rest (n # ps)"
      using False 2(3) toml_get_absent [of name rest]
      by (cases "n = name") (auto simp: toml_get_Cons_other map_of_eq_None_iff [THEN iffD2])
    ultimately show ?thesis using m s by (simp split: option.splits)
  qed
next
  case (3 pre name v rest)
  obtain n ps where s: "split_on (CHR ''.'') k = n # ps" by (cases "split_on (CHR ''.'') k") auto
  have r: "map_of (flatten_table pre rest) (pre @ k) = toml_get rest (n # ps)"
    using 3 s by simp
  have m: "map_of (flatten_table pre ((name, TValue v) # rest)) (pre @ k) =
     (case toml_get rest (n # ps) of Some v \<Rightarrow> Some v | None \<Rightarrow> if k = name then Some v else None)"
    by (auto simp: distinct_flatten_table map_add_def r split: option.splits)
  show ?case
  proof (cases "n = name")
    case True
    have "k = name \<longleftrightarrow> ps = []"
    proof
      assume "k = name"
      then show "ps = []" using s 3(2) by (simp add: split_on_notin)
    next
      assume "ps = []"
      then show "k = name" using join_split_on [of "CHR ''.''" k] s True by simp
    qed
    moreover have "map_of rest name = None" using 3(2) by (simp add: map_of_eq_None_iff)
    ultimately show ?thesis using True m s by (cases ps) auto
  next
    case False
    then have "k \<noteq> name" using s 3(2) by (auto simp: split_on_notin)
    then show ?thesis using False m s by (simp add: toml_get_Cons_other split: option.splits)
  qed
qed

lemma defaults_toml_ok: "table_ok defaults_toml"
  by (simp add: defaults_toml_def)

lemma package_default_values:
  "list_all (\<lambda>s. toml_get defaults_toml (split_on (CHR ''.'') (ks_key s)) = Some (ks_default s))
     production_keys"
  by (simp add: production_key_defs defaults_toml_def)

lemma package_default_count: "length (flat_keys [] defaults_toml) = length production_keys"
  by (simp add: production_key_defs defaults_toml_def)

lemma package_default_lookup:
  "s \<in> set production_keys \<Longrightarrow> map_of load_package_defaults (ks_key s) = Some (ks_default s)"
  using package_default_values map_of_flatten_table [OF defaults_toml_ok, of "[]"]
  by (simp add: load_package_defaults_def list_all_iff)

lemma package_default_keys:
  "set (map fst load_package_defaults) = set (map ks_key production_keys)"
proof -
  let ?f = "set (flat_keys [] defaults_toml)"
  have f: "set (map fst load_package_defaults) = ?f"
    by (simp add: load_package_defaults_def keys_flatten_table)
  have "set (map ks_key production_keys) \<subseteq> set (map fst load_package_defaults)"
    using package_default_lookup by (force dest: map_of_SomeD)
  moreover have "card ?f \<le> card (set (map ks_key production_keys))"
    using card_length [of "flat_keys [] defaults_toml"] package_default_count
      distinct_card [OF production_keys_distinct] by simp
  ultimately have "set (map ks_key production_keys) = ?f"
    using f by (intro card_seteq) simp_all
  then show ?thesis using f by simp
qed

text \<open>
  Importing the settings package does not fail: the shipped \<open>defaults.toml\<close> and the
  registry's core keys agree on the key set and on every value.
\<close>

theorem package_defaults_load:
  "\<exists>typed. assert_registry_matches load_package_defaults core_registry = Inr typed
     \<and> map_of typed = (\<lambda>k. map_option ks_default (lookup core_registry k))"
proof -
  have "\<exists>typed. assert_registry_matches load_package_defaults core_registry = Inr typed
     \<and> (\<forall>k. map_of typed k = (if k \<in> set (keys (Some core_origin) core_registry)
          then map_option ks_default (lookup core_registry k) else None))"
  proof (rule assert_registry_matches_ok [OF core_registry_ok])
    show "set (map fst load_package_defaults) = set (keys (Some core_origin) core_registry)"
      by (simp only: package_default_keys core_registry_keys)
    fix k assume "k \<in> set (keys (Some core_origin) core_registry)"
    then obtain s where s: "s \<in> set production_keys" "k = ks_key s"
      by (auto simp: core_registry_keys)
    moreover from this have "spec_ok s" using production_keys_ok by (simp add: list_all_iff)
    ultimately show "\<exists>spec v. lookup core_registry k = Some spec
        \<and> map_of load_package_defaults k = Some v
        \<and> check_value spec v ''defaults.toml'' = Inr (ks_default spec)"
      using lookup_core_production package_default_lookup
      by (simp add: check_value_frozen spec_ok_default)
  qed
  moreover have "lookup core_registry k = None" if "k \<notin> set (map ks_key production_keys)" for k
    using that by (auto simp: lookup_core find_None_iff)
  ultimately show ?thesis by (auto simp: fun_eq_iff core_registry_keys)
qed

text \<open>
  What the environment layer holds. Every variable under the reserved prefix belongs to a
  declared key; a key's value is the decoded text of its exact variable name when that is set,
  otherwise of the upper-cased name; and \<open>RHEO_PROFILE\<close> decides \<open>profile\<close> whatever else is set.
\<close>

theorem environment_layer:
  assumes "registry_ok r" and "load_environment r environ = Inr layer"
  shows "(\<forall>n. n \<in> fst ` set environ \<and> startswith n env_prefix \<longrightarrow>
       (\<exists>s \<in> set (specs None r). n \<in> set (env_variable_names (ks_key s))))
     \<and> (\<forall>s exact upper'. lookup r (ks_key s) = Some s \<and> ks_key s \<noteq> profile_key
           \<and> env_variable_names (ks_key s) = [exact, upper'] \<longrightarrow>
         map_of layer (ks_key s) = (case map_of environ exact of
             Some t \<Rightarrow> (case decode_text s t exact of Inr v \<Rightarrow> Some v | Inl _ \<Rightarrow> None)
           | None \<Rightarrow> (case map_of environ upper' of
               Some t \<Rightarrow> (case decode_text s t upper' of Inr v \<Rightarrow> Some v | Inl _ \<Rightarrow> None)
             | None \<Rightarrow> None)))
     \<and> (\<forall>t. map_of environ profile_variable = Some t \<longrightarrow>
         (\<exists>s v. lookup r profile_key = Some s \<and> decode_text s t profile_variable = Inr v
            \<and> map_of layer profile_key = Some v))"
proof (intro conjI allI impI)
  from assms(2) obtain l c
    where f: "rfold (env_step environ) (specs None r) ([], []) = Inr (l, c)"
    and c: "\<And>n. n \<in> fst ` set environ \<Longrightarrow> startswith n env_prefix \<Longrightarrow> n \<in> set c"
    and p: "case map_of environ profile_variable of None \<Rightarrow> layer = l
      | Some text \<Rightarrow> \<exists>s v. lookup r profile_key = Some s
          \<and> decode_text s text profile_variable = Inr v \<and> layer = dict_set profile_key v l"
    by (rule load_environment_InrD) (rule that)
  show "\<exists>s \<in> set (specs None r). n \<in> set (env_variable_names (ks_key s))"
    if "n \<in> fst ` set environ \<and> startswith n env_prefix" for n
    using that c env_fold_consumed [OF f] by auto
  show "\<exists>s v. lookup r profile_key = Some s \<and> decode_text s t profile_variable = Inr v
          \<and> map_of layer profile_key = Some v" if "map_of environ profile_variable = Some t" for t
    using that p by auto
  fix s exact upper'
  assume a: "lookup r (ks_key s) = Some s \<and> ks_key s \<noteq> profile_key
      \<and> env_variable_names (ks_key s) = [exact, upper']"
  have d: "distinct (map ks_key (specs None r))" by (rule specs_keys_distinct [OF assms(1)])
  have "find (\<lambda>x. ks_key x = ks_key s) ss = Some s" if "s \<in> set ss" "distinct (map ks_key ss)" for ss
    using that by (induction ss) auto
  then have "find (\<lambda>x. ks_key x = ks_key s) (specs None r) = Some s"
    using a d specs_lookup [OF assms(1), of s] by blast
  moreover have "map_of layer (ks_key s) = map_of l (ks_key s)"
    using a p by (auto split: option.splits)
  moreover have "n \<in> fst ` set environ \<longleftrightarrow> (\<exists>t. map_of environ n = Some t)" for n
    by (metis map_of_eq_None_iff not_None_eq)
  ultimately show "map_of layer (ks_key s) = (case map_of environ exact of
             Some t \<Rightarrow> (case decode_text s t exact of Inr v \<Rightarrow> Some v | Inl _ \<Rightarrow> None)
           | None \<Rightarrow> (case map_of environ upper' of
               Some t \<Rightarrow> (case decode_text s t upper' of Inr v \<Rightarrow> Some v | Inl _ \<Rightarrow> None)
             | None \<Rightarrow> None))"
    using env_fold_value [OF f d, of "ks_key s"] a
    by (auto simp: env_name_def split: option.splits sum.splits)
qed

text \<open>A registry with one floored key, for the examples.\<close>

definition sample_key :: key_spec where
  "sample_key = key_spec.make ''a.max'' TInt Workspace (Some Floor_Min) False (PInt 90) None"

definition sample_registry :: settings_registry where
  "sample_registry = \<lparr>sr_specs = [(''a.max'', sample_key)], sr_origins = [(''a.max'', ''core'')]\<rparr>"

lemma sample_registry_ok: "registry_ok sample_registry" "specs_ok sample_registry"
  by (simp_all add: specs_ok_def registry_ok_def sample_registry_def sample_key_def spec_ok_def
      key_spec.make_def key_shape_def is_plist_def is_segment_char_def is_lower_def is_digit_def)

lemma sample_environment:
  "load_environment sample_registry [(''RHEO__A__MAX'', ''9''), (''RHEO__a__max'', ''7'')] =
     Inr [(''a.max'', PInt 7)]"
  by code_simp

lemma environment_layer_witness:
  "map_of [(''a.max'', PInt 7)] ''a.max'' = Some (PInt 7)
   \<and> (\<exists>s \<in> set (specs None sample_registry). ''RHEO__A__MAX'' \<in> set (env_variable_names (ks_key s)))"
  using environment_layer [OF sample_registry_ok(1) sample_environment]
  by (auto simp: startswith_def env_prefix_def)

end
