(* ===== verification/Settings_Resolver.thy ===== *)
theory Settings_Resolver
  imports Settings_Deployment
begin

text \<open>
  \<open>rheo_core/settings/resolver.py\<close> and \<open>rheo_core/settings/write_path.py\<close>: the floor
  comparators, the application of override rows on every read, the resolution of all
  declared keys for one request, and the check of an override before it is written.

  The override source is a record of its two methods; a method that raises is an \<open>Inl\<close>.
  The warnings of \<open>_ignore\<close> are the second component of the state a resolution threads.
\<close>

section \<open>Floors\<close>

definition as_int :: "pyval \<Rightarrow> int result" where
  "as_int v = (case v of PInt i \<Rightarrow> Inr i
     | _ \<Rightarrow> Inl (TypeError (''floor 'min' needs an int, got '' @ type_name v)))"

definition as_items :: "pyval \<Rightarrow> pyval list result" where
  "as_items v = (case v of PTuple xs \<Rightarrow> Inr xs
     | _ \<Rightarrow> Inl (TypeError (''a list floor needs a list, got '' @ type_name v)))"

definition as_bool :: "pyval \<Rightarrow> bool result" where
  "as_bool v = (case v of PBool b \<Rightarrow> Inr b
     | _ \<Rightarrow> Inl (TypeError (''floor 'and' needs a bool, got '' @ type_name v)))"

lemma as_simps [simp]:
  "as_int (PInt i) = Inr i" "as_items (PTuple xs) = Inr xs" "as_bool (PBool b) = Inr b"
  by (simp_all add: as_int_def as_items_def as_bool_def)

fun apply_floor :: "floor \<Rightarrow> pyval \<Rightarrow> pyval \<Rightarrow> pyval result" where
  "apply_floor Floor_Min d v =
     rbind (as_int d) (\<lambda>a. rbind (as_int v) (\<lambda>b. Inr (PInt (min a b))))"
| "apply_floor Floor_Union d v =
     rbind (as_items d) (\<lambda>base. rbind (as_items v) (\<lambda>xs.
       Inr (PTuple (base @ filter (\<lambda>x. x \<notin> set base) xs))))"
| "apply_floor Floor_Subset d v =
     rbind (as_items v) (\<lambda>allowed. rbind (as_items d) (\<lambda>xs.
       Inr (PTuple (filter (\<lambda>x. x \<in> set allowed) xs))))"
| "apply_floor Floor_And d v =
     rbind (as_bool d) (\<lambda>a. if a then rbind (as_bool v) (\<lambda>b. Inr (PBool b)) else Inr (PBool False))"

fun is_looser :: "floor \<Rightarrow> pyval \<Rightarrow> pyval \<Rightarrow> bool result" where
  "is_looser Floor_Min d c = rbind (as_int c) (\<lambda>b. rbind (as_int d) (\<lambda>a. Inr (b > a)))"
| "is_looser Floor_Union d c =
     rbind (as_items d) (\<lambda>xs. rbind (as_items c) (\<lambda>ys. Inr (\<not> set xs \<subseteq> set ys)))"
| "is_looser Floor_Subset d c =
     rbind (as_items c) (\<lambda>ys. rbind (as_items d) (\<lambda>xs. Inr (\<not> set ys \<subseteq> set xs)))"
| "is_looser Floor_And d c =
     rbind (as_bool c) (\<lambda>b. if b then rbind (as_bool d) (\<lambda>a. Inr (\<not> a)) else Inr False)"

text \<open>
  The contract of a floor: the combined value is never looser than the deployment value,
  and combining changes nothing for a value the write path accepted.
\<close>

locale floor_comparator =
  fixes combine :: "'v \<Rightarrow> 'v \<Rightarrow> 'v result"
    and looser :: "'v \<Rightarrow> 'v \<Rightarrow> bool result"
    and dom :: "'v \<Rightarrow> bool"
    and same :: "'v \<Rightarrow> 'v \<Rightarrow> bool"
  assumes combine_total: "dom d \<Longrightarrow> dom v \<Longrightarrow> \<exists>w. combine d v = Inr w \<and> dom w \<and> looser d w = Inr False"
    and looser_total: "dom d \<Longrightarrow> dom v \<Longrightarrow> \<exists>b. looser d v = Inr b"
    and combine_accepted: "dom d \<Longrightarrow> dom v \<Longrightarrow> looser d v = Inr False \<Longrightarrow> combine d v = Inr w \<Longrightarrow> same w v"
begin

lemma combine_bounded: "dom d \<Longrightarrow> dom v \<Longrightarrow> combine d v = Inr w \<Longrightarrow> dom w \<and> looser d w = Inr False"
  using combine_total by fastforce

text \<open>
  A row accepted under an old deployment value cannot relax a new one: the read combines it
  with whatever the deployment says at that time.
\<close>

lemma tightened:
  assumes "dom d'" and "dom v"
  obtains w where "combine d' v = Inr w" and "looser d' w = Inr False"
    and "looser d' v = Inr False \<Longrightarrow> same w v"
  using combine_total [OF assms] combine_accepted [OF assms] by blast

end

definition same_value :: "pyval \<Rightarrow> pyval \<Rightarrow> bool" where
  "same_value v w = (case (v, w) of
       (PTuple xs, PTuple ys) \<Rightarrow> set xs = set ys
     | _ \<Rightarrow> v = w)"

definition floor_dom :: "floor \<Rightarrow> pyval \<Rightarrow> bool" where
  "floor_dom f v = (matches_type (floor_type f) v \<and> \<not> is_plist v)"

lemma floor_dom_cases:
  "floor_dom Floor_Min v \<longleftrightarrow> (\<exists>i. v = PInt i)"
  "floor_dom Floor_And v \<longleftrightarrow> (\<exists>b. v = PBool b)"
  "floor_dom Floor_Union v \<longleftrightarrow> (\<exists>xs. v = PTuple xs \<and> list_all is_str xs)"
  "floor_dom Floor_Subset v \<longleftrightarrow> (\<exists>xs. v = PTuple xs \<and> list_all is_str xs)"
  by (cases v; auto simp: floor_dom_def is_plist_def)+

interpretation floors: floor_comparator "apply_floor f" "is_looser f" "floor_dom f" same_value for f
proof
  fix d v w
  show "floor_dom f d \<Longrightarrow> floor_dom f v \<Longrightarrow>
      \<exists>w. apply_floor f d v = Inr w \<and> floor_dom f w \<and> is_looser f d w = Inr False"
    by (cases f) (auto simp: floor_dom_cases list_all_iff simp del: rbind_eq_Inr)
  show "floor_dom f d \<Longrightarrow> floor_dom f v \<Longrightarrow> \<exists>b. is_looser f d v = Inr b"
    by (cases f) (auto simp: floor_dom_cases simp del: rbind_eq_Inr)
  show "floor_dom f d \<Longrightarrow> floor_dom f v \<Longrightarrow> is_looser f d v = Inr False \<Longrightarrow>
      apply_floor f d v = Inr w \<Longrightarrow> same_value w v"
    by (cases f) (auto simp: floor_dom_cases same_value_def subset_iff simp del: rbind_eq_Inr split: if_splits)
qed

lemma fits_floor_dom: "spec_ok s \<Longrightarrow> ks_floor s = Some f \<Longrightarrow> fits s v \<longleftrightarrow> floor_dom f v"
  by (cases f) (auto simp: spec_ok_def fits_def floor_dom_def split: option.splits)

section \<open>Override rows\<close>

record override_source =
  os_workspace :: "uuid \<Rightarrow> (string \<times> string) list result"
  os_member :: "uuid \<Rightarrow> uuid \<Rightarrow> (string \<times> string) list result"

record ignored_row =
  ir_key :: string
  ir_state :: string
  ir_scope :: scope
  ir_workspace :: uuid
  ir_account :: "uuid option"

type_synonym resolution = "(string \<times> pyval) list \<times> ignored_row list"

definition ignore_row :: "string \<Rightarrow> string \<Rightarrow> scope \<Rightarrow> uuid \<Rightarrow> uuid option \<Rightarrow> resolution \<Rightarrow> resolution" where
  "ignore_row key state sc wid aid acc =
     (fst acc, snd acc @ [\<lparr>ir_key = key, ir_state = state, ir_scope = sc,
                           ir_workspace = wid, ir_account = aid\<rparr>])"

definition is_setting_type :: "py_exc \<Rightarrow> bool" where
  "is_setting_type e = (case e of SettingsError st _ _ \<Rightarrow> st = ''setting_type'' | _ \<Rightarrow> False)"

definition apply_row :: "settings_registry \<Rightarrow> scope \<Rightarrow> uuid \<Rightarrow> uuid option \<Rightarrow> string \<times> string
    \<Rightarrow> resolution \<Rightarrow> resolution result" where
  "apply_row r sc wid aid row acc = (let key = fst row in
     case lookup r key of
       None \<Rightarrow> Inr (ignore_row key ''setting_undeclared'' sc wid aid acc)
     | Some spec \<Rightarrow>
         if ks_scope spec \<noteq> sc then Inr (ignore_row key ''setting_scope'' sc wid aid acc)
         else (case decode_text spec (snd row) (scope_value sc @ '' row'') of
             Inl e \<Rightarrow> if is_setting_type e then Inr (ignore_row key ''setting_type'' sc wid aid acc)
                      else Inl e
           | Inr v \<Rightarrow>
               rbind (case ks_floor spec of None \<Rightarrow> Inr v
                      | Some f \<Rightarrow> (case map_of (fst acc) key of
                          None \<Rightarrow> Inl (OtherException ''KeyError'' key)
                        | Some cur \<Rightarrow> apply_floor f cur v))
                 (\<lambda>w. Inr (dict_set key w (fst acc), snd acc))))"

definition apply_rows :: "settings_registry \<Rightarrow> scope \<Rightarrow> uuid \<Rightarrow> uuid option \<Rightarrow> (string \<times> string) list
    \<Rightarrow> resolution \<Rightarrow> resolution result" where
  "apply_rows r sc wid aid rows acc = rfold (apply_row r sc wid aid) rows acc"

text \<open>\<open>layer\<close> is what \<open>deployment_layer()\<close> returns or raises.\<close>

definition resolve :: "settings_registry \<Rightarrow> (string \<times> pyval) list result \<Rightarrow> uuid option
    \<Rightarrow> uuid option \<Rightarrow> override_source option \<Rightarrow> resolution result" where
  "resolve r layer workspace_id account_id source =
     rbind layer (\<lambda>dep.
     let vals = dict_update (map (\<lambda>s. (ks_key s, ks_default s)) (specs None r)) dep in
     case (source, workspace_id) of
       (Some src, Some wid) \<Rightarrow>
         rbind (os_workspace src wid) (\<lambda>rows.
         rbind (apply_rows r Workspace wid None rows (vals, [])) (\<lambda>acc.
         case account_id of
           None \<Rightarrow> Inr acc
         | Some aid \<Rightarrow> rbind (os_member src wid aid) (\<lambda>mrows.
             apply_rows r Member wid (Some aid) mrows acc)))
     | _ \<Rightarrow> Inr (vals, []))"

section \<open>The resolved mapping\<close>

definition get_item :: "(string \<times> pyval) list \<Rightarrow> string \<Rightarrow> pyval result" where
  "get_item vals key = (case map_of vals key of
       Some v \<Rightarrow> Inr (thaw_value v) | None \<Rightarrow> Inl (setting_undeclared key))"

definition typed_item :: "settings_registry \<Rightarrow> (string \<times> pyval) list \<Rightarrow> string \<Rightarrow> value_type
    \<Rightarrow> pyval result" where
  "typed_item r vals key ty =
     rbind (get_spec r key) (\<lambda>spec.
     ensure (ks_type spec = ty)
       (setting_type_mismatch (key @ '' is declared '' @ type_value (ks_type spec) @ '', not ''
          @ type_value ty) key)
     (case map_of vals key of Some v \<Rightarrow> Inr v | None \<Rightarrow> Inl (OtherException ''KeyError'' key)))"

definition get_str :: "settings_registry \<Rightarrow> (string \<times> pyval) list \<Rightarrow> string \<Rightarrow> string result" where
  "get_str r vals key = rbind (typed_item r vals key TStr) (\<lambda>v. Inr (value_str v))"

definition get_int :: "settings_registry \<Rightarrow> (string \<times> pyval) list \<Rightarrow> string \<Rightarrow> int result" where
  "get_int r vals key = rbind (typed_item r vals key TInt) (\<lambda>v.
     case v of PInt i \<Rightarrow> Inr i | PBool b \<Rightarrow> Inr (if b then 1 else 0) | _ \<Rightarrow> Inl AssertionError)"

definition get_bool :: "settings_registry \<Rightarrow> (string \<times> pyval) list \<Rightarrow> string \<Rightarrow> bool result" where
  "get_bool r vals key = rbind (typed_item r vals key TBool) (\<lambda>v.
     case v of PBool b \<Rightarrow> Inr b | _ \<Rightarrow> Inl AssertionError)"

definition get_list :: "settings_registry \<Rightarrow> (string \<times> pyval) list \<Rightarrow> string \<Rightarrow> pyval list result" where
  "get_list r vals key = rbind (typed_item r vals key TStrList) (\<lambda>v.
     case v of PTuple xs \<Rightarrow> Inr xs | _ \<Rightarrow> Inl AssertionError)"

section \<open>The write path\<close>

record setting_refusal =
  sf_state :: string
  sf_key :: string
  sf_detail :: string

record setting_accepted =
  sa_key :: string
  sa_value :: pyval
  sa_encoded :: string
  sa_type :: value_type

datatype override_outcome = Refused setting_refusal | Accepted setting_accepted

definition refuse :: "string \<Rightarrow> string \<Rightarrow> string \<Rightarrow> override_outcome result" where
  "refuse state key detail = Inr (Refused \<lparr>sf_state = state, sf_key = key, sf_detail = detail\<rparr>)"

definition validate_override :: "settings_registry \<Rightarrow> string \<Rightarrow> pyval \<Rightarrow> pyval \<Rightarrow> scope
    \<Rightarrow> override_outcome result" where
  "validate_override r key v deployment_value sc = (case lookup r key of
       None \<Rightarrow> refuse ''setting_undeclared'' key (key @ '' is not a declared settings key'')
     | Some spec \<Rightarrow>
         if sc = Deployment \<or> ks_scope spec \<noteq> sc then
           refuse ''setting_scope'' key (key @ '' has scope '' @ scope_value (ks_scope spec)
             @ ''; it cannot be set as a '' @ scope_value sc @ '' override'')
         else if \<not> matches_type (ks_type spec) v
             \<or> (case ks_choices spec of None \<Rightarrow> False | Some cs \<Rightarrow> \<not> in_choices v cs) then
           refuse ''setting_type'' key
             (key @ '' is declared '' @ type_value (ks_type spec) @ ''; the value does not match'')
         else
           rbind (freeze_value v) (\<lambda>frozen.
           rbind (case ks_floor spec of None \<Rightarrow> Inr None
             | Some f \<Rightarrow>
                 rbind (check_value spec deployment_value ''deployment value'') (\<lambda>base.
                 rbind (is_looser f base frozen) (\<lambda>l.
                 Inr (if l then Some (f, base) else None)))) (\<lambda>violated.
           case violated of
             Some (f, base) \<Rightarrow> refuse ''setting_floor_violation'' key
               (key @ '': '' @ value_repr (thaw_value frozen) @ '' is looser than the deployment value ''
                  @ value_repr (thaw_value base) @ '' under floor '' @ py_repr (floor_value f))
           | None \<Rightarrow>
               rbind (encode_text spec frozen) (\<lambda>enc.
               Inr (Accepted \<lparr>sa_key = key, sa_value = frozen, sa_encoded = enc,
                             sa_type = ks_type spec\<rparr>)))))"

section \<open>What a resolution returns\<close>

text \<open>The value of one key under one row, as a function of the value below it.\<close>

definition row_effect :: "key_spec \<Rightarrow> scope \<Rightarrow> string \<Rightarrow> pyval \<Rightarrow> pyval" where
  "row_effect s sc t cur =
     (if ks_scope s \<noteq> sc then cur
      else (case decode_text s t (scope_value sc @ '' row'') of
          Inl _ \<Rightarrow> cur
        | Inr v \<Rightarrow> (case ks_floor s of None \<Rightarrow> v
            | Some f \<Rightarrow> (case apply_floor f cur v of Inl _ \<Rightarrow> cur | Inr w \<Rightarrow> w))))"

definition complete :: "settings_registry \<Rightarrow> (string \<times> pyval) list \<Rightarrow> bool" where
  "complete r vals = (layer_fits r vals \<and> fst ` set vals = fst ` set (sr_specs r))"

lemma complete_lookup:
  "complete r vals \<Longrightarrow> lookup r k = Some s \<Longrightarrow> \<exists>v. map_of vals k = Some v \<and> fits s v"
proof -
  assume c: "complete r vals" and s: "lookup r k = Some s"
  have "k \<in> fst ` set vals"
    using c s by (force simp: complete_def lookup_def dest: map_of_SomeD)
  then obtain v where "map_of vals k = Some v" by (metis map_of_eq_None_iff not_None_eq)
  then show ?thesis using c s layer_fitsD [of r vals k v] by (auto simp: complete_def)
qed

lemma complete_set: "complete r vals \<Longrightarrow> lookup r k = Some s \<Longrightarrow> fits s v \<Longrightarrow> complete r (dict_set k v vals)"
  by (auto simp: complete_def layer_fits_set keys_dict_set lookup_def dest: map_of_SomeD
      intro: rev_image_eqI)

lemma decode_text_error: "decode_text s t source = Inl e \<Longrightarrow> is_setting_type e"
  by (auto simp: decode_text_def rbind_eq_Inl is_setting_type_def setting_type_mismatch_def Let_def
      ensure_def split: value_type.splits option.splits if_splits)

lemma row_effect_fits:
  assumes "spec_ok s" and "fits s cur"
  shows "fits s (row_effect s sc t cur)"
proof (cases "decode_text s t (scope_value sc @ '' row'')")
  case (Inr v)
  then have v: "fits s v" using assms decode_text_fits by blast
  show ?thesis
  proof (cases "ks_floor s")
    case (Some f)
    obtain w where "apply_floor f cur v = Inr w" "floor_dom f w"
      using floors.combine_total fits_floor_dom [OF assms(1) Some] assms(2) v by blast
    then show ?thesis using Inr Some assms v fits_floor_dom [OF assms(1) Some]
      by (simp add: row_effect_def)
  qed (use Inr v assms in \<open>simp add: row_effect_def\<close>)
qed (use assms in \<open>simp add: row_effect_def\<close>)

lemma apply_row_effect:
  assumes "specs_ok r" and "complete r (fst acc)"
  obtains acc' where "apply_row r sc wid aid (k, t) acc = Inr acc'" and "complete r (fst acc')"
    and "\<And>k'. map_of (fst acc') k' = (case lookup r k' of
        Some s \<Rightarrow> if k' = k then map_option (row_effect s sc t) (map_of (fst acc) k') else map_of (fst acc) k'
      | None \<Rightarrow> map_of (fst acc) k')"
proof (cases "lookup r k")
  case None
  then show thesis using assms
    by (intro that [of "ignore_row k ''setting_undeclared'' sc wid aid acc"])
      (auto simp: apply_row_def ignore_row_def split: option.splits)
next
  case (Some s)
  have s: "spec_ok s" using assms(1) Some lookup_ok by blast
  obtain cur where cur: "map_of (fst acc) k = Some cur" "fits s cur"
    using complete_lookup [OF assms(2) Some] by blast
  note result = that
  have skip: thesis if "apply_row r sc wid aid (k, t) acc = Inr (ignore_row k st sc wid aid acc)"
    and "row_effect s sc t cur = cur" for st
    by (rule result [OF that(1)])
      (use that(2) assms Some cur in \<open>auto simp: ignore_row_def split: option.splits\<close>)
  show thesis
  proof (cases "ks_scope s = sc")
    case False
    show thesis by (rule skip) (use False Some in \<open>simp_all add: apply_row_def row_effect_def\<close>)
  next
    case True
    show thesis
    proof (cases "decode_text s t (scope_value sc @ '' row'')")
      case (Inl e)
      show thesis
        by (rule skip) (use True Some Inl decode_text_error [OF Inl] in
          \<open>simp_all add: apply_row_def row_effect_def\<close>)
    next
      case (Inr v)
      have v: "fits s v" using s Inr decode_text_fits by blast
      have step: "apply_row r sc wid aid (k, t) acc =
          Inr (dict_set k (row_effect s sc t cur) (fst acc), snd acc)"
      proof (cases "ks_floor s")
        case (Some f)
        obtain w where "apply_floor f cur v = Inr w"
          using floors.combine_total fits_floor_dom [OF s Some] cur(2) v by blast
        then show ?thesis
          using Some \<open>lookup r k = Some s\<close> True Inr cur by (simp add: apply_row_def row_effect_def)
      qed (use Some True Inr in \<open>simp add: apply_row_def row_effect_def\<close>)
      show thesis
        by (rule that [OF step])
          (use complete_set [OF assms(2) Some row_effect_fits [OF s cur(2)]] Some cur in
            \<open>auto split: option.splits\<close>)
    qed
  qed
qed

lemma apply_rows_effect:
  assumes "specs_ok r" and "complete r (fst acc)" and "distinct (map fst rows)"
  obtains acc' where "apply_rows r sc wid aid rows acc = Inr acc'" and "complete r (fst acc')"
    and "\<And>k s. lookup r k = Some s \<Longrightarrow> map_of (fst acc') k =
      (case map_of rows k of None \<Rightarrow> map_of (fst acc) k
       | Some t \<Rightarrow> map_option (row_effect s sc t) (map_of (fst acc) k))"
  using assms
proof (induction rows arbitrary: acc thesis)
  case Nil
  then show ?case by (simp add: apply_rows_def)
next
  case (Cons row rows)
  obtain k t where row: "row = (k, t)" by (cases row)
  obtain u where u: "apply_row r sc wid aid (k, t) acc = Inr u" "complete r (fst u)"
    and uk: "\<And>k'. map_of (fst u) k' = (case lookup r k' of
        Some s \<Rightarrow> if k' = k then map_option (row_effect s sc t) (map_of (fst acc) k') else map_of (fst acc) k'
      | None \<Rightarrow> map_of (fst acc) k')"
    using apply_row_effect [OF Cons.prems(2) Cons.prems(3)] by blast
  obtain w where w: "apply_rows r sc wid aid rows u = Inr w" "complete r (fst w)"
    and wk: "\<And>k s. lookup r k = Some s \<Longrightarrow> map_of (fst w) k =
      (case map_of rows k of None \<Rightarrow> map_of (fst u) k
       | Some t \<Rightarrow> map_option (row_effect s sc t) (map_of (fst u) k))"
    using Cons.IH [OF _ Cons.prems(2) u(2)] Cons.prems(4) by auto
  have "map_of rows k = None" using Cons.prems(4) row by (simp add: map_of_eq_None_iff)
  then show ?case
    by (intro Cons.prems(1) [of w]) (use u w wk uk row in \<open>auto simp: apply_rows_def split: option.splits\<close>)
qed

text \<open>The specification: what each declared key resolves to, key by key.\<close>

definition base_value :: "(string \<times> pyval) list \<Rightarrow> key_spec \<Rightarrow> pyval" where
  "base_value dep s = (case map_of dep (ks_key s) of Some v \<Rightarrow> v | None \<Rightarrow> ks_default s)"

definition effective_value :: "(string \<times> pyval) list \<Rightarrow> (string \<times> string) list
    \<Rightarrow> (string \<times> string) list option \<Rightarrow> key_spec \<Rightarrow> pyval" where
  "effective_value dep wrows mrows s = (let base = base_value dep s in
     case ks_scope s of
       Deployment \<Rightarrow> base
     | Workspace \<Rightarrow> (case map_of wrows (ks_key s) of None \<Rightarrow> base
         | Some t \<Rightarrow> row_effect s Workspace t base)
     | Member \<Rightarrow> (case mrows of None \<Rightarrow> base
         | Some rows \<Rightarrow> (case map_of rows (ks_key s) of None \<Rightarrow> base
             | Some t \<Rightarrow> row_effect s Member t base)))"

lemma base_layer:
  assumes "specs_ok r" and "layer_fits r dep"
  defines "vals \<equiv> dict_update (map (\<lambda>s. (ks_key s, ks_default s)) (specs None r)) dep"
  shows "complete r vals"
    and "lookup r k = Some s \<Longrightarrow> map_of vals k = Some (base_value dep s)"
proof -
  let ?d = "map (\<lambda>s. (ks_key s, ks_default s)) (specs None r)"
  have rok: "registry_ok r" using assms(1) by (simp add: specs_ok_def)
  have dd: "distinct (map fst ?d)" using specs_keys_distinct [OF rok] by (simp add: o_def)
  have dk: "fst ` set ?d = fst ` set (sr_specs r)"
    using rok by (simp add: set_specs image_image registry_ok_def list_all_iff) force
  have df: "layer_fits r ?d"
  proof -
    have "lookup r (ks_key s) = Some s \<and> fits s (ks_default s)" if "s \<in> set (specs None r)" for s
      using that specs_lookup [OF rok, of s] lookup_ok [OF assms(1), of "ks_key s" s] spec_ok_default
      by simp
    then show ?thesis using dd by (simp add: layer_fits_def list_all_iff)
  qed
  have "fst ` set dep \<subseteq> fst ` set (sr_specs r)"
  proof
    fix k assume "k \<in> fst ` set dep"
    then obtain v where "map_of dep k = Some v" by (metis map_of_eq_None_iff not_None_eq)
    then show "k \<in> fst ` set (sr_specs r)"
      using layer_fitsD [OF assms(2)] by (force simp: lookup_def dest: map_of_SomeD)
  qed
  then show "complete r vals"
    using layer_fits_update [OF df assms(2)] dk by (auto simp: complete_def vals_def keys_dict_update)
  show "map_of vals k = Some (base_value dep s)" if s: "lookup r k = Some s"
  proof -
    have "(k, ks_default s) \<in> set ?d"
      using s lookup_ok [OF assms(1) s] specs_lookup [OF rok, of s] by force
    then have "map_of ?d k = Some (ks_default s)" using dd by simp
    then show ?thesis
      using assms(2) lookup_ok [OF assms(1) s]
      by (auto simp: vals_def base_value_def layer_fits_def map_add_def split: option.splits)
  qed
qed

lemma row_effect_scope [simp]: "ks_scope s \<noteq> sc \<Longrightarrow> row_effect s sc t v = v"
  by (simp add: row_effect_def)

lemma base_value_fits:
  assumes "specs_ok r" and "layer_fits r dep" and "lookup r k = Some s"
  shows "fits s (base_value dep s)"
  using complete_lookup [OF base_layer(1) [OF assms(1,2)] assms(3)] base_layer(2) [OF assms] by simp

lemma resolve_spec:
  assumes "specs_ok r" and "deployment_layer r p files environ = Inr dep"
    and "os_workspace src wid = Inr wrows" and "distinct (map fst wrows)"
    and "case aid of None \<Rightarrow> mrows = None
      | Some a \<Rightarrow> \<exists>m. os_member src wid a = Inr m \<and> distinct (map fst m) \<and> mrows = Some m"
  shows "\<exists>vals log. resolve r (deployment_layer r p files environ) (Some wid) aid (Some src) = Inr (vals, log)
     \<and> (\<forall>k s. lookup r k = Some s \<longrightarrow> map_of vals k = Some (effective_value dep wrows mrows s))"
proof -
  let ?vals = "dict_update (map (\<lambda>s. (ks_key s, ks_default s)) (specs None r)) dep"
  have fit: "layer_fits r dep" by (rule deployment_layer_fits [OF assms(1,2)])
  note base = base_layer [OF assms(1) fit]
  have c: "complete r (fst (?vals, []))" using base(1) by simp
  obtain u where u: "apply_rows r Workspace wid None wrows (?vals, []) = Inr u" "complete r (fst u)"
    and uk: "\<And>k s. lookup r k = Some s \<Longrightarrow> map_of (fst u) k =
      (case map_of wrows k of None \<Rightarrow> map_of ?vals k
       | Some t \<Rightarrow> map_option (row_effect s Workspace t) (map_of ?vals k))"
    using apply_rows_effect [OF assms(1) c assms(4), of Workspace wid None] unfolding fst_conv by blast
  have key: "ks_key s = k" if "lookup r k = Some s" for k s
    using lookup_ok [OF assms(1) that] by simp
  show ?thesis
  proof (cases aid)
    case None
    have "map_of (fst u) k = Some (effective_value dep wrows mrows s)" if "lookup r k = Some s" for k s
      using uk [OF that] base(2) [OF that] key [OF that] None assms(5)
      by (auto simp: effective_value_def Let_def split: option.splits scope.splits)
    then show ?thesis using u assms(2,3) None
      by (intro exI [of _ "fst u"] exI [of _ "snd u"]) (simp add: resolve_def Let_def)
  next
    case (Some a)
    obtain m where m: "os_member src wid a = Inr m" "distinct (map fst m)" "mrows = Some m"
      using assms(5) Some by auto
    obtain w where w: "apply_rows r Member wid (Some a) m u = Inr w"
      and wk: "\<And>k s. lookup r k = Some s \<Longrightarrow> map_of (fst w) k =
        (case map_of m k of None \<Rightarrow> map_of (fst u) k
         | Some t \<Rightarrow> map_option (row_effect s Member t) (map_of (fst u) k))"
      using apply_rows_effect [OF assms(1) u(2) m(2)] by blast
    have "map_of (fst w) k = Some (effective_value dep wrows mrows s)" if "lookup r k = Some s" for k s
      using wk [OF that] uk [OF that] base(2) [OF that] key [OF that] m(3)
      by (auto simp: effective_value_def Let_def split: option.splits scope.splits)
    then show ?thesis using u w m assms(2,3) Some
      by (intro exI [of _ "fst w"] exI [of _ "snd w"]) (simp add: resolve_def Let_def)
  qed
qed

lemma effective_value_bounded:
  assumes "specs_ok r" and "layer_fits r dep" and "lookup r k = Some s" and "ks_floor s = Some f"
  shows "is_looser f (base_value dep s) (effective_value dep wrows mrows s) = Inr False"
proof -
  have s: "spec_ok s" using assms lookup_ok by blast
  note dom = fits_floor_dom [OF s assms(4)]
  have b: "floor_dom f (base_value dep s)" using base_value_fits [OF assms(1-3)] dom by simp
  have refl: "is_looser f (base_value dep s) (base_value dep s) = Inr False"
    using b by (cases f) (auto simp: floor_dom_cases simp del: rbind_eq_Inr)
  have "is_looser f (base_value dep s) (row_effect s sc t (base_value dep s)) = Inr False" for sc t
  proof (cases "ks_scope s = sc")
    case True
    show ?thesis
    proof (cases "decode_text s t (scope_value sc @ '' row'')")
      case (Inr v)
      then have v: "floor_dom f v" using s decode_text_fits dom by blast
      show ?thesis using floors.combine_total [OF b v] True Inr assms(4) by (auto simp: row_effect_def)
    qed (use refl in \<open>simp add: row_effect_def\<close>)
  qed (use refl in simp)
  then show ?thesis using refl
    by (auto simp: effective_value_def Let_def split: option.splits scope.splits)
qed

text \<open>
  C14: resolving the settings of a request never fails because of an override row, and gives
  every declared key exactly the value of the specification: deployment-scope keys take no
  row, a workspace key takes its workspace row only, a member key its member row only, a row
  that does not decode is ignored, and a floored row is combined with the deployment value.
\<close>

theorem resolve_effective:
  assumes "specs_ok r" and "deployment_layer r p files environ = Inr dep"
    and "os_workspace src wid = Inr wrows" and "distinct (map fst wrows)"
    and "case aid of None \<Rightarrow> mrows = None
      | Some a \<Rightarrow> \<exists>m. os_member src wid a = Inr m \<and> distinct (map fst m) \<and> mrows = Some m"
  shows "\<exists>vals log. resolve r (deployment_layer r p files environ) (Some wid) aid (Some src) = Inr (vals, log)
     \<and> (\<forall>k s. lookup r k = Some s \<longrightarrow> map_of vals k = Some (effective_value dep wrows mrows s))"
  by (rule resolve_spec [OF assms])

text \<open>
  C15: the floor holds on every read. Whatever the override rows say and however they got
  there, the resolved value of a floored key is not looser than the deployment's value.
\<close>

theorem resolved_value_respects_floor:
  assumes "specs_ok r" and "deployment_layer r p files environ = Inr dep"
    and "os_workspace src wid = Inr wrows" and "distinct (map fst wrows)"
    and "case aid of None \<Rightarrow> mrows = None
      | Some a \<Rightarrow> \<exists>m. os_member src wid a = Inr m \<and> distinct (map fst m) \<and> mrows = Some m"
    and "lookup r k = Some s" and "ks_floor s = Some f"
  shows "\<exists>vals log v. resolve r (deployment_layer r p files environ) (Some wid) aid (Some src) = Inr (vals, log)
     \<and> map_of vals k = Some v \<and> is_looser f (base_value dep s) v = Inr False"
  using resolve_spec [OF assms(1-5)] assms(6)
    effective_value_bounded [OF assms(1) deployment_layer_fits [OF assms(1,2)] assms(6,7)]
  by blast

lemma check_value_thawed: "fits s v \<Longrightarrow> check_value s (thaw_value v) source = Inr v"
  by (cases "ks_type s"; cases v)
    (auto simp: check_value_def fits_def thaw_value_def freeze_value_def is_plist_def split: option.splits)

lemma validate_override_InrD:
  assumes "spec_ok s" and "lookup r k = Some s" and "fits s base"
    and "validate_override r k v (thaw_value base) sc = Inr (Accepted a)"
  shows "sc \<noteq> Deployment" and "ks_scope s = sc" and "fits s (sa_value a)"
    and "encode_text s (sa_value a) = Inr (sa_encoded a)"
    and "ks_floor s = Some f \<Longrightarrow> is_looser f base (sa_value a) = Inr False"
proof -
  have g: "sc \<noteq> Deployment \<and> ks_scope s = sc \<and> matches_type (ks_type s) v
      \<and> \<not> (case ks_choices s of None \<Rightarrow> False | Some cs \<Rightarrow> \<not> in_choices v cs)"
    using assms(2,4) by (auto simp: validate_override_def refuse_def split: if_splits)
  then obtain w where w: "freeze_value v = Inr w" using freeze_value_total by blast
  have fw: "fits s w"
    using g by (simp add: freeze_fits [OF w] split: option.splits)
  have r: "sa_value a = w \<and> encode_text s w = Inr (sa_encoded a)
     \<and> (\<forall>f. ks_floor s = Some f \<longrightarrow> is_looser f base w = Inr False)"
    using assms(2,4) g w check_value_thawed [OF assms(3)]
    by (auto simp: validate_override_def refuse_def split: option.splits if_splits)
  show "sc \<noteq> Deployment" "ks_scope s = sc" using g by auto
  show "fits s (sa_value a)" "encode_text s (sa_value a) = Inr (sa_encoded a)" using r fw by auto
  show "ks_floor s = Some f \<Longrightarrow> is_looser f base (sa_value a) = Inr False" using r by auto
qed

lemma row_effect_accepted:
  assumes "spec_ok s" and "lookup r k = Some s" and "fits s base"
    and "validate_override r k v (thaw_value base) sc = Inr (Accepted a)" and "text_safe s (sa_value a)"
  shows "same_value (row_effect s sc (sa_encoded a) base) (sa_value a)
     \<and> (ks_floor s = None \<longrightarrow> row_effect s sc (sa_encoded a) base = sa_value a)"
proof -
  note acc = validate_override_InrD [OF assms(1-4)]
  have d: "decode_text s (sa_encoded a) src = Inr (sa_value a)" for src
    using encode_decode [OF assms(5), of src] acc(4) by simp
  have "same_value x x" for x by (cases x) (auto simp: same_value_def)
  then show ?thesis
    using floors.combine_accepted floors.combine_total acc d fits_floor_dom [OF assms(1)] assms(3)
    by (fastforce simp: row_effect_def split: option.splits sum.splits)
qed

lemma stored_override_resolves:
  assumes "specs_ok r" and "deployment_layer r p files environ = Inr dep"
    and "lookup r k = Some s"
    and "validate_override r k v (thaw_value (base_value dep s)) Workspace = Inr (Accepted a)"
    and "text_safe s (sa_value a)"
    and "distinct (map fst rows)" and "map_of rows k = Some (sa_encoded a)" and "os_workspace src wid = Inr rows"
  shows "\<exists>vals log w. resolve r (deployment_layer r p files environ) (Some wid) None (Some src) = Inr (vals, log)
     \<and> map_of vals k = Some w \<and> same_value w (sa_value a) \<and> (ks_floor s = None \<longrightarrow> w = sa_value a)"
proof -
  have s: "spec_ok s" "ks_key s = k" using assms lookup_ok by blast+
  have b: "fits s (base_value dep s)"
    using base_value_fits deployment_layer_fits assms(1-3) by blast
  have "ks_scope s = Workspace" using validate_override_InrD(2) [OF s(1) assms(3) b assms(4)] .
  then have "effective_value dep rows None s =
      row_effect s Workspace (sa_encoded a) (base_value dep s)"
    using s assms(7) by (simp add: effective_value_def)
  then show ?thesis
    using resolve_spec [OF assms(1,2,8,6), of None None] assms(3)
      row_effect_accepted [OF s(1) assms(3) b assms(4,5)] by auto
qed

text \<open>
  An override the write path accepts against the deployment's value, stored in its text
  form, is the value the next request resolves (up to the order of a list), for the vals
  whose text form is lossless.
\<close>

theorem accepted_override_takes_effect:
  assumes "specs_ok r" and "deployment_layer r p files environ = Inr dep"
    and "lookup r k = Some s"
    and "validate_override r k v (thaw_value (base_value dep s)) Workspace = Inr (Accepted a)"
    and "text_safe s (sa_value a)"
    and "distinct (map fst rows)" and "os_workspace src wid = Inr (dict_set k (sa_encoded a) rows)"
  shows "\<exists>vals log w. resolve r (deployment_layer r p files environ) (Some wid) None (Some src) = Inr (vals, log)
     \<and> map_of vals k = Some w \<and> same_value w (sa_value a)"
  using stored_override_resolves [OF assms(1-5) distinct_dict_set [OF assms(6)] _ assms(7)] by auto

text \<open>
  The write path never raises for a declared key whose deployment value fits it: it
  accepts exactly the overrides of the key's own scope whose value has the declared type and
  choices and is not looser than the deployment's value, and refuses the others with one of
  its four states.
\<close>

theorem validate_override_decides:
  assumes "specs_ok r" and "\<And>s. lookup r k = Some s \<Longrightarrow> fits s base"
  shows "\<exists>out. validate_override r k v (thaw_value base) sc = Inr out \<and>
     (case out of
        Accepted a \<Rightarrow> sa_key a = k \<and> (\<exists>s w. lookup r k = Some s \<and> ks_scope s = sc \<and> sc \<noteq> Deployment
          \<and> freeze_value v = Inr w \<and> sa_value a = w \<and> fits s w \<and> sa_type a = ks_type s
          \<and> (case ks_floor s of None \<Rightarrow> True | Some f \<Rightarrow> is_looser f base w = Inr False))
      | Refused x \<Rightarrow> sf_key x = k \<and> sf_state x = (case lookup r k of
          None \<Rightarrow> ''setting_undeclared''
        | Some s \<Rightarrow> if sc = Deployment \<or> ks_scope s \<noteq> sc then ''setting_scope''
            else if \<not> (\<exists>w. freeze_value v = Inr w \<and> fits s w) then ''setting_type''
            else ''setting_floor_violation''))"
proof (cases "lookup r k")
  case None
  then show ?thesis by (simp add: validate_override_def refuse_def)
next
  case (Some s)
  have s: "spec_ok s" and b: "fits s base" using assms Some lookup_ok by blast+
  show ?thesis
  proof (cases "sc = Deployment \<or> ks_scope s \<noteq> sc")
    case True
    then show ?thesis using Some by (auto simp: validate_override_def refuse_def)
  next
    case scope: False
    have ty: "(\<exists>w. freeze_value v = Inr w \<and> fits s w) \<longleftrightarrow> matches_type (ks_type s) v
        \<and> (case ks_choices s of None \<Rightarrow> True | Some cs \<Rightarrow> in_choices v cs)"
      using freeze_value_total [of "ks_type s" v] freeze_fits [of v _ s] by blast
    show ?thesis
    proof (cases "\<exists>w. freeze_value v = Inr w \<and> fits s w")
      case False
      then show ?thesis using Some scope ty
        by (auto simp: validate_override_def refuse_def split: option.splits)
    next
      case True
      then obtain w where w: "freeze_value v = Inr w" "fits s w" by blast
      have m: "matches_type (ks_type s) v" "\<not> (case ks_choices s of None \<Rightarrow> False | Some cs \<Rightarrow> \<not> in_choices v cs)"
        using ty True by (auto split: option.splits)
      obtain enc where enc: "encode_text s w = Inr enc"
        using encode_text_total [OF w(2)] by blast
      show ?thesis
      proof (cases "ks_floor s")
        case None
        then show ?thesis using Some scope w m enc by (simp add: validate_override_def)
      next
        case (Some f)
        obtain l where "is_looser f base w = Inr l"
          using floors.looser_total fits_floor_dom [OF s Some] b w(2) by blast
        then show ?thesis using Some \<open>lookup r k = Some s\<close> scope w m enc check_value_thawed [OF b]
          by (cases l) (auto simp: validate_override_def refuse_def)
      qed
    qed
  qed
qed

section \<open>The theorems at concrete settings\<close>

text \<open>The deployment file holds \<open>a.max = 30\<close>; the workspace's row says 45.\<close>

definition sample_files :: "string \<Rightarrow> (string \<times> toml) list result option" where
  "sample_files path = Some (Inr [(''a'', TTable [(''max'', TValue (PInt 30))])])"

definition sample_source :: "string \<Rightarrow> override_source" where
  "sample_source text = \<lparr>os_workspace = (\<lambda>_. Inr [(''a.max'', text)]), os_member = (\<lambda>_ _. Inr [])\<rparr>"

lemma sample_layer:
  "deployment_layer sample_registry (Inr ''/d'') sample_files [] = Inr [(''a.max'', PInt 30)]"
  by code_simp

lemma sample_lookup: "lookup sample_registry ''a.max'' = Some sample_key"
  by (simp add: lookup_def sample_registry_def)

lemma sample_base: "base_value [(''a.max'', PInt 30)] sample_key = PInt 30"
  by (simp add: base_value_def sample_key_def key_spec.make_def)

lemma sample_effective:
  "effective_value [(''a.max'', PInt 30)] [(''a.max'', ''45'')] None sample_key = PInt 30"
  by code_simp

lemma sample_accepted:
  "validate_override sample_registry ''a.max'' (PInt 7) (thaw_value (PInt 30)) Workspace =
     Inr (Accepted \<lparr>sa_key = ''a.max'', sa_value = PInt 7, sa_encoded = ''7'', sa_type = TInt\<rparr>)"
  by code_simp

lemma sample_floor: "ks_floor sample_key = Some Floor_Min"
  by (simp add: sample_key_def key_spec.make_def)

lemma sample_safe: "text_safe sample_key (PInt 7)"
  by (simp add: text_safe_def fits_def is_plist_def sample_key_def key_spec.make_def)

lemma resolve_effective_witness:
  "\<exists>vals log. resolve sample_registry (deployment_layer sample_registry (Inr ''/d'') sample_files [])
       (Some 5) None (Some (sample_source ''45'')) = Inr (vals, log)
     \<and> map_of vals ''a.max'' = Some (PInt 30)"
  using resolve_effective [OF sample_registry_ok(2) sample_layer,
      of "sample_source ''45''" 5 "[(''a.max'', ''45'')]" None None]
    sample_lookup sample_effective
  by (fastforce simp: sample_source_def)

lemma resolved_value_respects_floor_witness:
  "\<exists>vals log v. resolve sample_registry (deployment_layer sample_registry (Inr ''/d'') sample_files [])
       (Some 5) (Some 6) (Some (sample_source ''45'')) = Inr (vals, log)
     \<and> map_of vals ''a.max'' = Some v \<and> is_looser Floor_Min (PInt 30) v = Inr False"
  using resolved_value_respects_floor [OF sample_registry_ok(2) sample_layer _ _ _ sample_lookup sample_floor,
      where src = "sample_source ''45''" and wid = 5 and wrows = "[(''a.max'', ''45'')]"
      and aid = "Some 6" and mrows = "Some []"]
  by (simp add: sample_source_def sample_base)

lemma accepted_override_takes_effect_witness:
  "\<exists>vals log w. resolve sample_registry (deployment_layer sample_registry (Inr ''/d'') sample_files [])
       (Some 5) None (Some (sample_source ''7'')) = Inr (vals, log)
     \<and> map_of vals ''a.max'' = Some w \<and> same_value w (PInt 7)"
  using accepted_override_takes_effect [OF sample_registry_ok(2) sample_layer sample_lookup,
      of "PInt 7" "\<lparr>sa_key = ''a.max'', sa_value = PInt 7, sa_encoded = ''7'', sa_type = TInt\<rparr>"
      "[]" "sample_source ''7''" 5]
    sample_accepted sample_safe
  by (simp add: sample_source_def sample_base)

lemma validate_override_decides_witness:
  "\<exists>x. validate_override sample_registry ''a.max'' (PInt 45) (thaw_value (PInt 30)) Workspace = Inr (Refused x)
     \<and> sf_state x = ''setting_floor_violation''"
proof -
  have fit: "fits s (PInt 30)" if "lookup sample_registry ''a.max'' = Some s" for s
  proof -
    have "s = sample_key" using that by (simp add: sample_lookup)
    then show ?thesis by (simp add: fits_def is_plist_def sample_key_def key_spec.make_def)
  qed
  obtain out where out: "validate_override sample_registry ''a.max'' (PInt 45) (thaw_value (PInt 30)) Workspace = Inr out"
    and spec: "case out of
        Accepted a \<Rightarrow> sa_key a = ''a.max'' \<and> (\<exists>s w. lookup sample_registry ''a.max'' = Some s
          \<and> ks_scope s = Workspace \<and> Workspace \<noteq> Deployment
          \<and> freeze_value (PInt 45) = Inr w \<and> sa_value a = w \<and> fits s w \<and> sa_type a = ks_type s
          \<and> (case ks_floor s of None \<Rightarrow> True | Some f \<Rightarrow> is_looser f (PInt 30) w = Inr False))
      | Refused x \<Rightarrow> sf_key x = ''a.max'' \<and> sf_state x = (case lookup sample_registry ''a.max'' of
          None \<Rightarrow> ''setting_undeclared''
        | Some s \<Rightarrow> if Workspace = Deployment \<or> ks_scope s \<noteq> Workspace then ''setting_scope''
            else if \<not> (\<exists>w. freeze_value (PInt 45) = Inr w \<and> fits s w) then ''setting_type''
            else ''setting_floor_violation'')"
    using validate_override_decides [where r = sample_registry and k = "''a.max''"
        and base = "PInt 30" and v = "PInt 45" and sc = Workspace, OF sample_registry_ok(2)] fit
    by blast
  have "ks_scope sample_key = Workspace" "fits sample_key (PInt 45)" "freeze_value (PInt 45) = Inr (PInt 45)"
    by (simp_all add: sample_key_def key_spec.make_def fits_def is_plist_def freeze_value_def)
  then show ?thesis using out spec
    by (cases out) (auto simp: sample_lookup sample_floor)
qed

end
