(* ===== verification/Provisioning.thy ===== *)
theory Provisioning
  imports Storage_Pool Settings_Resolver
begin

text \<open>
  \<open>rheo_core/storage/provisioning.py\<close> and \<open>rheo_core/migrations/orchestrator.py\<close>: the
  provisioning state machine with its two entry points, the run of a migration chain and the
  migration of workspaces.

  The cluster is the control plane with the workspace databases by name. Every step commits
  what it did, so an exception comes with the cluster the commits left. Alembic, the template
  database and the installed distribution are outside the repository: they are fields of
  \<open>storage_env\<close>. The engine pool decides no database (theorem \<open>routing_is_by_workspace\<close>), so
  an engine is the name it is for.
\<close>

record cluster =
  cl_control :: control_db
  cl_databases :: "(string \<times> workspace_db) list"

record storage_env =
  se_core_version :: string
  se_known :: "string list"
  se_upgrade :: "workspace_db \<Rightarrow> workspace_db result"
  se_create :: "string \<Rightarrow> workspace_db result"
  se_registry :: settings_registry
  se_profile :: "string result"
  se_now :: datetime

text \<open>\<open>with control_engine.begin()\<close>: committed when the block ends, rolled back when it raises.\<close>

definition control_tx :: "(control_db \<Rightarrow> ('a \<times> control_db) result) \<Rightarrow> (cluster, 'a) action" where
  "control_tx f c = (case f (cl_control c) of
       Inl e \<Rightarrow> (Inl e, c)
     | Inr (x, db) \<Rightarrow> (Inr x, c\<lparr>cl_control := db\<rparr>))"

text \<open>A unit of work on a workspace database whose block ends with \<open>commit()\<close>.\<close>

definition workspace_tx :: "string \<Rightarrow> (workspace_db \<Rightarrow> ('a \<times> workspace_db) result) \<Rightarrow> (cluster, 'a) action" where
  "workspace_tx name f c = (case check_database_name name of
       Inl e \<Rightarrow> (Inl e, c)
     | Inr n \<Rightarrow> (case map_of (cl_databases c) n of
           None \<Rightarrow> (Inl (OtherException ''OperationalError''
             (''database '' @ py_repr n @ '' does not exist'')), c)
         | Some wd \<Rightarrow> (case f wd of
               Inl e \<Rightarrow> (Inl e, c)
             | Inr (x, wd') \<Rightarrow> (Inr x, c\<lparr>cl_databases := dict_set n wd' (cl_databases c)\<rparr>))))"

section \<open>Running a chain\<close>

definition control_chain :: string where
  "control_chain = ''control''"

definition core_chain :: string where
  "core_chain = ''core''"

text \<open>
  \<open>recorded\<close> is the chain's version table, \<open>known\<close> the revisions of the running code, and
  \<open>upgrade\<close> Alembic's upgrade to head. The connection is inside a transaction.
\<close>

definition run_chain :: "string \<Rightarrow> string \<Rightarrow> string \<Rightarrow> ('d \<Rightarrow> string list) \<Rightarrow> string list
    \<Rightarrow> ('d \<Rightarrow> 'd) \<Rightarrow> ('d \<Rightarrow> 'd result) \<Rightarrow> 'd \<Rightarrow> 'd result" where
  "run_chain chain actual expected recorded known create_schema upgrade db =
     ensure (chain \<in> {control_chain, core_chain})
       (ValueError (''unknown migration chain '' @ py_repr chain @ ''; expected one of ''
          @ value_repr (PTuple [PStr control_chain, PStr core_chain])))
     (ensure (actual = expected)
       (StorageRefusal ''database_mismatch'' (''migration intended for database '' @ py_repr expected
          @ '' but the connection is to '' @ py_repr actual @ ''; nothing was upgraded'') None)
     (let db' = create_schema db;
          ahead = filter (\<lambda>r. r \<notin> set known) (remdups (recorded db'))
      in ensure (ahead = [])
           (StorageRefusal ''schema_ahead'' (''database '' @ py_repr expected @ '' records '' @ chain
              @ '' revision(s) '' @ py_repr_list (sort ahead) @ '' that this code does not know'') None)
         (upgrade db')))"

definition run_core_chain :: "storage_env \<Rightarrow> string \<Rightarrow> string \<Rightarrow> workspace_db \<Rightarrow> workspace_db result" where
  "run_core_chain env actual expected =
     run_chain core_chain actual expected wd_revisions (se_known env)
       (\<lambda>wd. wd\<lparr>wd_schema := True\<rparr>) (se_upgrade env)"

section \<open>Provisioning\<close>

definition step_insert :: string where "step_insert = ''insert_registry_row''"
definition step_create :: string where "step_create = ''create_database''"
definition step_migrate :: string where "step_migrate = ''migrate_core''"
definition step_settings :: string where "step_settings = ''write_default_settings''"
definition step_activate :: string where "step_activate = ''activate''"

definition provision_steps :: "string list" where
  "provision_steps = [step_insert, step_create, step_migrate, step_settings, step_activate]"

definition database_name_for :: "uuid \<Rightarrow> string" where
  "database_name_for w = ''ws_'' @ uuid_hex w"

text \<open>\<open>[a-z0-9](?:[a-z0-9-]{0,62})\<close>.\<close>

fun slug_shape :: "string \<Rightarrow> bool" where
  "slug_shape [] = False"
| "slug_shape (c # cs) = ((is_lower c \<or> is_digit c)
     \<and> list_all (\<lambda>x. is_lower x \<or> is_digit x \<or> x = CHR ''-'') cs \<and> length cs \<le> 62)"

definition slug_for :: "uuid \<Rightarrow> string option \<Rightarrow> string result" where
  "slug_for w slug = (case slug of
       None \<Rightarrow> Inr (uuid_str w)
     | Some s \<Rightarrow> ensure (slug_shape s)
         (ValueError ''a slug is lowercase letters, digits and hyphens, at most 63 characters'') (Inr s))"

type_synonym after_step = "string \<Rightarrow> (cluster, unit) action"

definition check_after_step :: "storage_env \<Rightarrow> after_step option \<Rightarrow> unit result" where
  "check_after_step env after_step = (case after_step of
       None \<Rightarrow> Inr ()
     | Some _ \<Rightarrow> rbind (se_profile env) (\<lambda>profile.
         ensure (profile = ''test'') (ValueError (''after_step is the test-profile fault-injection seam; ''
           @ ''the resolved profile is '' @ py_repr profile)) (Inr ())))"

definition registry_row :: "uuid \<Rightarrow> (cluster, workspace_row) action" where
  "registry_row w c = (case get_workspace w (cl_control c) of
       None \<Rightarrow> (Inl (workspace_missing w '' has no row''), c)
     | Some row \<Rightarrow> (Inr row, c))"

definition record_step :: "storage_env \<Rightarrow> uuid \<Rightarrow> string \<Rightarrow> (cluster, unit) action" where
  "record_step env w step = control_tx (set_workspace_state (se_now env) w Provisioning (Some step)
     (Some [Provisioning, Unavailable]))"

definition workspace_exists :: "string \<Rightarrow> py_exc" where
  "workspace_exists detail = StorageRefusal ''workspace_exists'' detail None"

definition run_step_insert :: "storage_env \<Rightarrow> uuid \<Rightarrow> uuid option \<Rightarrow> string option \<Rightarrow> (cluster, unit) action" where
  "run_step_insert env w owner slug = (case (owner, slug) of
       (Some account, Some s) \<Rightarrow> control_tx (\<lambda>db.
         rbind (insert_workspace_if_absent (se_now env) w s s (database_name_for w) step_insert db)
           (\<lambda>((row, inserted), db').
         if ws_state row \<noteq> Provisioning then
           Inl (workspace_exists (''workspace '' @ uuid_str w @ '' already exists in state ''
             @ state_value (ws_state row)))
         else if inserted then
           rbind (insert_membership_if_absent (se_now env) account w Role_Owner db')
             (\<lambda>(_, db''). Inr ((), db''))
         else (case get_membership account w db' of
             Some existing \<Rightarrow> if mb_role existing = Role_Owner then Inr ((), db')
               else Inl (workspace_exists (''workspace '' @ uuid_str w
                 @ '' is being provisioned for a different owner''))
           | None \<Rightarrow> Inl (workspace_exists (''workspace '' @ uuid_str w
                 @ '' is being provisioned for a different owner'')))))
     | _ \<Rightarrow> act_raise (ValueError ''step 1 needs the owner account and the slug''))"

text \<open>\<open>PostgresBackend.ensure_database\<close>; \<open>se_create\<close> is \<open>CREATE DATABASE ... TEMPLATE\<close>.\<close>

definition ensure_database :: "storage_env \<Rightarrow> string \<Rightarrow> (cluster, bool) action" where
  "ensure_database env name c = (case check_database_name name of
       Inl e \<Rightarrow> (Inl e, c)
     | Inr n \<Rightarrow>
         if n \<in> set (map fst (cl_databases c)) then (Inr False, c)
         else (case se_create env n of
             Inl e \<Rightarrow> (Inl e, c)
           | Inr wd \<Rightarrow> (Inr True, c\<lparr>cl_databases := dict_set n wd (cl_databases c)\<rparr>)))"

definition run_step_create :: "storage_env \<Rightarrow> uuid \<Rightarrow> (cluster, unit) action" where
  "run_step_create env w =
     act_bind (registry_row w) (\<lambda>row.
     act_bind (ensure_database env (ws_database_name row)) (\<lambda>created.
     act_bind (if created then act_return ()
       else act_bind (registry_row w) (\<lambda>again.
         if ws_state again \<noteq> Provisioning
         then act_raise (workspace_exists (''database '' @ py_repr (ws_database_name row)
                @ '' exists and the workspace is not being provisioned''))
         else act_return ())) (\<lambda>_.
     record_step env w step_create)))"

definition contract_version :: int where
  "contract_version = 1"

definition run_step_migrate :: "storage_env \<Rightarrow> uuid \<Rightarrow> (cluster, unit) action" where
  "run_step_migrate env w =
     act_bind (registry_row w) (\<lambda>row.
     act_bind (workspace_tx (ws_database_name row) (\<lambda>wd.
         rbind (run_core_chain env (ws_database_name row) (ws_database_name row) wd) (\<lambda>wd'.
         Inr (write_composition (se_now env) (se_core_version env) contract_version wd')))) (\<lambda>_.
     record_step env w step_migrate))"

definition write_default :: "storage_env \<Rightarrow> key_spec \<Rightarrow> workspace_db \<Rightarrow> workspace_db result" where
  "write_default env spec wd =
     rbind (encode_text spec (ks_default spec)) (\<lambda>text.
     Inr (snd (insert_workspace_setting_if_absent (se_now env) (ks_key spec) text (ks_type spec) None wd)))"

definition run_step_settings :: "storage_env \<Rightarrow> uuid \<Rightarrow> (cluster, unit) action" where
  "run_step_settings env w =
     act_bind (registry_row w) (\<lambda>row.
     act_bind (workspace_tx (ws_database_name row) (\<lambda>wd.
         rbind (rfold (write_default env) (explicit_per_workspace (se_registry env)) wd) (\<lambda>wd'.
         Inr ((), wd')))) (\<lambda>_.
     record_step env w step_settings))"

definition run_step_activate :: "storage_env \<Rightarrow> uuid \<Rightarrow> (cluster, unit) action" where
  "run_step_activate env w = control_tx (set_workspace_state (se_now env) w Active (Some step_activate)
     (Some [Provisioning]))"

definition run_step :: "storage_env \<Rightarrow> uuid \<Rightarrow> uuid option \<Rightarrow> string option \<Rightarrow> string \<Rightarrow> (cluster, unit) action" where
  "run_step env w owner slug step =
     (if step = step_insert then run_step_insert env w owner slug
      else if step = step_create then run_step_create env w
      else if step = step_migrate then run_step_migrate env w
      else if step = step_settings then run_step_settings env w
      else if step = step_activate then run_step_activate env w
      else act_raise (ValueError (''unknown provisioning step '' @ py_repr step)))"

fun walk :: "storage_env \<Rightarrow> uuid \<Rightarrow> after_step option \<Rightarrow> uuid option \<Rightarrow> string option \<Rightarrow> string list
    \<Rightarrow> (cluster, unit) action" where
  "walk env w after_step owner slug [] = act_return ()"
| "walk env w after_step owner slug (step # steps) =
     act_bind (run_step env w owner slug step) (\<lambda>_.
     act_bind (case after_step of None \<Rightarrow> act_return () | Some f \<Rightarrow> f step) (\<lambda>_.
     walk env w after_step owner slug steps))"

definition lift_result :: "'a result \<Rightarrow> ('s, 'a) action" where
  "lift_result r = (case r of Inl e \<Rightarrow> act_raise e | Inr x \<Rightarrow> act_return x)"

definition provision :: "storage_env \<Rightarrow> uuid \<Rightarrow> uuid \<Rightarrow> string option \<Rightarrow> after_step option
    \<Rightarrow> (cluster, unit) action" where
  "provision env w owner slug after_step =
     act_bind (lift_result (check_after_step env after_step)) (\<lambda>_.
     act_bind (lift_result (slug_for w slug)) (\<lambda>s.
     walk env w after_step (Some owner) (Some s) provision_steps))"

definition steps_after :: "string \<Rightarrow> string list" where
  "steps_after step = tl (dropWhile (\<lambda>s. s \<noteq> step) provision_steps)"

definition remaining_after :: "string option \<Rightarrow> string list" where
  "remaining_after detail = (case detail of
       Some d \<Rightarrow> if d \<in> set provision_steps then steps_after d else tl provision_steps
     | None \<Rightarrow> tl provision_steps)"

definition repair :: "storage_env \<Rightarrow> uuid \<Rightarrow> (cluster, unit) action" where
  "repair env w =
     act_bind (registry_row w) (\<lambda>row.
     if ws_state row = Active then act_return ()
     else if ws_state row = Provisioning
       then walk env w None None None (remaining_after (ws_state_detail row))
     else if ws_state row = Unavailable
       then walk env w None None None (dropWhile (\<lambda>s. s \<noteq> step_migrate) provision_steps)
     else act_raise (StorageRefusal ''workspace_state''
       (''workspace '' @ uuid_str w @ '' is '' @ state_value (ws_state row)
          @ ''; repair resumes only provisioning or unavailable workspaces'')
       (Some (state_value (ws_state row)))))"

section \<open>Migrating workspaces\<close>

record migration_result =
  mr_workspace_id :: "uuid option"
  mr_database_name :: string
  mr_chain :: string
  mr_ok :: bool
  mr_detail :: "string option"

text \<open>\<open>_error_text\<close>: the class and text of an exception, cut to 2000 characters.\<close>

fun exception_text :: "py_exc \<Rightarrow> string" where
  "exception_text (TypeError d) = ''TypeError: '' @ d"
| "exception_text (ValueError d) = ''ValueError: '' @ d"
| "exception_text (RuntimeError d) = ''RuntimeError: '' @ d"
| "exception_text (NotImplementedError d) = ''NotImplementedError: '' @ d"
| "exception_text AssertionError = ''AssertionError: ''"
| "exception_text (OverflowError d) = ''OverflowError: '' @ d"
| "exception_text (IntegrityError v n) = (case v of UniqueViolation \<Rightarrow> ''UniqueViolation: ''
     | ForeignKeyViolation \<Rightarrow> ''ForeignKeyViolation: '' | CheckViolation \<Rightarrow> ''CheckViolation: '') @ n"
| "exception_text (SettingsError st d k) = ''SettingsError: '' @ d"
| "exception_text (StorageRefusal st d w) = ''StorageRefusal: '' @ st @ '': '' @ d"
| "exception_text (OperationRefused st d) = ''OperationRefused: '' @ st"
| "exception_text (RegistrationRefused st d) = ''RegistrationRefused: '' @ d"
| "exception_text (SecretRefusal st d) = ''SecretRefusal: '' @ d"
| "exception_text (DataRootRefusal st d) = ''DataRootRefusal: '' @ d"
| "exception_text (RecordRefMalformed v) = ''RecordRefMalformed: '' @ v"
| "exception_text (OtherException c t) = c @ '': '' @ t"

definition error_text :: "py_exc \<Rightarrow> string" where
  "error_text e = take 2000 (exception_text e)"

fun check_workspace_chains :: "string list \<Rightarrow> unit result" where
  "check_workspace_chains [] = Inr ()"
| "check_workspace_chains (chain # rest) =
     (if chain = core_chain then check_workspace_chains rest
      else if chain = control_chain
        then Inl (ValueError ''the control chain does not run on a workspace database'')
      else Inl (NotImplementedError (''module migration chain '' @ py_repr chain
             @ '' is phase 2; only 'core' runs per workspace'')))"

definition migration_detail :: "py_exc \<Rightarrow> string" where
  "migration_detail e = (case e of
       StorageRefusal st _ _ \<Rightarrow> if st = ''schema_ahead'' then ''schema_ahead'' else error_text e
     | _ \<Rightarrow> error_text e)"

definition migrate_workspace :: "storage_env \<Rightarrow> string list \<Rightarrow> uuid \<Rightarrow> (cluster, migration_result) action" where
  "migrate_workspace env chs w =
     act_bind (lift_result (check_workspace_chains chs)) (\<lambda>_.
     act_bind (registry_row w) (\<lambda>row.
     act_bind (lift_result (check_database_name (ws_database_name row))) (\<lambda>name. \<lambda>c.
     (case workspace_tx name (\<lambda>wd.
          rbind (rfold (\<lambda>chain. run_core_chain env name (ws_database_name row)) chs wd) (\<lambda>wd'. Inr ((), wd'))) c of
        (Inr _, c') \<Rightarrow> (Inr \<lparr>mr_workspace_id = Some (ws_id row), mr_database_name = ws_database_name row,
            mr_chain = core_chain, mr_ok = True, mr_detail = None\<rparr>, c')
      | (Inl e, c') \<Rightarrow>
          act_bind (control_tx (set_workspace_state (se_now env) w Unavailable (Some (migration_detail e)) None))
            (\<lambda>_. act_return \<lparr>mr_workspace_id = Some (ws_id row), mr_database_name = ws_database_name row,
                mr_chain = core_chain, mr_ok = False, mr_detail = Some (migration_detail e)\<rparr>) c'))))"

fun migrate_rows :: "storage_env \<Rightarrow> workspace_row list \<Rightarrow> (cluster, migration_result list) action" where
  "migrate_rows env [] = act_return []"
| "migrate_rows env (row # rows) =
     act_bind (migrate_workspace env [core_chain] (ws_id row)) (\<lambda>r.
     act_bind (migrate_rows env rows) (\<lambda>rs. act_return (r # rs)))"

definition migrate_active_workspaces :: "storage_env \<Rightarrow> (cluster, migration_result list) action" where
  "migrate_active_workspaces env c =
     migrate_rows env (list_workspaces (Some Active) (cl_control c)) c"

section \<open>How far a walk has come\<close>

text \<open>What the code relies on from Alembic and from the template database.\<close>

definition upgrade_works :: "storage_env \<Rightarrow> bool" where
  "upgrade_works env = (\<forall>wd. set (wd_revisions wd) \<subseteq> set (se_known env) \<longrightarrow>
     (\<exists>wd'. se_upgrade env wd = Inr wd' \<and> set (wd_revisions wd') \<subseteq> set (se_known env)
        \<and> wd_settings wd' = wd_settings wd))"

definition create_works :: "storage_env \<Rightarrow> bool" where
  "create_works env = (\<forall>name. \<exists>wd. se_create env name = Inr wd
     \<and> set (wd_revisions wd) \<subseteq> set (se_known env))"

definition env_works :: "storage_env \<Rightarrow> bool" where
  "env_works env = (upgrade_works env \<and> create_works env \<and> specs_ok (se_registry env))"

definition composed :: "storage_env \<Rightarrow> workspace_db \<Rightarrow> bool" where
  "composed env wd = (\<exists>row. wd_composition wd = Some row \<and> cp_core_version row = se_core_version env
     \<and> cp_core_contract_version row = contract_version)"

definition defaults_written :: "storage_env \<Rightarrow> workspace_db \<Rightarrow> bool" where
  "defaults_written env wd =
     (ks_key ` set (explicit_per_workspace (se_registry env)) \<subseteq> set (map wset_key (wd_settings wd)))"

text \<open>
  The last completed step is number \<open>k\<close>. A database that already exists is one the running
  code knows the revisions of. \<open>ms\<close> are the memberships, which no later step touches.
\<close>

definition reached :: "storage_env \<Rightarrow> uuid \<Rightarrow> membership_row list \<Rightarrow> nat \<Rightarrow> cluster \<Rightarrow> bool" where
  "reached env w ms k c = (control_ok (cl_control c) \<and> db_memberships (cl_control c) = ms
     \<and> (\<exists>row. get_workspace w (cl_control c) = Some row
          \<and> ws_state row = (if k = 4 then Active else Provisioning)
          \<and> ws_state_detail row = Some (provision_steps ! k)
          \<and> ws_database_name row = database_name_for w)
     \<and> (case map_of (cl_databases c) (database_name_for w) of
          None \<Rightarrow> k = 0
        | Some wd \<Rightarrow> set (wd_revisions wd) \<subseteq> set (se_known env)
            \<and> (2 \<le> k \<longrightarrow> composed env wd) \<and> (3 \<le> k \<longrightarrow> defaults_written env wd)))"

lemma database_name_for_ok: "check_database_name (database_name_for w) = Inr (database_name_for w)"
proof -
  have "is_segment_char c" if c: "c \<in> set (uuid_hex w)" for c
  proof -
    obtain d where d: "d < 16" "c = digit_char d" using uuid_hex_chars [OF c] by blast
    then show ?thesis
      by (auto simp: is_segment_char_def is_lower_def is_digit_def less_eq_char_def of_char_digit_char)
  qed
  then show ?thesis
    by (simp add: check_database_name_def database_name_for_def list_all_iff is_lower_def
        is_segment_char_def)
qed

lemma set_state_run:
  assumes "control_ok (cl_control c)" and "get_workspace w (cl_control c) = Some row"
    and "ws_state row \<in> set es"
  shows "\<exists>c'. control_tx (set_workspace_state now w st det (Some es)) c = (Inr (), c')
    \<and> control_ok (cl_control c') \<and> cl_databases c' = cl_databases c
    \<and> db_memberships (cl_control c') = db_memberships (cl_control c)
    \<and> get_workspace w (cl_control c') =
        Some (row\<lparr>ws_state := st, ws_state_detail := det, ws_state_changed_at := now\<rparr>)"
proof -
  let ?p = "\<lambda>r. ws_id r = w \<and> (case Some es of None \<Rightarrow> True | Some es \<Rightarrow> ws_state r \<in> set es)"
  let ?f = "\<lambda>r::workspace_row. r\<lparr>ws_state := st, ws_state_detail := det, ws_state_changed_at := now\<rparr>"
  let ?db = "(cl_control c)\<lparr>db_workspaces := update_where ?p ?f (db_workspaces (cl_control c))\<rparr>"
  have 1: "set_workspace_state now w st det (Some es) (cl_control c) = Inr ((), ?db)"
    using assms by (simp add: set_workspace_state_eq)
  have 2: "control_ok ?db" by (rule update_workspaces_ok [OF assms(1)]) simp
  have 3: "get_workspace w ?db = Some (?f row)"
    using assms(2,3) by (simp add: get_workspace_updated)
  show ?thesis
    by (rule exI [of _ "c\<lparr>cl_control := ?db\<rparr>"]) (use 1 2 3 in \<open>simp add: control_tx_def\<close>)
qed

lemma record_step_run:
  assumes "control_ok (cl_control c)" and "get_workspace w (cl_control c) = Some row"
    and "ws_state row \<in> {Provisioning, Unavailable}"
  shows "\<exists>c'. record_step env w step c = (Inr (), c')
    \<and> control_ok (cl_control c') \<and> cl_databases c' = cl_databases c
    \<and> db_memberships (cl_control c') = db_memberships (cl_control c)
    \<and> get_workspace w (cl_control c') = Some (row\<lparr>ws_state := Provisioning,
        ws_state_detail := Some step, ws_state_changed_at := se_now env\<rparr>)"
  unfolding record_step_def by (rule set_state_run [OF assms(1,2)]) (use assms(3) in simp)

lemma activate_run:
  assumes "control_ok (cl_control c)" and "get_workspace w (cl_control c) = Some row"
    and "ws_state row = Provisioning"
  shows "\<exists>c'. run_step_activate env w c = (Inr (), c')
    \<and> control_ok (cl_control c') \<and> cl_databases c' = cl_databases c
    \<and> db_memberships (cl_control c') = db_memberships (cl_control c)
    \<and> get_workspace w (cl_control c') = Some (row\<lparr>ws_state := Active,
        ws_state_detail := Some step_activate, ws_state_changed_at := se_now env\<rparr>)"
  unfolding run_step_activate_def by (rule set_state_run [OF assms(1,2)]) (use assms(3) in simp)

lemma upgrade_worksD:
  "env_works env \<Longrightarrow> set (wd_revisions wd) \<subseteq> set (se_known env) \<Longrightarrow>
     \<exists>wd'. se_upgrade env wd = Inr wd' \<and> set (wd_revisions wd') \<subseteq> set (se_known env) \<and> wd_settings wd' = wd_settings wd"
  unfolding env_works_def upgrade_works_def by blast

lemma map_of_dict_set_key [simp]: "map_of (dict_set k v d) k = Some v"
  by simp

lemma write_defaults:
  assumes "specs_ok r" and "\<forall>s \<in> set ss. spec_ok s"
  shows "\<exists>wd'. rfold (write_default env) ss wd = Inr wd'
     \<and> wd_revisions wd' = wd_revisions wd \<and> wd_composition wd' = wd_composition wd
     \<and> set (map wset_key (wd_settings wd')) = set (map wset_key (wd_settings wd)) \<union> ks_key ` set ss"
  using assms(2)
proof (induction ss arbitrary: wd)
  case (Cons s ss)
  then obtain t where t: "encode_text s (ks_default s) = Inr t"
    using encode_text_total spec_ok_default by fastforce
  define u where "u = snd (insert_workspace_setting_if_absent (se_now env) (ks_key s) t (ks_type s) None wd)"
  have u: "write_default env s wd = Inr u" "wd_revisions u = wd_revisions wd"
    "wd_composition u = wd_composition wd"
    "set (map wset_key (wd_settings u)) = insert (ks_key s) (set (map wset_key (wd_settings wd)))"
    using t by (auto simp: write_default_def u_def insert_workspace_setting_if_absent_def)
  obtain wd' where "rfold (write_default env) ss u = Inr wd'"
     "wd_revisions wd' = wd_revisions u" "wd_composition wd' = wd_composition u"
     "set (map wset_key (wd_settings wd')) = set (map wset_key (wd_settings u)) \<union> ks_key ` set ss"
    using Cons.IH [of u] Cons.prems by auto
  then show ?case using u by auto
qed simp

lemma explicit_specs_ok: "specs_ok r \<Longrightarrow> s \<in> set (explicit_per_workspace r) \<Longrightarrow> spec_ok s"
  using specs_lookup [of r s] lookup_ok [of r]
  by (auto simp: explicit_per_workspace_def specs_ok_def)

section \<open>The commits of a walk\<close>

text \<open>
  A step commits at most twice: what it does, and then its record in the registry row. The first
  and the last step are one transaction. \<open>run_step_commits\<close> shows that this is the code's step.
\<close>

definition step_work :: "storage_env \<Rightarrow> uuid \<Rightarrow> uuid option \<Rightarrow> string option \<Rightarrow> string \<Rightarrow> (cluster, unit) action" where
  "step_work env w owner slug step =
     (if step = step_create then
        act_bind (registry_row w) (\<lambda>row.
        act_bind (ensure_database env (ws_database_name row)) (\<lambda>created.
        if created then act_return ()
        else act_bind (registry_row w) (\<lambda>again.
          if ws_state again \<noteq> Provisioning
          then act_raise (workspace_exists (''database '' @ py_repr (ws_database_name row)
                 @ '' exists and the workspace is not being provisioned''))
          else act_return ())))
      else if step = step_migrate then
        act_bind (registry_row w) (\<lambda>row.
        act_bind (workspace_tx (ws_database_name row) (\<lambda>wd.
            rbind (run_core_chain env (ws_database_name row) (ws_database_name row) wd) (\<lambda>wd'.
            Inr (write_composition (se_now env) (se_core_version env) contract_version wd')))) (\<lambda>_. act_return ()))
      else if step = step_settings then
        act_bind (registry_row w) (\<lambda>row.
        workspace_tx (ws_database_name row) (\<lambda>wd.
            rbind (rfold (write_default env) (explicit_per_workspace (se_registry env)) wd) (\<lambda>wd'. Inr ((), wd'))))
      else run_step env w owner slug step)"

definition step_record :: "storage_env \<Rightarrow> uuid \<Rightarrow> string \<Rightarrow> (cluster, unit) action" where
  "step_record env w step =
     (if step \<in> {step_create, step_migrate, step_settings} then record_step env w step else act_return ())"

lemma act_bind_assoc: "act_bind (act_bind m f) g = act_bind m (\<lambda>x. act_bind (f x) g)"
  by (simp add: fun_eq_iff act_bind_def split: prod.splits sum.splits)

lemma act_bind_return [simp]: "act_bind m act_return = m"
  by (simp add: fun_eq_iff act_bind_def split: prod.splits sum.splits)

lemma act_return_bind [simp]: "act_bind (act_return x) f = f x"
  by (simp add: fun_eq_iff act_bind_def)

lemma act_raise_bind [simp]: "act_bind (act_raise e) f = act_raise e"
  by (rule ext) (simp add: act_bind_def act_raise_def)

lemma step_names [simp]:
  "step_create \<noteq> step_insert" "step_migrate \<noteq> step_insert" "step_settings \<noteq> step_insert" "step_activate \<noteq> step_insert"
  "step_insert \<noteq> step_create" "step_migrate \<noteq> step_create" "step_settings \<noteq> step_create" "step_activate \<noteq> step_create"
  "step_insert \<noteq> step_migrate" "step_create \<noteq> step_migrate" "step_settings \<noteq> step_migrate" "step_activate \<noteq> step_migrate"
  "step_insert \<noteq> step_settings" "step_create \<noteq> step_settings" "step_migrate \<noteq> step_settings" "step_activate \<noteq> step_settings"
  "step_insert \<noteq> step_activate" "step_create \<noteq> step_activate" "step_migrate \<noteq> step_activate" "step_settings \<noteq> step_activate"
  by (simp_all add: step_insert_def step_create_def step_migrate_def step_settings_def step_activate_def)

lemma run_step_commits: "run_step env w owner slug step = act_bind (step_work env w owner slug step) (\<lambda>_. step_record env w step)"
  by (simp add: run_step_def step_work_def step_record_def run_step_create_def run_step_migrate_def run_step_settings_def
      act_bind_assoc if_distrib [of "\<lambda>m. act_bind m _"] cong: if_cong)

text \<open>The record takes the workspace from one completed step to another.\<close>

lemma record_reached:
  assumes "reached env w ms k c" and "k < 4" and "j < 4"
    and "map_of (cl_databases c) (database_name_for w) = Some wd"
    and "2 \<le> j \<longrightarrow> composed env wd" and "3 \<le> j \<longrightarrow> defaults_written env wd"
  shows "\<exists>c'. record_step env w (provision_steps ! j) c = (Inr (), c') \<and> reached env w ms j c'"
proof -
  obtain row where row: "get_workspace w (cl_control c) = Some row" "ws_state row = Provisioning"
      "ws_database_name row = database_name_for w"
    and ok: "control_ok (cl_control c)" "db_memberships (cl_control c) = ms" "set (wd_revisions wd) \<subseteq> set (se_known env)"
    using assms(1,2,4) by (auto simp: reached_def)
  obtain c' where "record_step env w (provision_steps ! j) c = (Inr (), c')" "control_ok (cl_control c')"
    "cl_databases c' = cl_databases c" "db_memberships (cl_control c') = db_memberships (cl_control c)"
    "get_workspace w (cl_control c') = Some (row\<lparr>ws_state := Provisioning,
       ws_state_detail := Some (provision_steps ! j), ws_state_changed_at := se_now env\<rparr>)"
    using record_step_run [of c w row env "provision_steps ! j"] ok row by auto
  then show ?thesis using assms(3-6) ok row by (auto simp: reached_def)
qed

text \<open>The work of the three steps on the workspace's own database.\<close>

lemma create_work:
  assumes "env_works env" and "reached env w ms k c" and "k < 4"
  shows "\<exists>c' wd. step_work env w owner slug step_create c = (Inr (), c') \<and> reached env w ms k c'
     \<and> map_of (cl_databases c') (database_name_for w) = Some wd"
proof -
  let ?n = "database_name_for w"
  obtain row where row: "get_workspace w (cl_control c) = Some row" "ws_state row = Provisioning"
      "ws_database_name row = ?n"
    using assms(2,3) by (auto simp: reached_def)
  show ?thesis
  proof (cases "map_of (cl_databases c) ?n")
    case None
    obtain wd where "se_create env ?n = Inr wd" "set (wd_revisions wd) \<subseteq> set (se_known env)"
      using assms(1) unfolding env_works_def create_works_def by blast
    moreover have "k = 0" using None assms(2) by (simp add: reached_def)
    ultimately show ?thesis using None row assms(2)
      by (intro exI [of _ "c\<lparr>cl_databases := dict_set ?n wd (cl_databases c)\<rparr>"] exI [of _ wd])
        (simp add: step_work_def act_bind_def registry_row_def ensure_database_def database_name_for_ok map_of_eq_None_iff
          reached_def)
  next
    case (Some wd)
    then have "?n \<in> fst ` set (cl_databases c)" by (force dest: map_of_SomeD)
    then show ?thesis using Some row assms(2)
      by (intro exI [of _ c] exI [of _ wd])
        (simp add: step_work_def act_bind_def registry_row_def ensure_database_def database_name_for_ok)
  qed
qed

lemma migrate_work:
  assumes "env_works env" and "reached env w ms k c" and "1 \<le> k" and "k < 4"
  shows "\<exists>c' wd. step_work env w owner slug step_migrate c = (Inr (), c') \<and> reached env w ms k c'
     \<and> map_of (cl_databases c') (database_name_for w) = Some wd \<and> composed env wd"
proof -
  let ?n = "database_name_for w"
  obtain row wd where row: "get_workspace w (cl_control c) = Some row" "ws_database_name row = ?n"
    and wd: "map_of (cl_databases c) ?n = Some wd" "set (wd_revisions wd) \<subseteq> set (se_known env)"
    using assms(2,3) by (auto simp: reached_def split: option.splits)
  obtain wd1 where up: "se_upgrade env (wd\<lparr>wd_schema := True\<rparr>) = Inr wd1"
      "set (wd_revisions wd1) \<subseteq> set (se_known env)" "wd_settings wd1 = wd_settings wd"
    using upgrade_worksD [OF assms(1), of "wd\<lparr>wd_schema := True\<rparr>"] wd(2) by auto
  have "filter (\<lambda>r. r \<notin> set (se_known env)) (remdups (wd_revisions wd)) = []"
    using wd(2) by (auto simp: filter_empty_conv)
  then have chain: "run_core_chain env ?n ?n wd = Inr wd1"
    using up by (simp add: run_core_chain_def run_chain_def Let_def)
  define wd2 where "wd2 = snd (write_composition (se_now env) (se_core_version env) contract_version wd1)"
  let ?c1 = "c\<lparr>cl_databases := dict_set ?n wd2 (cl_databases c)\<rparr>"
  have w2: "wd_revisions wd2 = wd_revisions wd1" "composed env wd2" "wd_settings wd2 = wd_settings wd"
    using up(3) by (simp_all add: wd2_def write_composition_def composed_def Let_def)
  have "step_work env w owner slug step_migrate c = (Inr (), ?c1)"
    using row wd chain
    by (simp add: step_work_def act_bind_def registry_row_def workspace_tx_def
        database_name_for_ok wd2_def write_composition_def Let_def)
  moreover have "reached env w ms k ?c1"
    using assms(2,3) w2 up(2) wd by (simp add: reached_def defaults_written_def)
  ultimately show ?thesis using w2 by auto
qed

lemma settings_work:
  assumes "env_works env" and "reached env w ms k c" and "2 \<le> k" and "k < 4"
  shows "\<exists>c' wd. step_work env w owner slug step_settings c = (Inr (), c') \<and> reached env w ms k c'
     \<and> map_of (cl_databases c') (database_name_for w) = Some wd \<and> composed env wd \<and> defaults_written env wd"
proof -
  let ?n = "database_name_for w"
  obtain row wd where row: "get_workspace w (cl_control c) = Some row" "ws_database_name row = ?n"
    and wd: "map_of (cl_databases c) ?n = Some wd" "composed env wd"
    using assms(2,3) by (auto simp: reached_def split: option.splits)
  obtain wd2 where w2: "rfold (write_default env) (explicit_per_workspace (se_registry env)) wd = Inr wd2"
      "wd_revisions wd2 = wd_revisions wd" "wd_composition wd2 = wd_composition wd"
      "set (map wset_key (wd_settings wd2)) =
         set (map wset_key (wd_settings wd)) \<union> ks_key ` set (explicit_per_workspace (se_registry env))"
    using write_defaults [of "se_registry env" "explicit_per_workspace (se_registry env)" env wd]
      explicit_specs_ok assms(1) by (auto simp: env_works_def)
  let ?c1 = "c\<lparr>cl_databases := dict_set ?n wd2 (cl_databases c)\<rparr>"
  have ok: "composed env wd2" "defaults_written env wd2"
    using w2 wd(2) by (auto simp: composed_def defaults_written_def)
  have "step_work env w owner slug step_settings c = (Inr (), ?c1)"
    using row wd w2(1) by (simp add: step_work_def act_bind_def registry_row_def workspace_tx_def database_name_for_ok)
  moreover have "reached env w ms k ?c1" using assms(2,3) w2(2) wd ok by (simp add: reached_def)
  ultimately show ?thesis using ok by auto
qed

lemma activate_step:
  assumes "reached env w ms 3 c"
  shows "\<exists>c'. run_step_activate env w c = (Inr (), c') \<and> reached env w ms 4 c'"
proof -
  obtain row where row: "get_workspace w (cl_control c) = Some row" "ws_state row = Provisioning"
      "ws_database_name row = database_name_for w"
    and ok: "control_ok (cl_control c)" "db_memberships (cl_control c) = ms"
    using assms by (auto simp: reached_def)
  obtain c' where c': "run_step_activate env w c = (Inr (), c')" "control_ok (cl_control c')"
    "cl_databases c' = cl_databases c" "db_memberships (cl_control c') = db_memberships (cl_control c)"
    "get_workspace w (cl_control c') = Some (row\<lparr>ws_state := Active,
       ws_state_detail := Some step_activate, ws_state_changed_at := se_now env\<rparr>)"
    using activate_run [of c w row env] ok row by auto
  moreover have "reached env w ms 4 c'"
    using c' assms row ok by (auto simp: reached_def provision_steps_def split: option.splits)
  ultimately show ?thesis by blast
qed

text \<open>
  The step behind the last completed one succeeds. Its work alone leaves a state reached too: the
  last completed step is the same, the next one has merely been begun.
\<close>

lemma later_step:
  assumes "env_works env" and "reached env w ms k c" and "k < 4"
  shows "\<exists>c1 c2 j. step_work env w owner slug (provision_steps ! Suc k) c = (Inr (), c1) \<and> reached env w ms j c1 \<and> j \<le> 4
     \<and> run_step env w owner slug (provision_steps ! Suc k) c = (Inr (), c2) \<and> reached env w ms (Suc k) c2"
proof -
  let ?step = "provision_steps ! Suc k"
  have two: ?thesis
    if "step_work env w owner slug ?step c = (Inr (), c1)" "reached env w ms k c1" "Suc k < 4"
      "map_of (cl_databases c1) (database_name_for w) = Some wd" "2 \<le> Suc k \<longrightarrow> composed env wd"
      "3 \<le> Suc k \<longrightarrow> defaults_written env wd" "?step \<in> {step_create, step_migrate, step_settings}" for c1 wd
  proof -
    note h = that
    obtain c2 where c2: "record_step env w ?step c1 = (Inr (), c2)" "reached env w ms (Suc k) c2"
      using record_reached [OF h(2) assms(3) h(3,4,5,6)] by blast
    have "run_step env w owner slug ?step c = (Inr (), c2)"
      using h(1,7) c2(1) by (simp add: run_step_commits act_bind_def step_record_def)
    then show ?thesis using h(1,2) c2(2) assms(3) by (intro exI [of _ c1] exI [of _ c2] exI [of _ k]) simp
  qed
  consider "k = 0" | "k = 1" | "k = 2" | "k = 3" using assms(3) by linarith
  then show ?thesis
  proof cases
    case 1
    then show ?thesis using create_work [OF assms, of owner slug] two by (auto simp: provision_steps_def)
  next
    case 2
    then show ?thesis using migrate_work [OF assms(1,2) _ assms(3), of owner slug] two by (auto simp: provision_steps_def)
  next
    case 3
    then show ?thesis using settings_work [OF assms(1,2) _ assms(3), of owner slug] two by (auto simp: provision_steps_def)
  next
    case 4
    obtain c2 where "run_step_activate env w c = (Inr (), c2)" "reached env w ms 4 c2"
      using activate_step assms(2) 4 by blast
    moreover have "run_step env w owner slug ?step = run_step_activate env w"
        "step_work env w owner slug ?step = run_step_activate env w"
      using 4 by (simp_all add: provision_steps_def step_work_def run_step_def)
    ultimately show ?thesis using 4 by (intro exI [of _ c2] exI [of _ 4]) simp
  qed
qed

lemma run_later_step:
  assumes "env_works env" and "reached env w ms k c" and "k < 4"
  shows "\<exists>c'. run_step env w owner slug (provision_steps ! Suc k) c = (Inr (), c') \<and> reached env w ms (Suc k) c'"
  using later_step [OF assms] by blast

text \<open>
  A callback that may raise but leaves the cluster alone: the fault injection of the tests.
\<close>

definition only_raises :: "after_step \<Rightarrow> bool" where
  "only_raises f = (\<forall>step c. snd (f step c) = c)"

lemma walk_reaches:
  assumes "env_works env" and "case after of None \<Rightarrow> True | Some f \<Rightarrow> only_raises f"
  shows "reached env w ms k c \<Longrightarrow> k \<le> 4 \<Longrightarrow>
     walk env w after owner slug (drop (Suc k) provision_steps) c = (out, c') \<Longrightarrow>
     (\<exists>j \<le> 4. reached env w ms j c' \<and> (out = Inr () \<or> after = None \<longrightarrow> out = Inr () \<and> j = 4))"
proof (induction "4 - k" arbitrary: k c)
  case 0
  then have "k = 4" by simp
  then show ?case using 0 by (auto simp: provision_steps_def)
next
  case (Suc n)
  then have k: "k < 4" by simp
  obtain c1 where c1: "run_step env w owner slug (provision_steps ! Suc k) c = (Inr (), c1)"
      "reached env w ms (Suc k) c1"
    using run_later_step [OF assms(1) Suc.prems(1) k] by blast
  have d: "drop (Suc k) provision_steps = provision_steps ! Suc k # drop (Suc (Suc k)) provision_steps"
    using k by (intro Cons_nth_drop_Suc [symmetric]) (simp add: provision_steps_def)
  obtain r c2 where a: "(case after of None \<Rightarrow> act_return () | Some f \<Rightarrow> f (provision_steps ! Suc k)) c1 = (r, c2)"
    by fastforce
  have c2: "c2 = c1" using a assms(2)
    by (auto simp: only_raises_def split: option.splits) (metis snd_conv)
  show ?case
  proof (cases r)
    case (Inl e)
    moreover from this have "after \<noteq> None" using a by (cases after) auto
    ultimately have "(out, c') = (Inl e, c1)" "after \<noteq> None"
      using Suc.prems(3) c1(1) a c2 unfolding d by (auto simp: act_bind_def)
    then show ?thesis using c1(2) k by (intro exI [of _ "Suc k"]) auto
  next
    case (Inr u)
    then have "walk env w after owner slug (drop (Suc (Suc k)) provision_steps) c1 = (out, c')"
      using Suc.prems(3) c1(1) a c2 unfolding d by (simp add: act_bind_def)
    then show ?thesis using Suc.hyps(1) [of "Suc k" c1] Suc.hyps(2) c1(2) k by simp
  qed
qed

lemma walk_completes:
  assumes "env_works env" and "reached env w ms k c" and "k \<le> 4"
  shows "\<exists>c'. walk env w None owner slug (drop (Suc k) provision_steps) c = (Inr (), c') \<and> reached env w ms 4 c'"
proof -
  obtain out c' where o: "walk env w None owner slug (drop (Suc k) provision_steps) c = (out, c')"
    by fastforce
  then show ?thesis using walk_reaches [OF assms(1) _ assms(2,3) o] by auto
qed

lemma remaining_after_step: "k \<le> 4 \<Longrightarrow> remaining_after (Some (provision_steps ! k)) = drop (Suc k) provision_steps"
proof -
  assume "k \<le> 4"
  then have "k \<in> {0, 1, 2, 3, 4}" by auto
  then show ?thesis
    by (auto simp: remaining_after_def steps_after_def provision_steps_def step_insert_def
        step_create_def step_migrate_def step_settings_def step_activate_def)
qed

lemma repair_reached:
  assumes "env_works env" and "reached env w ms k c" and "k \<le> 4"
  shows "\<exists>c'. repair env w c = (Inr (), c') \<and> reached env w ms 4 c'"
proof (cases "k = 4")
  case True
  then have "repair env w c = (Inr (), c)"
    using assms(2) by (auto simp: reached_def repair_def act_bind_def registry_row_def)
  then show ?thesis using assms(2) True by blast
next
  case False
  then obtain row where "get_workspace w (cl_control c) = Some row" "ws_state row = Provisioning"
      "ws_state_detail row = Some (provision_steps ! k)"
    using assms(2) by (auto simp: reached_def)
  then have "repair env w c = walk env w None None None (drop (Suc k) provision_steps) c"
    using remaining_after_step [OF assms(3)] by (simp add: repair_def act_bind_def registry_row_def)
  then show ?thesis using walk_completes [OF assms] by simp
qed

text \<open>
  A control plane in which a workspace can be created for an account. A database of its name may
  be there already, with revisions the running code knows.
\<close>

definition can_create :: "storage_env \<Rightarrow> uuid \<Rightarrow> uuid \<Rightarrow> string \<Rightarrow> cluster \<Rightarrow> bool" where
  "can_create env w owner slug c = (control_ok (cl_control c)
     \<and> owner \<in> account_ids (cl_control c) \<and> w \<notin> workspace_ids (cl_control c)
     \<and> slug \<notin> set (map ws_slug (db_workspaces (cl_control c)))
     \<and> database_name_for w \<notin> set (map ws_database_name (db_workspaces (cl_control c)))
     \<and> (case map_of (cl_databases c) (database_name_for w) of
          None \<Rightarrow> True | Some wd \<Rightarrow> set (wd_revisions wd) \<subseteq> set (se_known env)))"

lemma get_membership_added:
  "get_membership a w db = None \<Longrightarrow> mb_account_id row = a \<Longrightarrow> mb_workspace_id row = w \<Longrightarrow>
     get_membership a w (db\<lparr>db_memberships := db_memberships db @ [row]\<rparr>) = Some row"
  by (simp add: get_membership_def find_append)

lemma insert_step:
  assumes "can_create env w owner slug c"
  shows "\<exists>c' ms. run_step_insert env w (Some owner) (Some slug) c = (Inr (), c') \<and> reached env w ms 0 c'
     \<and> (\<exists>m. get_membership owner w (cl_control c') = Some m \<and> mb_role m = Role_Owner)"
proof -
  let ?db = "cl_control c"
  let ?row = "\<lparr>ws_id = w, ws_slug = slug, ws_display_name = slug, ws_database_name = database_name_for w,
     ws_state = Provisioning, ws_created_at = se_now env, ws_state_changed_at = se_now env,
     ws_state_detail = Some step_insert\<rparr>"
  let ?m = "\<lparr>mb_account_id = owner, mb_workspace_id = w, mb_role = Role_Owner, mb_created_at = se_now env\<rparr>"
  let ?db1 = "?db\<lparr>db_workspaces := db_workspaces ?db @ [?row]\<rparr>"
  let ?db2 = "?db1\<lparr>db_memberships := db_memberships ?db @ [?m]\<rparr>"
  have ok: "control_ok ?db" using assms by (simp add: can_create_def)
  have pw: "put_workspace ?row ?db = Inr (True, ?db1)"
    using assms by (auto simp: put_workspace_def can_create_def)
  have gw: "get_workspace w ?db1 = Some ?row"
  proof -
    have "find (\<lambda>r. ws_id r = w) (db_workspaces ?db) = None"
      using assms by (simp add: can_create_def workspace_ids_def find_None_notin)
    then show ?thesis by (simp add: get_workspace_def find_append)
  qed
  have iw: "insert_workspace_if_absent (se_now env) w slug slug (database_name_for w) step_insert ?db
      = Inr ((?row, True), ?db1)"
    using pw gw by (simp add: insert_workspace_if_absent_def Let_def)
  have ok1: "control_ok ?db1" by (rule put_workspace_ok [OF ok pw])
  have nm: "find (\<lambda>r. mb_account_id r = owner \<and> mb_workspace_id r = w) (db_memberships ?db) = None"
  proof -
    have "mb_workspace_id r \<in> workspace_ids ?db" if "r \<in> set (db_memberships ?db)" for r
      using ok that by (auto simp: control_ok_def references_ok_def references_def list_all_iff)
    then show ?thesis using assms by (auto simp: find_None_iff can_create_def)
  qed
  have pm: "put_membership ?m ?db1 = Inr ?db2"
  proof -
    have "(owner, w) \<notin> membership_key ` set (db_memberships ?db)"
      using nm by (auto simp: find_None_iff membership_key_def)
    moreover have "owner \<in> account_ids ?db1" "w \<in> workspace_ids ?db1"
      using assms by (auto simp: can_create_def account_ids_def workspace_ids_def)
    ultimately show ?thesis
      by (simp add: put_membership_def membership_key_def membership_roles_def)
  qed
  have gm: "get_membership owner w ?db2 = Some ?m"
    using nm by (simp add: get_membership_def find_append)
  have im: "insert_membership_if_absent (se_now env) owner w Role_Owner ?db1 = Inr (?m, ?db2)"
    using pm gm by (simp add: insert_membership_if_absent_def membership_roles_def)
  let ?c = "c\<lparr>cl_control := ?db2\<rparr>"
  have "run_step_insert env w (Some owner) (Some slug) c = (Inr (), ?c)"
    using iw im by (simp add: run_step_insert_def control_tx_def)
  moreover have "reached env w (db_memberships ?db2) 0 ?c"
    using put_membership_ok [OF ok1 pm] gw assms
    by (simp add: reached_def provision_steps_def get_workspace_def can_create_def split: option.splits)
  ultimately show ?thesis using gm by fastforce
qed

section \<open>Interrupted walks\<close>

text \<open>
  The clusters a crash can leave: the one the walk started from and the one behind each commit.
\<close>

fun crash_states :: "storage_env \<Rightarrow> uuid \<Rightarrow> uuid option \<Rightarrow> string option \<Rightarrow> string list \<Rightarrow> cluster \<Rightarrow> cluster list" where
  "crash_states env w owner slug [] c = [c]"
| "crash_states env w owner slug (step # steps) c =
     c # snd (step_work env w owner slug step c) #
       (case run_step env w owner slug step c of
          (Inl e, c') \<Rightarrow> [c']
        | (Inr _, c') \<Rightarrow> crash_states env w owner slug steps c')"

text \<open>The steps \<open>repair\<close> walks for a row; for a state it refuses there are none.\<close>

definition repair_plan :: "workspace_row \<Rightarrow> string list" where
  "repair_plan row = (if ws_state row = Provisioning then remaining_after (ws_state_detail row)
     else if ws_state row = Unavailable then dropWhile (\<lambda>s. s \<noteq> step_migrate) provision_steps else [])"

text \<open>
  What runs of \<open>provision\<close> for one workspace and one owner and runs of \<open>repair\<close> can leave, in any
  order and number and at any times, each of them cut short behind any of its commits or run to
  its end.
\<close>

inductive interrupted :: "storage_env \<Rightarrow> uuid \<Rightarrow> uuid \<Rightarrow> string \<Rightarrow> cluster \<Rightarrow> cluster \<Rightarrow> bool"
  for env w owner slug c where
  not_begun: "interrupted env w owner slug c c"
| provisioning: "interrupted env w owner slug c d \<Longrightarrow> d' \<in> set (crash_states (env\<lparr>se_now := now\<rparr>) w (Some owner) (Some slug) provision_steps d)
    \<Longrightarrow> interrupted env w owner slug c d'"
| repairing: "interrupted env w owner slug c d \<Longrightarrow> get_workspace w (cl_control d) = Some row
    \<Longrightarrow> d' \<in> set (crash_states (env\<lparr>se_now := now\<rparr>) w None None (repair_plan row) d) \<Longrightarrow> interrupted env w owner slug c d'"

lemma start_is_crash_state: "c \<in> set (crash_states env w owner slug steps c)"
  by (cases steps) simp_all

text \<open>A walk that ends, and one that its callback stops, ends in one of them.\<close>

lemma walk_ends_in_crash_state:
  assumes "case after of None \<Rightarrow> True | Some f \<Rightarrow> only_raises f"
  shows "walk env w after owner slug steps c = (out, d) \<Longrightarrow> d \<in> set (crash_states env w owner slug steps c)"
proof (induction steps arbitrary: c)
  case (Cons step steps)
  obtain r c1 where r: "run_step env w owner slug step c = (r, c1)" by fastforce
  obtain q c2 where q: "(case after of None \<Rightarrow> act_return () | Some f \<Rightarrow> f step) c1 = (q, c2)" by fastforce
  have c2: "c2 = c1" using q assms by (auto simp: only_raises_def split: option.splits) (metis snd_conv)
  show ?case
  proof (cases r)
    case (Inr u)
    then have "d = c1 \<or> walk env w after owner slug steps c1 = (out, d)"
      using Cons.prems r q c2 by (cases q) (auto simp: act_bind_def)
    then show ?thesis using Cons.IH [of c1] start_is_crash_state [of c1] r Inr by auto
  qed (use Cons.prems r in \<open>auto simp: act_bind_def\<close>)
qed simp

lemma provision_interrupted:
  assumes "case after of None \<Rightarrow> True | Some f \<Rightarrow> only_raises f"
    and "interrupted env w owner s c d" and "provision (env\<lparr>se_now := now\<rparr>) w owner slug after d = (out, d')" and "slug_for w slug = Inr s"
  shows "interrupted env w owner s c d'"
proof (cases "check_after_step (env\<lparr>se_now := now\<rparr>) after")
  case (Inl e)
  then show ?thesis using assms(2,3) by (simp add: provision_def act_bind_def lift_result_def)
next
  case (Inr u)
  then have "walk (env\<lparr>se_now := now\<rparr>) w after (Some owner) (Some s) provision_steps d = (out, d')"
    using assms(3,4) by (simp add: provision_def act_bind_def lift_result_def)
  from walk_ends_in_crash_state [OF assms(1) this] show ?thesis by (rule provisioning [OF assms(2)])
qed

text \<open>\<open>repair\<close> does not leave them either.\<close>

lemma repair_interrupted:
  assumes "interrupted env w owner s c d" and "repair (env\<lparr>se_now := now\<rparr>) w d = (out, d')"
  shows "interrupted env w owner s c d'"
proof (cases "get_workspace w (cl_control d)")
  case None
  then show ?thesis using assms by (simp add: repair_def act_bind_def registry_row_def)
next
  case (Some row)
  then have "d' = d \<or> walk (env\<lparr>se_now := now\<rparr>) w None None None (repair_plan row) d = (out, d')"
    using assms(2) by (auto simp: repair_def repair_plan_def act_bind_def registry_row_def split: if_splits)
  then show ?thesis
  proof
    assume "walk (env\<lparr>se_now := now\<rparr>) w None None None (repair_plan row) d = (out, d')"
    from walk_ends_in_crash_state [OF _ this] show ?thesis by (intro repairing [OF assms(1) Some]) simp
  qed (use assms(1) in simp)
qed

lemma crash_states_reached:
  assumes "env_works env"
  shows "reached env w ms k c \<Longrightarrow> k \<le> 4 \<Longrightarrow> d \<in> set (crash_states env w owner slug (drop (Suc k) provision_steps) c) \<Longrightarrow>
     \<exists>j \<le> 4. reached env w ms j d"
proof (induction "4 - k" arbitrary: k c)
  case 0
  then have "k = 4" by simp
  then show ?case using 0 by (auto simp: provision_steps_def)
next
  case (Suc n)
  then have k: "k < 4" by simp
  obtain c1 c2 j where s: "step_work env w owner slug (provision_steps ! Suc k) c = (Inr (), c1)" "reached env w ms j c1" "j \<le> 4"
      "run_step env w owner slug (provision_steps ! Suc k) c = (Inr (), c2)" "reached env w ms (Suc k) c2"
    using later_step [OF assms Suc.prems(1) k] by blast
  have "drop (Suc k) provision_steps = provision_steps ! Suc k # drop (Suc (Suc k)) provision_steps"
    using k by (intro Cons_nth_drop_Suc [symmetric]) (simp add: provision_steps_def)
  then consider "d = c" | "d = c1" | "d \<in> set (crash_states env w owner slug (drop (Suc (Suc k)) provision_steps) c2)"
    using Suc.prems(3) s(1,4) by auto
  then show ?case
  proof cases
    case 3
    then show ?thesis using Suc.hyps(1) [of "Suc k" c2] Suc.hyps(2) s(5) k by simp
  qed (use Suc.prems(1,2) s(2,3) in auto)
qed

text \<open>\<open>provision\<close> again for the same owner: the first step finds its own row.\<close>

definition owned_by :: "uuid \<Rightarrow> uuid \<Rightarrow> membership_row list \<Rightarrow> bool" where
  "owned_by owner w ms = (\<exists>m. find (\<lambda>r. mb_account_id r = owner \<and> mb_workspace_id r = w) ms = Some m \<and> mb_role m = Role_Owner)"

lemma insert_again:
  assumes "reached env w ms k c" and "owned_by owner w ms"
  shows "run_step_insert env w (Some owner) (Some slug) c = (if k = 4 then fst (run_step_insert env w (Some owner) (Some slug) c) else Inr (), c)
     \<and> (k = 4 \<longrightarrow> isl (fst (run_step_insert env w (Some owner) (Some slug) c)))"
proof -
  obtain row where row: "get_workspace w (cl_control c) = Some row" "ws_state row = (if k = 4 then Active else Provisioning)"
    and ms: "db_memberships (cl_control c) = ms" using assms(1) by (auto simp: reached_def)
  have "w \<in> workspace_ids (cl_control c)" using row(1) by (auto simp: get_workspace_def workspace_ids_def find_Some_iff)
  then have "insert_workspace_if_absent (se_now env) w slug slug (database_name_for w) step_insert (cl_control c)
      = Inr ((row, False), cl_control c)"
    using row(1) by (simp add: insert_workspace_if_absent_def put_workspace_def Let_def)
  moreover obtain m where "get_membership owner w (cl_control c) = Some m" "mb_role m = Role_Owner"
    using assms(2) ms by (auto simp: owned_by_def get_membership_def)
  ultimately show ?thesis using row(2) by (simp add: run_step_insert_def control_tx_def)
qed

lemma insert_work: "step_work env w owner slug step_insert = run_step_insert env w owner slug"
  "run_step env w owner slug step_insert = run_step_insert env w owner slug"
  by (simp_all add: step_work_def run_step_def)

lemma first_step: "provision_steps = step_insert # drop (Suc 0) provision_steps"
  "drop (Suc 0) provision_steps = step_create # drop 2 provision_steps" "drop 2 provision_steps = drop (Suc 1) provision_steps"
  by (simp_all add: provision_steps_def)

text \<open>From any step on, the walk behind the first step goes to the end and leaves states reached.\<close>

lemma create_again:
  assumes "env_works env" and "reached env w ms k c" and "k < 4"
  shows "\<exists>c1 c2. step_work env w owner slug step_create c = (Inr (), c1) \<and> reached env w ms k c1
     \<and> run_step env w owner slug step_create c = (Inr (), c2) \<and> reached env w ms 1 c2"
proof -
  obtain c1 wd where c1: "step_work env w owner slug step_create c = (Inr (), c1)" "reached env w ms k c1"
      "map_of (cl_databases c1) (database_name_for w) = Some wd"
    using create_work [OF assms] by blast
  obtain c2 where "record_step env w (provision_steps ! 1) c1 = (Inr (), c2)" "reached env w ms 1 c2"
    using record_reached [OF c1(2) assms(3) _ c1(3), of 1] by auto
  then show ?thesis using c1(1,2) by (auto simp: run_step_commits act_bind_def step_record_def provision_steps_def)
qed

lemma again_reached:
  assumes "env_works env" and "reached env w ms k c" and "k < 4"
    and "d \<in> set (crash_states env w owner slug (drop (Suc 0) provision_steps) c)"
  shows "\<exists>j \<le> 4. reached env w ms j d"
proof -
  obtain c1 c2 where s: "step_work env w owner slug step_create c = (Inr (), c1)" "reached env w ms k c1"
      "run_step env w owner slug step_create c = (Inr (), c2)" "reached env w ms 1 c2"
    using create_again [OF assms(1-3)] by blast
  then consider "d = c" | "d = c1" | "d \<in> set (crash_states env w owner slug (drop (Suc 1) provision_steps) c2)"
    using assms(4) by (auto simp: first_step(2,3))
  then show ?thesis
  proof cases
    case 3
    then show ?thesis using crash_states_reached [OF assms(1) s(4)] by simp
  qed (use assms(2,3) s(2) in \<open>auto intro!: exI [of _ k]\<close>)
qed

lemma provision_from_first_step:
  assumes "env_works env" and "slug_for w slug = Inr s" and "run_step_insert env w (Some owner) (Some s) c = (Inr (), c0)"
    and "reached env w ms k c0" and "k < 4"
  shows "\<exists>c2. provision env w owner slug None c = (Inr (), c2) \<and> reached env w ms 4 c2"
proof -
  obtain c1 where c1: "run_step env w (Some owner) (Some s) step_create c0 = (Inr (), c1)" "reached env w ms 1 c1"
    using create_again [OF assms(1,4,5)] by blast
  obtain c2 where c2: "walk env w None (Some owner) (Some s) (drop (Suc 1) provision_steps) c1 = (Inr (), c2)" "reached env w ms 4 c2"
    using walk_completes [OF assms(1) c1(2)] by auto
  have "provision env w owner slug None c = walk env w None (Some owner) (Some s) (step_insert # step_create # drop (Suc 1) provision_steps) c"
    using assms(2) first_step by (simp add: provision_def act_bind_def lift_result_def check_after_step_def)
  then show ?thesis using assms(3) c1(1) c2 by (simp add: act_bind_def insert_work)
qed

lemma crash_states_Cons:
  assumes "d \<in> set (crash_states env w owner slug (step # steps) c)" and "run_step env w owner slug step c = (r, c0)"
  shows "d = c \<or> d = snd (step_work env w owner slug step c) \<or> d = c0
     \<or> (r = Inr () \<and> d \<in> set (crash_states env w owner slug steps c0))"
  using assms by (cases r) auto

lemma provision_crash_states:
  assumes "d \<in> set (crash_states env w owner slug provision_steps c)" and "run_step_insert env w owner slug c = (r, c0)"
  shows "d = c \<or> d = c0 \<or> (r = Inr () \<and> d \<in> set (crash_states env w owner slug (drop (Suc 0) provision_steps) c0))"
proof -
  have "d \<in> set (crash_states env w owner slug (step_insert # drop (Suc 0) provision_steps) c)"
    using assms(1) first_step(1) by metis
  from crash_states_Cons [OF this, of r c0] show ?thesis using assms(2) by (simp only: insert_work snd_conv) blast
qed

text \<open>The time of a run decides nothing.\<close>

lemma time_simps [simp]:
  "env_works (env\<lparr>se_now := now\<rparr>) = env_works env"
  "reached (env\<lparr>se_now := now\<rparr>) w ms k c = reached env w ms k c"
  "can_create (env\<lparr>se_now := now\<rparr>) w owner s c = can_create env w owner s c"
  by (simp_all add: env_works_def upgrade_works_def create_works_def reached_def composed_def defaults_written_def can_create_def
      cong: option.case_cong)

lemma first_insert:
  assumes "can_create env w owner s c"
  shows "\<exists>c0 ms. run_step_insert (env\<lparr>se_now := now\<rparr>) w (Some owner) (Some s) c = (Inr (), c0)
     \<and> reached env w ms 0 c0 \<and> owned_by owner w ms"
proof -
  obtain c0 ms where "run_step_insert (env\<lparr>se_now := now\<rparr>) w (Some owner) (Some s) c = (Inr (), c0)" and c0: "reached env w ms 0 c0"
    and m: "\<exists>m. get_membership owner w (cl_control c0) = Some m \<and> mb_role m = Role_Owner"
    using insert_step [of "env\<lparr>se_now := now\<rparr>" w owner s c] assms by auto
  moreover have "owned_by owner w ms" using c0 m by (auto simp: owned_by_def get_membership_def reached_def)
  ultimately show ?thesis by blast
qed

lemma interrupted_reached:
  assumes "env_works env" and "can_create env w owner s c"
  shows "interrupted env w owner s c d \<Longrightarrow> d = c \<or> (\<exists>ms. owned_by owner w ms \<and> (\<exists>k \<le> 4. reached env w ms k d))"
proof (induction rule: interrupted.induct)
  case (provisioning d d' now)
  let ?env = "env\<lparr>se_now := now\<rparr>"
  have env: "env_works ?env" using assms(1) by simp
  from provisioning.IH show ?case
  proof (elim disjE exE conjE)
    assume d: "d = c"
    obtain c0 ms where c0: "run_step_insert ?env w (Some owner) (Some s) c = (Inr (), c0)" "reached ?env w ms 0 c0" "owned_by owner w ms"
      using first_insert [OF assms(2)] by fastforce
    have "d' = d \<or> d' = c0 \<or> (\<exists>j \<le> 4. reached env w ms j d')"
      using provision_crash_states [OF provisioning.hyps(2)] c0(1) d again_reached [OF env c0(2), of d'] by simp blast
    then show ?thesis using c0(2,3) d by (auto intro: exI [of _ 0])
  next
    fix ms k assume k: "owned_by owner w ms" "k \<le> 4" "reached env w ms k d"
    then have k': "reached ?env w ms k d" by simp
    obtain r where r: "run_step_insert ?env w (Some owner) (Some s) d = (r, d)" "if k = 4 then isl r else r = Inr ()"
      using insert_again [OF k' k(1), of s] by (cases "k = 4") auto
    have "k < 4" if "r = Inr ()" using r(2) that k(2) by (cases "k = 4") auto
    then have "d' = d \<or> (\<exists>j \<le> 4. reached env w ms j d')"
      using provision_crash_states [OF provisioning.hyps(2) r(1)] again_reached [OF env k', of d'] by auto
    then show ?thesis using k by blast
  qed
next
  case (repairing d row d' now)
  let ?env = "env\<lparr>se_now := now\<rparr>"
  have "d \<noteq> c" using repairing.hyps(2) assms(2) by (auto simp: can_create_def get_workspace_def workspace_ids_def find_Some_iff)
  then obtain ms k where k: "owned_by owner w ms" "k \<le> 4" "reached env w ms k d" using repairing.IH by blast
  show ?case
  proof (cases "k = 4")
    case True
    then have "d' = d" using repairing.hyps k(3) by (auto simp: repair_plan_def reached_def)
    then show ?thesis using k by blast
  next
    case False
    then have "repair_plan row = drop (Suc k) provision_steps"
      using repairing.hyps(2) k remaining_after_step [OF k(2)] by (auto simp: repair_plan_def reached_def)
    then have "\<exists>j \<le> 4. reached ?env w ms j d'"
      using crash_states_reached [of ?env w ms k d d'] k(2,3) assms(1) repairing.hyps(3) by simp
    then show ?thesis using k(1) by auto
  qed
qed simp

text \<open>
  C6: provisioning survives crashes. Cut short any number of runs of \<open>provision\<close> for a new
  workspace and of \<open>repair\<close>, each behind any of its commits, between a step's work and its record
  too. Then either nothing is there yet and \<open>provision\<close> completes, or the control plane is
  consistent and records the last completed step, and \<open>repair\<close> completes; until the workspace is
  active, so does \<open>provision\<close> again. What completes returns with the workspace active on its
  derived database, whose schema is migrated, composition written and explicit settings present,
  and with the owner's membership.
\<close>

theorem interrupted_provision_is_repaired:
  assumes "env_works env" and "can_create env w owner s c" and "slug_for w slug = Inr s"
    and "interrupted env w owner s c d"
  shows "\<exists>ms. owned_by owner w ms \<and>
     (if d = c then \<exists>c2. provision (env\<lparr>se_now := now\<rparr>) w owner slug None d = (Inr (), c2) \<and> reached env w ms 4 c2
      else \<exists>k \<le> 4. reached env w ms k d
        \<and> (\<exists>c2. repair (env\<lparr>se_now := now\<rparr>) w d = (Inr (), c2) \<and> reached env w ms 4 c2)
        \<and> (k = 4 \<or> (\<exists>c2. provision (env\<lparr>se_now := now\<rparr>) w owner slug None d = (Inr (), c2) \<and> reached env w ms 4 c2)))"
proof -
  let ?env = "env\<lparr>se_now := now\<rparr>"
  have env: "env_works ?env" using assms(1) by simp
  consider "d = c" | ms k where "d \<noteq> c" "owned_by owner w ms" "k \<le> 4" "reached ?env w ms k d"
    using interrupted_reached [OF assms(1,2,4)] by fastforce
  then show ?thesis
  proof cases
    case 1
    obtain c0 ms where "run_step_insert ?env w (Some owner) (Some s) c = (Inr (), c0)" "reached ?env w ms 0 c0" "owned_by owner w ms"
      using first_insert [OF assms(2)] by fastforce
    then show ?thesis using provision_from_first_step [OF env assms(3)] 1 by fastforce
  next
    case (2 ms k)
    have "\<exists>c2. provision ?env w owner slug None d = (Inr (), c2) \<and> reached ?env w ms 4 c2" if "k < 4"
      using provision_from_first_step [OF env assms(3) _ 2(4) that] insert_again [OF 2(4,2), of s] that by simp
    then have "k = 4 \<or> (\<exists>c2. provision ?env w owner slug None d = (Inr (), c2) \<and> reached env w ms 4 c2)"
      using 2(3) by (cases "k = 4") simp_all
    moreover have "\<exists>c2. repair ?env w d = (Inr (), c2) \<and> reached env w ms 4 c2"
      using repair_reached [OF env 2(4,3)] by simp
    ultimately show ?thesis using 2 by (simp only: if_False time_simps) blast
  qed
qed

definition sample_env :: storage_env where
  "sample_env = \<lparr>se_core_version = ''0.1.0'', se_known = [''0001''],
     se_upgrade = (\<lambda>wd. Inr (wd\<lparr>wd_revisions := [''0001'']\<rparr>)),
     se_create = (\<lambda>_. Inr empty_workspace_db), se_registry = sample_registry,
     se_profile = Inr ''test'', se_now = 9\<rparr>"

definition sample_cluster :: cluster where
  "sample_cluster = \<lparr>cl_control = sample_control, cl_databases = []\<rparr>"

lemma sample_env_works: "env_works sample_env"
  by (simp add: env_works_def upgrade_works_def create_works_def sample_env_def
      empty_workspace_db_def sample_registry_ok)

lemma sample_can_create: "can_create sample_env 6 7 ''lab'' sample_cluster"
  using sample_control_ok
  by (simp add: can_create_def sample_cluster_def account_ids_def workspace_ids_def sample_control_def
      sample_workspace_def database_name_for_def)

text \<open>Cut short between \<open>CREATE DATABASE\<close> and its record: the database is there, the row is one step behind.\<close>

lemma interrupted_provision_is_repaired_witness:
  "\<exists>d ms c2. interrupted sample_env 6 7 ''lab'' sample_cluster d \<and> map_of (cl_databases d) (database_name_for 6) \<noteq> None
     \<and> reached sample_env 6 ms 0 d \<and> repair sample_env 6 d = (Inr (), c2)"
proof -
  obtain c0 ms where c0: "run_step_insert sample_env 6 (Some 7) (Some ''lab'') sample_cluster = (Inr (), c0)"
      "reached sample_env 6 ms 0 c0"
    using insert_step [OF sample_can_create] by blast
  obtain d wd where d: "step_work sample_env 6 (Some 7) (Some ''lab'') step_create c0 = (Inr (), d)"
      "reached sample_env 6 ms 0 d" "map_of (cl_databases d) (database_name_for 6) = Some wd"
    using create_work [OF sample_env_works c0(2)] by fastforce
  have steps: "provision_steps = step_insert # step_create # drop 2 provision_steps" by (simp add: provision_steps_def)
  have "d \<in> set (crash_states sample_env 6 (Some 7) (Some ''lab'') provision_steps sample_cluster)"
    using c0(1) d(1) by (subst steps) (simp add: insert_work)
  moreover have now: "sample_env\<lparr>se_now := 9\<rparr> = sample_env" by (simp add: sample_env_def)
  ultimately have i: "interrupted sample_env 6 7 ''lab'' sample_cluster d"
    by (intro provisioning [OF not_begun, where now = 9]) (simp only: now)
  have "slug_for 6 (Some ''lab'') = Inr ''lab''" by (simp add: slug_for_def is_lower_def is_digit_def)
  moreover have "d \<noteq> sample_cluster"
    using d(2) sample_can_create by (auto simp: reached_def can_create_def get_workspace_def workspace_ids_def find_Some_iff)
  ultimately obtain c2 where "repair sample_env 6 d = (Inr (), c2)"
    using interrupted_provision_is_repaired [OF sample_env_works sample_can_create _ i, where slug = "Some ''lab''" and now = 9] now by auto
  then show ?thesis using i d by blast
qed

section \<open>A lagging walker\<close>

lemma set_state_refused:
  assumes "control_ok (cl_control c)" and "get_workspace w (cl_control c) = Some row"
    and "ws_state row \<notin> set es"
  shows "\<exists>e. control_tx (set_workspace_state now w st det (Some es)) c = (Inl e, c)"
  using assms by (simp add: control_tx_def set_workspace_state_eq)

lemma act_bind_Inl_state: "m s = (Inl e, t) \<Longrightarrow> act_bind m f s = (Inl e, t)"
  by simp

text \<open>A walker's step finds the workspace active: the control plane stays as it is.\<close>

lemma step_on_active:
  assumes "control_ok (cl_control c)" and "get_workspace w (cl_control c) = Some row"
    and "ws_state row = Active" and "run_step env w owner slug step c = (out, c')"
  shows "cl_control c' = cl_control c \<and> out \<noteq> Inr ()"
proof -
  have rec: "\<exists>e. record_step env w s d = (Inl e, d)" if "cl_control d = cl_control c" for s d
    unfolding record_step_def
    by (rule set_state_refused [where row = row]) (use that assms(1-3) in \<open>simp_all add: get_workspace_def\<close>)
  have act: "\<exists>e. run_step_activate env w c = (Inl e, c)"
    unfolding run_step_activate_def
    by (rule set_state_refused [where row = row]) (use assms(1-3) in simp_all)
  have wtx: "cl_control d = cl_control c"
    if "workspace_tx n f c = (r, d)" for n d and r :: "'a result" and f
    using that by (auto simp: workspace_tx_def split: sum.splits option.splits)
  have tail: "cl_control d = cl_control c \<and> r \<noteq> Inr ()"
    if t: "act_bind (workspace_tx n f) (\<lambda>_. record_step env w s) c = (r, d)" for n s r d
      and f :: "workspace_db \<Rightarrow> ('a \<times> workspace_db) result"
  proof -
    obtain x d1 where x: "workspace_tx n f c = (x, d1)" by fastforce
    have d1: "cl_control d1 = cl_control c"
      using x by (auto simp: workspace_tx_def split: sum.splits option.splits)
    then show ?thesis using t x rec [OF d1, of s] by (cases x) (auto simp: act_bind_def)
  qed
  have ens: "cl_control d = cl_control c" if "ensure_database env n c = (r, d)" for n r d
    using that by (auto simp: ensure_database_def split: sum.splits if_splits)
  consider "step = step_insert" | "step = step_create" | "step = step_migrate" | "step = step_settings"
    | "step = step_activate" | "step \<notin> set provision_steps"
    by (auto simp: provision_steps_def)
  then show ?thesis
  proof cases
    case 1
    have "w \<in> workspace_ids (cl_control c)"
      using assms(2) by (auto simp: get_workspace_def workspace_ids_def find_Some_iff)
    then have "run_step_insert env w owner slug c = (out, c') \<Longrightarrow> ?thesis"
      using assms(2,3)
      by (auto simp: run_step_insert_def control_tx_def insert_workspace_if_absent_def put_workspace_def
          Let_def split: option.splits)
    then show ?thesis using 1 assms(4) by (simp add: run_step_def)
  next
    case 2
    obtain x d1 where x: "ensure_database env (ws_database_name row) c = (x, d1)" by fastforce
    then have d1: "cl_control d1 = cl_control c" by (rule ens)
    have "run_step_create env w c = (out, c')"
      using 2 assms(4) by (simp add: run_step_def step_insert_def step_create_def)
    then show ?thesis
      using x d1 assms(2,3) rec [OF d1, of step_create]
      by (auto simp: run_step_create_def act_bind_def registry_row_def split: sum.splits if_splits)
  next
    case 3
    then have "run_step_migrate env w c = (out, c')"
      using assms(4) by (simp add: run_step_def step_insert_def step_create_def step_migrate_def)
    then show ?thesis
      using assms(2) by (auto simp: run_step_migrate_def registry_row_def dest!: tail)
  next
    case 4
    then have "run_step_settings env w c = (out, c')"
      using assms(4) by (simp add: run_step_def step_insert_def step_create_def step_migrate_def step_settings_def)
    then show ?thesis
      using assms(2) by (auto simp: run_step_settings_def registry_row_def dest!: tail)
  next
    case 5
    then have "run_step_activate env w c = (out, c')"
      using assms(4) by (simp add: run_step_def step_insert_def step_create_def step_migrate_def
          step_settings_def step_activate_def)
    then show ?thesis using act by auto
  next
    case 6
    then have "run_step env w owner slug step c = (Inl (ValueError (''unknown provisioning step '' @ py_repr step)), c)"
      by (simp add: run_step_def provision_steps_def)
    then show ?thesis using assms(4) by simp
  qed
qed

lemma workspace_tx_databases:
  "workspace_tx n f c = (r, d) \<Longrightarrow> d = c \<or> (\<exists>wd x wd'. map_of (cl_databases c) n = Some wd \<and> f wd = Inr (x, wd')
     \<and> d = c\<lparr>cl_databases := dict_set n wd' (cl_databases c)\<rparr>)"
  by (auto simp: workspace_tx_def check_database_name_def split: sum.splits option.splits)

lemma control_tx_same_databases: "control_tx f c = (r, d) \<Longrightarrow> cl_databases d = cl_databases c"
  by (auto simp: control_tx_def split: sum.splits)

lemma defaults_again:
  "rfold (write_default env) ss wd = Inr wd' \<Longrightarrow> ks_key ` set ss \<subseteq> set (map wset_key (wd_settings wd)) \<Longrightarrow> wd' = wd"
proof (induction ss)
  case (Cons s ss)
  then have "write_default env s wd = Inr wd"
    by (auto simp: write_default_def insert_workspace_setting_if_absent_def)
  then show ?case using Cons by simp
qed simp

lemma chain_settings:
  assumes "env_works env" and "run_core_chain env n n wd = Inr wd1"
  shows "wd_settings wd1 = wd_settings wd"
proof -
  let ?wd = "wd\<lparr>wd_schema := True\<rparr>"
  have "se_upgrade env ?wd = Inr wd1" "set (wd_revisions ?wd) \<subseteq> set (se_known env)"
    using assms(2) by (auto simp: run_core_chain_def run_chain_def Let_def filter_empty_conv)
  then show ?thesis using upgrade_worksD [OF assms(1), of ?wd] by auto
qed

text \<open>What the work of one step does to the databases when the workspace's own is there and complete.\<close>

definition migrated_again :: "storage_env \<Rightarrow> string \<Rightarrow> workspace_db \<Rightarrow> workspace_db \<Rightarrow> bool" where
  "migrated_again env name wd wd' = (\<exists>wd1. run_core_chain env name name wd = Inr wd1
     \<and> wd' = snd (write_composition (se_now env) (se_core_version env) contract_version wd1))"

lemma work_on_complete:
  assumes "get_workspace w (cl_control c) = Some row" and "map_of (cl_databases c) (ws_database_name row) = Some wd"
    and "defaults_written env wd" and "step_work env w owner slug step c = (r, c1)"
  shows "\<exists>wd'. map_of (cl_databases c1) = (map_of (cl_databases c))(ws_database_name row \<mapsto> wd')
     \<and> (wd' = wd \<or> step = step_migrate \<and> migrated_again env (ws_database_name row) wd wd')"
proof -
  let ?n = "ws_database_name row"
  have same: ?thesis if "cl_databases c1 = cl_databases c"
    using that assms(2) by (intro exI [of _ wd]) auto
  consider "step = step_create" | "step = step_migrate" | "step = step_settings"
    | "step_work env w owner slug step = run_step env w owner slug step" "step \<notin> {step_create, step_migrate, step_settings}"
    by (auto simp: step_work_def)
  then show ?thesis
  proof cases
    case 1
    have "?n \<in> fst ` set (cl_databases c)" using assms(2) by (force dest: map_of_SomeD)
    then have "c1 = c" using assms(1,4) 1
      by (auto simp: step_work_def act_bind_def registry_row_def ensure_database_def check_database_name_def
          split: if_splits sum.splits prod.splits)
    then show ?thesis using same by simp
  next
    case 2
    obtain q where "workspace_tx ?n (\<lambda>wd. rbind (run_core_chain env ?n ?n wd) (\<lambda>wd'.
        Inr (write_composition (se_now env) (se_core_version env) contract_version wd'))) c = (q, c1)"
      using assms(1,4) 2 by (auto simp: step_work_def act_bind_def registry_row_def split: prod.splits sum.splits)
    from workspace_tx_databases [OF this] show ?thesis
      using assms(2) same 2 by (auto simp: migrated_again_def write_composition_def Let_def)
  next
    case 3
    then have "workspace_tx ?n (\<lambda>wd. rbind (rfold (write_default env) (explicit_per_workspace (se_registry env)) wd) (\<lambda>wd'.
        Inr ((), wd'))) c = (r, c1)"
      using assms(1,4) by (simp add: step_work_def act_bind_def registry_row_def)
    from workspace_tx_databases [OF this] show ?thesis
      using assms(2,3) same by (auto simp: defaults_written_def dest!: defaults_again)
  next
    case 4
    then have "cl_databases c1 = cl_databases c" using assms(4)
      by (auto simp: run_step_def run_step_insert_def run_step_activate_def control_tx_same_databases split: if_splits option.splits)
    then show ?thesis by (rule same)
  qed
qed

text \<open>
  C24: a walker that lags behind another one cannot take an active workspace back. Whatever
  steps it still has to run, its first one is refused, and the control plane, so the
  workspace's state and its memberships, stay as they are, as does every other database. The
  workspace's own database, once complete, keeps all its settings; it is changed only where that
  first step is the migration, whose chain runs again on it and whose composition row is
  written again before the refusal.
\<close>

theorem lagging_walker_is_refused:
  assumes "env_works env" and "control_ok (cl_control c)" and "get_workspace w (cl_control c) = Some row"
    and "ws_state row = Active" and "map_of (cl_databases c) (ws_database_name row) = Some wd" and "defaults_written env wd"
    and "steps \<noteq> []" and "walk env w after owner slug steps c = (out, c')"
  shows "out \<noteq> Inr () \<and> cl_control c' = cl_control c
     \<and> (\<forall>n. n \<noteq> ws_database_name row \<longrightarrow> map_of (cl_databases c') n = map_of (cl_databases c) n)
     \<and> (\<exists>wd'. map_of (cl_databases c') (ws_database_name row) = Some wd' \<and> wd_settings wd' = wd_settings wd
          \<and> (wd' = wd \<or> hd steps = step_migrate
               \<and> (\<exists>wd1. run_core_chain env (ws_database_name row) (ws_database_name row) wd = Inr wd1
                    \<and> wd' = snd (write_composition (se_now env) (se_core_version env) contract_version wd1))))"
proof -
  obtain step rest where s: "steps = step # rest" using assms(7) by (cases steps) auto
  obtain r c1 where r: "run_step env w owner slug step c = (r, c1)" by fastforce
  have refused: "cl_control c1 = cl_control c" "r \<noteq> Inr ()" using step_on_active [OF assms(2-4) r] by simp_all
  then have c': "c' = c1" "out = r" using assms(8) r by (cases r; auto simp: s act_bind_def)+
  obtain q c2 where q: "step_work env w owner slug step c = (q, c2)" by fastforce
  have "cl_databases c1 = cl_databases c2"
    using r q by (cases q) (auto simp: run_step_commits act_bind_def step_record_def record_step_def dest: control_tx_same_databases
        split: if_splits)
  moreover obtain wd' where wd': "map_of (cl_databases c2) = (map_of (cl_databases c))(ws_database_name row \<mapsto> wd')"
      "wd' = wd \<or> step = step_migrate \<and> migrated_again env (ws_database_name row) wd wd'"
    using work_on_complete [OF assms(3,5,6) q] by blast
  moreover have "wd_settings wd' = wd_settings wd"
    using wd'(2) chain_settings [OF assms(1)] by (auto simp: migrated_again_def write_composition_def Let_def)
  ultimately show ?thesis using refused c' s by (auto simp: migrated_again_def)
qed

text \<open>The workspace that provisioning left active is complete.\<close>

lemma lagging_walker_is_refused_witness:
  "\<exists>c. fst (provision sample_env 6 7 (Some ''lab'') None sample_cluster) = Inr ()
     \<and> snd (provision sample_env 6 7 (Some ''lab'') None sample_cluster) = c
     \<and> cl_control (snd (walk sample_env 6 None None None [step_settings, step_activate] c)) = cl_control c"
proof -
  obtain c0 ms where c0: "run_step_insert sample_env 6 (Some 7) (Some ''lab'') sample_cluster = (Inr (), c0)"
      "reached sample_env 6 ms 0 c0"
    using insert_step [OF sample_can_create] by blast
  have sl: "slug_for 6 (Some ''lab'') = Inr ''lab''" by (simp add: slug_for_def is_lower_def is_digit_def)
  obtain c where c: "provision sample_env 6 7 (Some ''lab'') None sample_cluster = (Inr (), c)" "reached sample_env 6 ms 4 c"
    using provision_from_first_step [OF sample_env_works sl c0] by auto
  then obtain row wd where h: "control_ok (cl_control c)" "get_workspace 6 (cl_control c) = Some row" "ws_state row = Active"
      "map_of (cl_databases c) (ws_database_name row) = Some wd" "defaults_written sample_env wd"
    by (auto simp: reached_def split: option.splits)
  obtain out c' where w: "walk sample_env 6 None None None [step_settings, step_activate] c = (out, c')" by fastforce
  have "cl_control c' = cl_control c"
    using lagging_walker_is_refused [OF sample_env_works h _ w] by simp
  then show ?thesis using c w by simp
qed

section \<open>Failed migrations\<close>

lemma core_chains_ok: "set chs \<subseteq> {core_chain} \<Longrightarrow> check_workspace_chains chs = Inr ()"
  by (induction chs) auto

text \<open>
  A failing chain never stops the caller. For a workspace with a registry row,
  \<open>migrate_workspace\<close> returns a result; when the chain succeeded the control plane is as
  before, and when it failed the workspace's database is as before, its row is
  \<open>unavailable\<close> with the reason, and no other workspace's row changed.
\<close>

theorem migrate_workspace_never_raises:
  assumes "control_ok (cl_control c)" and "get_workspace w (cl_control c) = Some row"
    and "database_name_ok (ws_database_name row)" and "set chs \<subseteq> {core_chain}"
  shows "\<exists>r c'. migrate_workspace env chs w c = (Inr r, c') \<and> mr_workspace_id r = Some w
     \<and> (if mr_ok r then cl_control c' = cl_control c \<and> mr_detail r = None
        else cl_databases c' = cl_databases c \<and> control_ok (cl_control c')
          \<and> (\<exists>row'. get_workspace w (cl_control c') = Some row' \<and> ws_state row' = Unavailable
               \<and> ws_state_detail row' = mr_detail r \<and> mr_detail r \<noteq> None)
          \<and> (\<forall>v. v \<noteq> w \<longrightarrow> get_workspace v (cl_control c') = get_workspace v (cl_control c)))"
proof -
  let ?n = "ws_database_name row"
  let ?tx = "workspace_tx ?n (\<lambda>wd. rbind (rfold (\<lambda>chain. run_core_chain env ?n ?n) chs wd) (\<lambda>wd'. Inr ((), wd')))"
  have id: "ws_id row = w" using assms(2) by (auto simp: get_workspace_def find_Some_iff)
  obtain x c1 where x: "?tx c = (x, c1)" by fastforce
  have c1: "cl_control c1 = cl_control c" "isl x \<Longrightarrow> c1 = c"
    using x by (auto simp: workspace_tx_def split: sum.splits option.splits)
  have m: "migrate_workspace env chs w c = (case x of
        Inr _ \<Rightarrow> (Inr \<lparr>mr_workspace_id = Some w, mr_database_name = ?n, mr_chain = core_chain,
            mr_ok = True, mr_detail = None\<rparr>, c1)
      | Inl e \<Rightarrow> act_bind (control_tx (set_workspace_state (se_now env) w Unavailable (Some (migration_detail e)) None))
            (\<lambda>_. act_return \<lparr>mr_workspace_id = Some w, mr_database_name = ?n, mr_chain = core_chain,
                mr_ok = False, mr_detail = Some (migration_detail e)\<rparr>) c1)"
    using assms(2-4) x id
    by (simp add: migrate_workspace_def act_bind_def lift_result_def core_chains_ok registry_row_def
        check_database_name_def split: sum.splits)
  show ?thesis
  proof (cases x)
    case (Inr u)
    then show ?thesis using m c1(1) by simp
  next
    case (Inl e)
    then have c: "c1 = c" using c1(2) by simp
    let ?f = "\<lambda>r::workspace_row. r\<lparr>ws_state := Unavailable, ws_state_detail := Some (migration_detail e),
        ws_state_changed_at := se_now env\<rparr>"
    let ?db = "(cl_control c)\<lparr>db_workspaces := update_where (\<lambda>r. ws_id r = w \<and> True) ?f (db_workspaces (cl_control c))\<rparr>"
    have s: "set_workspace_state (se_now env) w Unavailable (Some (migration_detail e)) None (cl_control c) = Inr ((), ?db)"
      using assms(1,2) by (simp add: set_workspace_state_eq)
    have "control_ok ?db" by (rule update_workspaces_ok [OF assms(1)]) simp
    moreover have "get_workspace v ?db = (if v = w then Some (?f row) else get_workspace v (cl_control c))" for v
      using assms(2) get_workspace_updated [where v = v and w = w and q = "\<lambda>_. True" and db = "cl_control c"]
      by (cases "v = w") (simp_all add: option.map_ident_strong)
    ultimately show ?thesis using m Inl c s by (simp add: act_bind_def control_tx_def)
  qed
qed

lemma migrate_workspace_never_raises_witness:
  "\<exists>r c'. migrate_workspace sample_env [core_chain] 5 sample_cluster = (Inr r, c') \<and> mr_workspace_id r = Some 5"
proof -
  have "control_ok (cl_control sample_cluster)" "get_workspace 5 (cl_control sample_cluster) = Some sample_workspace"
    using sample_control_ok sample_get_workspace by (simp_all add: sample_cluster_def)
  moreover have "database_name_ok (ws_database_name sample_workspace)"
    by (simp add: sample_workspace_def is_lower_def is_segment_char_def is_digit_def)
  ultimately show ?thesis
    using migrate_workspace_never_raises [of sample_cluster 5 sample_workspace "[core_chain]" sample_env] by auto
qed

end
