(* ===== verification/Boundary.thy ===== *)
theory Boundary
  imports Provisioning
begin

text \<open>
  \<open>rheo_core/boundary/context.py\<close>: the refusal every seam returns and its states, and what a
  request reads from its surroundings: the deployment's settings, the clock and SHA-256.

  A factory, a registry or a route returns \<open>Inl\<close> a refusal or \<open>Inr\<close> its value; an
  exception is the outer \<open>result\<close>. The request's own random bytes and new identifiers are
  arguments of the operation that draws them.
\<close>

section \<open>Refusals\<close>

record refusal =
  rf_state :: string
  rf_detail :: "string option"

type_synonym 'a refusable = "refusal + 'a"

definition refusal_text :: "refusal \<Rightarrow> string" where
  "refusal_text r = (case rf_detail r of None \<Rightarrow> rf_state r | Some d \<Rightarrow> rf_state r @ '': '' @ d)"

definition refuse_with :: "string \<Rightarrow> string option \<Rightarrow> 'a refusable" where
  "refuse_with st d = Inl \<lparr>rf_state = st, rf_detail = d\<rparr>"

lemma refuse_with_neq [simp]: "refuse_with st d \<noteq> Inr x" "Inr x \<noteq> refuse_with st d"
  by (simp_all add: refuse_with_def)

lemma refuse_with_inject [simp]: "refuse_with st d = refuse_with st' d' \<longleftrightarrow> st = st' \<and> d = d'"
  by (simp add: refuse_with_def)

named_theorems refusal_states

definition context_required :: string where [refusal_states]: "context_required = ''context_required''"
definition workspace_unavailable :: string where [refusal_states]: "workspace_unavailable = ''workspace_unavailable''"
definition membership_missing :: string where [refusal_states]: "membership_missing = ''membership_missing''"
definition profile_required :: string where [refusal_states]: "profile_required = ''profile_required''"
definition workspace_missing_detail :: string where "workspace_missing_detail = ''missing''"
definition session_missing :: string where [refusal_states]: "session_missing = ''session_missing''"
definition session_expired :: string where [refusal_states]: "session_expired = ''session_expired''"
definition session_revoked :: string where [refusal_states]: "session_revoked = ''session_revoked''"
definition workspace_unselected :: string where [refusal_states]: "workspace_unselected = ''workspace_unselected''"
definition not_a_member :: string where [refusal_states]: "not_a_member = ''not_a_member''"
definition invalid_return :: string where [refusal_states]: "invalid_return = ''invalid_return''"
definition invalid_state :: string where [refusal_states]: "invalid_state = ''invalid_state''"
definition invalid_grant :: string where [refusal_states]: "invalid_grant = ''invalid_grant''"
definition signup_closed :: string where [refusal_states]: "signup_closed = ''signup_closed''"
definition token_malformed :: string where [refusal_states]: "token_malformed = ''token_malformed''"
definition token_expired :: string where [refusal_states]: "token_expired = ''token_expired''"
definition token_revoked :: string where [refusal_states]: "token_revoked = ''token_revoked''"
definition token_wrong_kind :: string where [refusal_states]: "token_wrong_kind = ''token_wrong_kind''"
definition token_scope_invalid :: string where [refusal_states]: "token_scope_invalid = ''token_scope_invalid''"

section \<open>The surroundings of a request\<close>

record surroundings =
  su_registry :: settings_registry
  su_layer :: "(string \<times> pyval) list result"
  su_now :: datetime
  su_sha256 :: "bytes \<Rightarrow> bytes"

definition settings_int :: "surroundings \<Rightarrow> string \<Rightarrow> int result" where
  "settings_int su key =
     rbind (resolve (su_registry su) (su_layer su) None None None) (\<lambda>(vals, _).
     get_int (su_registry su) vals key)"

definition settings_str :: "surroundings \<Rightarrow> string \<Rightarrow> string result" where
  "settings_str su key =
     rbind (resolve (su_registry su) (su_layer su) None None None) (\<lambda>(vals, _).
     get_str (su_registry su) vals key)"

definition profile :: "surroundings \<Rightarrow> string result" where
  "profile su = current_profile (su_registry su) (su_layer su)"

text \<open>
  \<open>datetime + timedelta(days=n)\<close>: both the interval and the sum have a range. The clock
  counts microseconds from 1970, and year 1 to year 9999 are the dates there are.
\<close>

definition min_datetime :: datetime where "min_datetime = - 62135596800000000"
definition max_datetime :: datetime where "max_datetime = 253402300799999999"

definition add_days :: "datetime \<Rightarrow> int \<Rightarrow> datetime result" where
  "add_days t n =
     ensure (\<bar>n\<bar> \<le> 999999999) (OverflowError ''days'')
     (ensure (min_datetime \<le> t + days n \<and> t + days n \<le> max_datetime)
       (OverflowError ''date value out of range'') (Inr (t + days n)))"

lemma add_days_InrD: "add_days t n = Inr u \<Longrightarrow> u = t + days n"
  by (simp add: add_days_def)

text \<open>\<open>s.encode("ascii")\<close>.\<close>

definition char_byte :: "char \<Rightarrow> byte" where
  "char_byte c = of_nat (of_char c)"

definition encode_ascii :: "string \<Rightarrow> bytes result" where
  "encode_ascii s =
     ensure (list_all (\<lambda>c. (of_char c :: nat) < 128) s)
       (OtherException ''UnicodeEncodeError'' ''ordinal not in range(128)'')
       (Inr (map char_byte s))"

lemma char_byte_inject [simp]: "char_byte c = char_byte d \<longleftrightarrow> c = d"
proof -
  have "unat (char_byte x) = of_char x" for x
    by (simp add: char_byte_def unat_of_nat)
  then show ?thesis by (metis of_char_eq_iff)
qed

lemma encode_ascii_inject: "encode_ascii s = Inr x \<Longrightarrow> encode_ascii t = Inr x \<Longrightarrow> s = t"
  by (auto simp: encode_ascii_def inj_on_def dest: map_injective [rotated])

end
