(* ===== verification/Token_Format.thy ===== *)
theory Token_Format
  imports Boundary Interfaces
begin

text \<open>
  \<open>rheo_core/tokens/format.py\<close>: minting and parsing \<open>rheo_<kind>_<value>\<close>, with the URL-safe
  base64 of the standard library over octets, and \<open>secrets.token_urlsafe\<close>, which is the
  same encoding of fresh random bytes.
\<close>

section \<open>URL-safe base64\<close>

text \<open>The alphabet: \<open>A-Z\<close>, \<open>a-z\<close>, \<open>0-9\<close>, \<open>-\<close> and \<open>_\<close>, and the value of a character in it.\<close>

definition b64_char :: "nat \<Rightarrow> char" where
  "b64_char n = (if n < 26 then char_of (n + 65) else if n < 52 then char_of (n + 71)
     else if n < 62 then char_of (n - 4) else if n = 62 then CHR ''-'' else CHR ''_'')"

definition b64_value :: "char \<Rightarrow> nat option" where
  "b64_value c = (let n = (of_char c :: nat) in
     if 65 \<le> n \<and> n \<le> 90 then Some (n - 65) else if 97 \<le> n \<and> n \<le> 122 then Some (n - 71)
     else if 48 \<le> n \<and> n \<le> 57 then Some (n + 4) else if c = CHR ''-'' then Some 62
     else if c = CHR ''_'' then Some 63 else None)"

definition is_b64 :: "char \<Rightarrow> bool" where
  "is_b64 c = (is_upper c \<or> is_lower c \<or> is_digit c \<or> c = CHR ''-'' \<or> c = CHR ''_'')"

definition pad :: string where "pad = ''=''"

fun b64_encode :: "bytes \<Rightarrow> string" where
  "b64_encode [] = []"
| "b64_encode [a] = [b64_char (unat a div 4), b64_char (unat a mod 4 * 16)] @ pad @ pad"
| "b64_encode [a, b] = [b64_char (unat a div 4), b64_char (unat a mod 4 * 16 + unat b div 16),
     b64_char (unat b mod 16 * 4)] @ pad"
| "b64_encode (a # b # c # rest) =
     [b64_char (unat a div 4), b64_char (unat a mod 4 * 16 + unat b div 16),
      b64_char (unat b mod 16 * 4 + unat c div 64), b64_char (unat c mod 64)] @ b64_encode rest"

text \<open>
  Decoding: groups of four characters, the last of which may be padded; the unused low bits
  of a padded group are dropped. Anything else is \<open>binascii.Error\<close>, a \<open>ValueError\<close>; the
  decoder's skipping of characters outside the alphabet is never reached, because the token
  pattern has let none through.
\<close>

definition b64_quad :: "nat \<Rightarrow> nat \<Rightarrow> nat \<Rightarrow> nat \<Rightarrow> bytes" where
  "b64_quad w x y z = [of_nat (w * 4 + x div 16), of_nat (x mod 16 * 16 + y div 4), of_nat (y mod 4 * 64 + z)]"

definition b64_tail :: "char \<Rightarrow> char \<Rightarrow> char \<Rightarrow> char \<Rightarrow> bytes option" where
  "b64_tail a b c d = (case (b64_value a, b64_value b) of
       (Some w, Some x) \<Rightarrow>
         if [d] = pad \<and> [c] = pad then Some (take 1 (b64_quad w x 0 0))
         else (case b64_value c of
             None \<Rightarrow> None
           | Some y \<Rightarrow>
               if [d] = pad then Some (take 2 (b64_quad w x y 0))
               else map_option (b64_quad w x y) (b64_value d))
     | _ \<Rightarrow> None)"

fun b64_decode :: "string \<Rightarrow> bytes option" where
  "b64_decode [] = Some []"
| "b64_decode [a, b, c, d] = b64_tail a b c d"
| "b64_decode (a # b # c # d # rest) = (case (b64_value a, b64_value b, b64_value c, b64_value d) of
     (Some w, Some x, Some y, Some z) \<Rightarrow> map_option (append (b64_quad w x y z)) (b64_decode rest)
   | _ \<Rightarrow> None)"
| "b64_decode _ = None"

definition rstrip_pad :: "string \<Rightarrow> string" where
  "rstrip_pad s = rev (dropWhile (\<lambda>c. [c] = pad) (rev s))"

definition token_urlsafe :: "bytes \<Rightarrow> string" where
  "token_urlsafe raw = rstrip_pad (b64_encode raw)"

lemma is_b64_iff: "is_b64 c \<longleftrightarrow> b64_value c \<noteq> None"
  by (auto simp: is_b64_def b64_value_def Let_def is_upper_def is_lower_def is_digit_def less_eq_char_def)

lemma b64_value_char [simp]: "n < 64 \<Longrightarrow> b64_value (b64_char n) = Some n"
  by (auto simp: b64_value_def b64_char_def Let_def)

lemma b64_value_Some: "b64_value c = Some n \<Longrightarrow> n < 64 \<and> b64_char n = c"
  by (auto simp: b64_value_def b64_char_def Let_def split: if_splits)

lemma is_b64_char [simp]: "n < 64 \<Longrightarrow> is_b64 (b64_char n)"
  by (simp add: is_b64_iff)

lemma b64_value_is: "is_b64 c \<Longrightarrow> \<exists>n < 64. b64_value c = Some n \<and> b64_char n = c"
  using b64_value_Some by (auto simp: is_b64_iff)

lemma pad_not_b64: "\<not> is_b64 (CHR ''='')"
  by (simp add: is_b64_iff b64_value_def)

lemma b64_char_not_pad [simp]: "n < 64 \<Longrightarrow> b64_char n \<noteq> CHR ''=''"
  using is_b64_char [of n] pad_not_b64 by metis

section \<open>Tokens\<close>

record parsed_token =
  pt_kind :: string
  pt_raw :: bytes

definition raw_bytes :: nat where
  "raw_bytes = 32"

text \<open>\<open>mint\<close>, given the random bytes it draws.\<close>

definition mint :: "string \<Rightarrow> bytes \<Rightarrow> string \<times> bytes" where
  "mint kind raw = (''rheo_'' @ kind @ ''_'' @ rstrip_pad (b64_encode raw), raw)"

text \<open>
  \<open>_TOKEN_RE.fullmatch\<close>. A kind is lower-case letters and the underscore after it is none,
  so the kind is the longest run of them.
\<close>

definition match_token :: "string \<Rightarrow> (string \<times> string) option" where
  "match_token s =
     (if \<not> startswith s ''rheo_'' then None
      else let rest = drop 5 s; kind = takeWhile is_lower rest; tail = dropWhile is_lower rest in
        (case tail of
           c # v \<Rightarrow> if kind \<noteq> [] \<and> c = CHR ''_'' \<and> length v = 43 \<and> list_all is_b64 v
                    then Some (kind, v) else None
         | [] \<Rightarrow> None))"

definition parse_token :: "string \<Rightarrow> parsed_token option" where
  "parse_token s = (case match_token s of
       None \<Rightarrow> None
     | Some (kind, v) \<Rightarrow> (case b64_decode (v @ replicate ((4 - length v mod 4) mod 4) (CHR ''='')) of
           None \<Rightarrow> None
         | Some raw \<Rightarrow> if length raw \<noteq> raw_bytes then None
                       else Some \<lparr>pt_kind = kind, pt_raw = raw\<rparr>))"

definition token_ok :: "parsed_token \<Rightarrow> bool" where
  "token_ok p = (pt_kind p \<noteq> [] \<and> list_all is_lower (pt_kind p) \<and> length (pt_raw p) = raw_bytes)"

definition token_text :: "parsed_token \<Rightarrow> string" where
  "token_text p = fst (mint (pt_kind p) (pt_raw p))"

section \<open>Encoding and decoding are inverse\<close>

lemma byte_less: "unat (x :: byte) < 256"
proof -
  have "unat x < 2 ^ 8" using unsigned_less [of x] by simp
  then show ?thesis by simp
qed

lemma byte_divs: "unat (x :: byte) div 4 < 64" "unat x div 16 < 16" "unat x div 64 < 4"
  using byte_less [of x] by (simp_all add: less_mult_imp_div_less)

lemma b64_quad_bytes:
  "b64_quad (unat (a :: byte) div 4) (unat a mod 4 * 16 + unat (b :: byte) div 16)
     (unat b mod 16 * 4 + unat (c :: byte) div 64) (unat c mod 64) = [a, b, c]"
proof -
  have 1: "unat a div 4 * 4 + (unat a mod 4 * 16 + unat b div 16) div 16 = unat a"
    using byte_divs [of b] by simp
  have 2: "(unat a mod 4 * 16 + unat b div 16) mod 16 * 16 + (unat b mod 16 * 4 + unat c div 64) div 4 = unat b"
    using byte_divs [of b] byte_divs [of c] by simp
  have 3: "(unat b mod 16 * 4 + unat c div 64) mod 4 * 64 + unat c mod 64 = unat c"
    using byte_divs [of c] by simp
  show ?thesis unfolding b64_quad_def 1 2 3 by simp
qed

lemma sextets:
  fixes a b c :: byte
  shows "unat a div 4 < 64" and "unat a mod 4 * 16 < 64" and "unat a mod 4 * 16 + unat b div 16 < 64"
    and "unat b mod 16 * 4 < 64" and "unat b mod 16 * 4 + unat c div 64 < 64" and "unat c mod 64 < 64"
proof -
  have "unat a mod 4 < 4" "unat b mod 16 < 16" by simp_all
  then show "unat a div 4 < 64" "unat a mod 4 * 16 < 64" "unat a mod 4 * 16 + unat b div 16 < 64"
    "unat b mod 16 * 4 < 64" "unat b mod 16 * 4 + unat c div 64 < 64"
    using byte_divs [of a] byte_divs [of b] byte_divs [of c] by linarith+
qed simp

lemma b64_decode_encode: "b64_decode (b64_encode bs) = Some bs"
proof (induction bs rule: b64_encode.induct)
  case (2 a)
  show ?case using b64_quad_bytes [of a 0 0] sextets(1,2) [of a]
    by (simp add: pad_def b64_tail_def)
next
  case (3 a b)
  show ?case using b64_quad_bytes [of a b 0] sextets(1) [of a] sextets(3) [of a b] sextets(4) [of b]
    by (simp add: pad_def b64_tail_def)
next
  case (4 a b c rest)
  have *: "b64_decode (w # x # y # z # s) = map_option (\<lambda>r. a # b # c # r) (b64_decode s)"
    if "w = b64_char (unat a div 4)" "x = b64_char (unat a mod 4 * 16 + unat b div 16)"
      "y = b64_char (unat b mod 16 * 4 + unat c div 64)" "z = b64_char (unat c mod 64)" for w x y z s
    using that sextets(1) [of a] sextets(3) [of a b] sextets(5) [of b c] sextets(6) [of c] by (cases s) (auto simp: b64_tail_def b64_quad_bytes pad_def fun_eq_iff intro!: option.map_cong)
  show ?case using 4 by (simp add: *)
qed simp

section \<open>The text of a token\<close>

lemma dropWhile_pad: "is_b64 c \<Longrightarrow> dropWhile (\<lambda>c. [c] = pad) (c # xs) = c # xs"
  using pad_not_b64 by (auto simp: pad_def)

text \<open>Octets two more than a multiple of three: no full group at the end, one pad character.\<close>

lemma b64_encode_shape:
  "length bs mod 3 = 2 \<Longrightarrow>
   \<exists>v. b64_encode bs = v @ pad \<and> v \<noteq> [] \<and> list_all is_b64 v \<and> 3 * length v = 4 * length bs + 1"
proof (induction bs rule: b64_encode.induct)
  case (3 a b)
  then show ?case using sextets(1) [of a] sextets(3) [of a b] sextets(4) [of b]
    by (intro exI [of _ "butlast (b64_encode [a, b])"]) (simp add: pad_def)
next
  case (4 a b c rest)
  then obtain v where "b64_encode rest = v @ pad" "v \<noteq> []" "list_all is_b64 v"
      "3 * length v = 4 * length rest + 1" by (auto simp: mod_Suc split: if_splits)
  then show ?case
    using sextets(1) [of a] sextets(3) [of a b] sextets(5) [of b c] sextets(6) [of c]
    by (intro exI [of _ "take 4 (b64_encode (a # b # c # rest)) @ v"]) simp
qed auto

lemma rstrip_pad_append: "v \<noteq> [] \<Longrightarrow> list_all is_b64 v \<Longrightarrow> rstrip_pad (v @ pad) = v"
proof -
  assume "v \<noteq> []" "list_all is_b64 v"
  then obtain u c where "v = u @ [c]" "is_b64 c" by (cases v rule: rev_cases) auto
  then show ?thesis using pad_not_b64 by (auto simp: rstrip_pad_def pad_def)
qed

lemma token_value:
  assumes "length raw = raw_bytes"
  obtains v where "rstrip_pad (b64_encode raw) = v" and "length v = 43" and "list_all is_b64 v"
    and "b64_encode raw = v @ pad"
  using b64_encode_shape [of raw] assms that rstrip_pad_append by (auto simp: raw_bytes_def)

lemma parse_mint:
  assumes "token_ok p"
  shows "parse_token (token_text p) = Some p"
proof -
  obtain v where v: "rstrip_pad (b64_encode (pt_raw p)) = v" "length v = 43" "list_all is_b64 v"
      "b64_encode (pt_raw p) = v @ pad"
    using token_value assms by (metis token_ok_def)
  have k: "pt_kind p \<noteq> []" "list_all is_lower (pt_kind p)" using assms by (simp_all add: token_ok_def)
  have u: "\<not> is_lower (CHR ''_'')" by code_simp
  have "takeWhile is_lower (pt_kind p @ CHR ''_'' # v) = pt_kind p"
    "dropWhile is_lower (pt_kind p @ CHR ''_'' # v) = CHR ''_'' # v"
    using k u by (simp_all add: list_all_iff takeWhile_append dropWhile_append)
  then have "match_token (token_text p) = Some (pt_kind p, v)"
    using k v by (simp add: match_token_def token_text_def mint_def startswith_def)
  moreover have "b64_decode (v @ ''='') = Some (pt_raw p)"
    using b64_decode_encode [of "pt_raw p"] v(4) by (simp add: pad_def)
  ultimately show ?thesis using v assms by (simp add: parse_token_def token_ok_def)
qed

lemma match_token_Some:
  assumes "match_token s = Some (kind, v)"
  shows "s = ''rheo_'' @ kind @ ''_'' @ v" and "kind \<noteq> []" and "list_all is_lower kind"
    and "length v = 43" and "list_all is_b64 v"
proof -
  obtain rest where s: "s = ''rheo_'' @ rest"
    using assms by (auto simp: match_token_def startswith_iff split: if_splits)
  define k t where "k = takeWhile is_lower rest" and "t = dropWhile is_lower rest"
  have r: "rest = k @ t" by (simp add: k_def t_def)
  have *: "t = CHR ''_'' # v" "kind = k" "k \<noteq> []" "length v = 43" "list_all is_b64 v"
    using assms unfolding match_token_def s
    by (auto simp: Let_def k_def [symmetric] t_def [symmetric] split: list.splits if_splits)
  then show "s = ''rheo_'' @ kind @ ''_'' @ v" "kind \<noteq> []" "length v = 43" "list_all is_b64 v"
    using s r by simp_all
  show "list_all is_lower kind" using * by (auto simp: k_def list_all_iff dest: set_takeWhileD)
qed

lemma unat_byte [simp]: "n < 256 \<Longrightarrow> unat (of_nat n :: byte) = n"
  by (simp add: unat_of_nat)

lemma b64_quad_parts:
  assumes "w < 64" and "x < 64" and "y < 64" and "z < 64"
  shows "\<exists>a b c. b64_quad w x y z = [a, b, c] \<and> unat a div 4 = w \<and> unat a mod 4 * 16 + unat b div 16 = x
     \<and> unat b mod 16 * 4 + unat c div 64 = y \<and> unat c mod 64 = z"
proof -
  have d: "x div 16 < 4" "y div 4 < 16" "x mod 16 < 16" "y mod 4 < 4"
    using assms by (simp_all add: less_mult_imp_div_less)
  have "w * 4 + x div 16 < 256" "x mod 16 * 16 + y div 4 < 256" "y mod 4 * 64 + z < 256"
    using assms d by linarith+
  then have u: "unat (of_nat (w * 4 + x div 16) :: byte) = w * 4 + x div 16"
    "unat (of_nat (x mod 16 * 16 + y div 4) :: byte) = x mod 16 * 16 + y div 4"
    "unat (of_nat (y mod 4 * 64 + z) :: byte) = y mod 4 * 64 + z"
    by (intro unat_byte, simp)+
  have "(x mod 16 * 16 + y div 4) div 16 = x mod 16" "(x mod 16 * 16 + y div 4) mod 16 = y div 4"
    "(y mod 4 * 64 + z) div 64 = y mod 4" "(y mod 4 * 64 + z) mod 64 = z"
    "(w * 4 + x div 16) div 4 = w" "(w * 4 + x div 16) mod 4 = x div 16"
    using assms d by simp_all
  then have "unat (of_nat (w * 4 + x div 16) :: byte) div 4 = w
     \<and> unat (of_nat (w * 4 + x div 16) :: byte) mod 4 * 16
        + unat (of_nat (x mod 16 * 16 + y div 4) :: byte) div 16 = x
     \<and> unat (of_nat (x mod 16 * 16 + y div 4) :: byte) mod 16 * 4
        + unat (of_nat (y mod 4 * 64 + z) :: byte) div 64 = y
     \<and> unat (of_nat (y mod 4 * 64 + z) :: byte) mod 64 = z"
    unfolding u by simp
  then show ?thesis unfolding b64_quad_def by blast
qed

lemma b64_encode_quad:
  assumes "w < 64" and "x < 64" and "y < 64" and "z < 64"
  shows "b64_encode (b64_quad w x y z @ r) = b64_char w # b64_char x # b64_char y # b64_char z # b64_encode r"
  using b64_quad_parts [OF assms] by auto

lemma b64_encode_tail:
  assumes "w < 64" and "x < 64" and "y < 64"
  shows "\<exists>c. b64_encode (take 2 (b64_quad w x y 0)) = b64_char w # b64_char x # c # pad"
  using b64_quad_parts [OF assms, of 0] by auto

lemma b64_decode_value:
  "length v mod 4 = 3 \<Longrightarrow> list_all is_b64 v \<Longrightarrow>
   \<exists>r c. b64_decode (v @ pad) = Some r \<and> 4 * length r + 1 = 3 * length v
      \<and> b64_encode r = butlast v @ [c] @ pad"
proof (induction "length v" arbitrary: v rule: less_induct)
  case less
  then obtain a b c v' where v: "v = a # b # c # v'"
    by (cases v; cases "tl v"; cases "tl (tl v)") auto
  obtain w x y where q: "w < 64" "b64_value a = Some w" "b64_char w = a" "x < 64" "b64_value b = Some x"
      "b64_char x = b" "y < 64" "b64_value c = Some y" "b64_char y = c"
    using less.prems(2) b64_value_is [of a] b64_value_is [of b] b64_value_is [of c] v by auto
  show ?case
  proof (cases v')
    case Nil
    have "c \<noteq> CHR ''=''" using q by auto
    then show ?thesis using b64_encode_tail [OF q(1,4,7)] v Nil q
      by (auto simp: pad_def b64_tail_def b64_quad_def)
  next
    case (Cons d u)
    obtain z where z: "z < 64" "b64_value d = Some z" "b64_char z = d"
      using less.prems(2) b64_value_is [of d] v Cons by auto
    obtain r e where r: "b64_decode (u @ pad) = Some r" "4 * length r + 1 = 3 * length u"
        "b64_encode r = butlast u @ [e] @ pad"
      using less.hyps [of u] less.prems v Cons by auto
    have u: "u \<noteq> []" using r(2) by auto
    then obtain f g where fg: "u @ pad = f # g" by (cases u) auto
    have "b64_decode (v @ pad) = Some (b64_quad w x y z @ r)"
      using r(1) q z fg v Cons by simp
    moreover have "4 * length (b64_quad w x y z @ r) + 1 = 3 * length v"
      using r(2) v Cons by (simp add: b64_quad_def)
    moreover have "b64_encode (b64_quad w x y z @ r) = butlast v @ [e] @ pad"
      using r(3) v Cons u q z b64_encode_quad [OF q(1,4,7) z(1)] by simp
    ultimately show ?thesis by blast
  qed
qed

text \<open>
  C35: minted tokens parse back to their kind and their 32 bytes; every text the parser accepts
  names a kind of lower-case letters and 32 bytes, and differs from the minted text of what
  it parses to in its last character at most (whose two low bits the decoder drops).
\<close>

theorem token_roundtrip:
  "(token_ok p \<longrightarrow> parse_token (token_text p) = Some p)
   \<and> (parse_token s = Some p \<longrightarrow> token_ok p \<and> length (token_text p) = length s
        \<and> butlast (token_text p) = butlast s)"
proof (intro conjI impI)
  assume p: "parse_token s = Some p"
  then obtain kind v where m: "match_token s = Some (kind, v)"
    by (auto simp: parse_token_def split: option.splits)
  note M = match_token_Some [OF m]
  obtain r c where r: "b64_decode (v @ pad) = Some r" "4 * length r + 1 = 3 * length v"
      "b64_encode r = butlast v @ [c] @ pad"
    using b64_decode_value [of v] M by auto
  have P: "p = \<lparr>pt_kind = kind, pt_raw = r\<rparr>" "length r = raw_bytes"
    using p m r(1,2) M(4) by (auto simp: parse_token_def pad_def raw_bytes_def split: if_splits)
  then show ok: "token_ok p" using M by (simp add: token_ok_def)
  obtain x where x: "rstrip_pad (b64_encode r) = x" "length x = 43" "b64_encode r = x @ pad"
    using token_value [OF P(2)] by metis
  have "x = butlast v @ [c]" using r(3) x(3) by simp
  moreover have "v \<noteq> []" using M(4) by auto
  ultimately show "length (token_text p) = length s" "butlast (token_text p) = butlast s"
    using M(1,4) P x by (simp_all add: token_text_def mint_def butlast_append)
qed (rule parse_mint)

lemma token_roundtrip_witness:
  "parse_token (token_text \<lparr>pt_kind = ''cli'', pt_raw = replicate 32 7\<rparr>)
     = Some \<lparr>pt_kind = ''cli'', pt_raw = replicate 32 7\<rparr>"
proof -
  have "token_ok \<lparr>pt_kind = ''cli'', pt_raw = replicate 32 7\<rparr>"
    by (simp add: token_ok_def raw_bytes_def is_lower_def)
  then show ?thesis using token_roundtrip by blast
qed

text \<open>The parser as a text codec.\<close>

definition parsed_or_malformed :: "string \<Rightarrow> parsed_token result" where
  "parsed_or_malformed s = (case parse_token s of
     None \<Rightarrow> Inl (OtherException ''malformed'' s) | Some p \<Rightarrow> Inr p)"

interpretation token_codec: text_codec parsed_or_malformed token_text token_ok
  by unfold_locales (simp add: parsed_or_malformed_def parse_mint)

lemma token_text_inject: "token_ok p \<Longrightarrow> token_ok q \<Longrightarrow> token_text p = token_text q \<longleftrightarrow> p = q"
  by (rule token_codec.render_inject)

end
