(* ===== verification/Control_History.thy ===== *)
theory Control_History
  imports Control_Plane
begin

text \<open>
  What no sequence of control-plane writes takes back: a token or session row keeps its key,
  its owner and, once revoked, stays revoked; a host secret is never removed or moved. The
  arguments about revocation in the token and session theories rest on these.
\<close>

definition token_follows :: "access_token_row \<Rightarrow> access_token_row \<Rightarrow> bool" where
  "token_follows r r' = (tok_id r' = tok_id r \<and> tok_token_hash r' = tok_token_hash r
     \<and> tok_account_id r' = tok_account_id r \<and> tok_workspace_id r' = tok_workspace_id r
     \<and> tok_kind r' = tok_kind r \<and> tok_expires_at r' = tok_expires_at r
     \<and> (tok_revoked_at r \<noteq> None \<longrightarrow> tok_revoked_at r' \<noteq> None))"

definition session_follows :: "session_row \<Rightarrow> session_row \<Rightarrow> bool" where
  "session_follows r r' = (ses_id r' = ses_id r \<and> ses_account_id r' = ses_account_id r
     \<and> ses_created_at r' = ses_created_at r
     \<and> (ses_revoked_at r \<noteq> None \<longrightarrow> ses_revoked_at r' \<noteq> None))"

text \<open>Every row of the first list has a successor in the second.\<close>

definition rows_follow :: "('r \<Rightarrow> 'r \<Rightarrow> bool) \<Rightarrow> 'r list \<Rightarrow> 'r list \<Rightarrow> bool" where
  "rows_follow R rows rows' = (\<forall>r \<in> set rows. \<exists>r' \<in> set rows'. R r r')"

lemma token_follows_refl [simp]: "token_follows r r"
  by (simp add: token_follows_def)

lemma session_follows_refl [simp]: "session_follows r r"
  by (simp add: session_follows_def)

lemma token_follows_trans: "token_follows a b \<Longrightarrow> token_follows b c \<Longrightarrow> token_follows a c"
  by (simp add: token_follows_def)

lemma session_follows_trans: "session_follows a b \<Longrightarrow> session_follows b c \<Longrightarrow> session_follows a c"
  by (simp add: session_follows_def)

lemma rows_follow_refl [simp]: "(\<And>r. R r r) \<Longrightarrow> rows_follow R rows (rows @ new)"
  by (auto simp: rows_follow_def)

lemma rows_follow_same [simp]: "(\<And>r. R r r) \<Longrightarrow> rows_follow R rows rows"
  by (auto simp: rows_follow_def)

lemma rows_follow_update:
  "(\<And>r. R r r) \<Longrightarrow> (\<And>r. p r \<Longrightarrow> R r (f r)) \<Longrightarrow> rows_follow R rows (update_where p f rows)"
  unfolding rows_follow_def set_update_where by (cases "\<exists>r. p r") blast+

lemma rows_follow_trans:
  "(\<And>a b c. R a b \<Longrightarrow> R b c \<Longrightarrow> R a c) \<Longrightarrow> rows_follow R xs ys \<Longrightarrow> rows_follow R ys zs \<Longrightarrow> rows_follow R xs zs"
  unfolding rows_follow_def by meson

definition history :: "control_db \<Rightarrow> control_db \<Rightarrow> bool" where
  "history db db' = (rows_follow token_follows (db_tokens db) (db_tokens db')
     \<and> rows_follow session_follows (db_sessions db) (db_sessions db')
     \<and> set (db_secrets db) \<subseteq> set (db_secrets db'))"

lemma history_refl [simp]: "history db db"
  using rows_follow_refl [of token_follows "db_tokens db" "[]"]
    rows_follow_refl [of session_follows "db_sessions db" "[]"]
  by (simp add: history_def)

lemma history_trans: "history a b \<Longrightarrow> history b c \<Longrightarrow> history a c"
  unfolding history_def
  using rows_follow_trans [of token_follows "db_tokens a" "db_tokens b" "db_tokens c"] token_follows_trans
    rows_follow_trans [of session_follows "db_sessions a" "db_sessions b" "db_sessions c"] session_follows_trans
  by blast

text \<open>A write that leaves the three tables alone, or only appends to them.\<close>

lemma history_append:
  assumes "db_tokens db' = db_tokens db @ ts" and "db_sessions db' = db_sessions db @ ss"
    and "db_secrets db' = db_secrets db @ cs"
  shows "history db db'"
  using assms by (simp add: history_def)

lemma history_tokens:
  "(\<And>r. p r \<Longrightarrow> token_follows r (f r)) \<Longrightarrow> history db (db\<lparr>db_tokens := update_where p f (db_tokens db)\<rparr>)"
  using history_refl [of db] by (simp add: history_def rows_follow_update)

lemma history_sessions:
  "(\<And>r. p r \<Longrightarrow> session_follows r (f r)) \<Longrightarrow>
     history db (db\<lparr>db_sessions := update_where p f (db_sessions db)\<rparr>)"
  using history_refl [of db] by (simp add: history_def rows_follow_update)

lemma control_step_history: "control_step db db' \<Longrightarrow> history db db'"
proof (induction rule: control_step.induct)
  case step_account
  then show ?case by (intro history_append [where ts = "[]" and ss = "[]" and cs = "[]"])
      (auto simp: insert_account_def put_account_def Let_def)
next
  case step_identity
  then show ?case by (intro history_append [where ts = "[]" and ss = "[]" and cs = "[]"])
      (auto dest!: insert_identity_InrD simp: put_identity_def)
next
  case step_workspace
  then show ?case by (intro history_append [where ts = "[]" and ss = "[]" and cs = "[]"])
      (auto dest!: insert_workspace_InrD simp: put_workspace_def split: if_splits)
next
  case step_state
  then show ?case by (intro history_append [where ts = "[]" and ss = "[]" and cs = "[]"])
      (auto dest!: set_workspace_state_InrD)
next
  case step_membership
  then show ?case by (intro history_append [where ts = "[]" and ss = "[]" and cs = "[]"])
      (auto dest!: insert_membership_InrD simp: put_membership_def split: if_splits)
next
  case (step_session i now a db row db')
  then show ?case by (intro history_append [where ts = "[]" and ss = "[row]" and cs = "[]"])
      (auto simp: insert_session_def put_session_def Let_def)
next
  case step_touch
  then show ?case by (auto simp: touch_session_def update_session_def session_follows_def intro!: history_sessions)
next
  case step_revoke
  then show ?case by (auto simp: revoke_session_def update_session_def session_follows_def intro!: history_sessions)
next
  case step_active
  then show ?case
    by (auto simp: set_active_workspace_def update_session_def session_follows_def intro!: history_sessions)
next
  case (step_secret now h i host db u db')
  then show ?case
    by (intro history_append [where ts = "[]" and ss = "[]" and cs = "[\<lparr>sec_secret_hash = h,
          sec_session_id = i, sec_host = host, sec_created_at = now\<rparr>]"])
      (auto dest!: insert_session_secret_InrD simp: put_secret_def)
next
  case step_grant
  then show ?case by (intro history_append [where ts = "[]" and ss = "[]" and cs = "[]"])
      (auto dest!: insert_session_grant_InrD simp: put_grant_def)
next
  case step_consume
  then show ?case by (intro history_append [where ts = "[]" and ss = "[]" and cs = "[]"])
      (auto simp: consume_session_grant_def Let_def)
next
  case step_provider
  then show ?case by (intro history_append [where ts = "[]" and ss = "[]" and cs = "[]"])
      (auto simp: upsert_identity_provider_def put_provider_def Let_def)
next
  case (step_token i now a w kind issued h sn pu t1 db row db')
  then show ?case by (intro history_append [where ts = "[row]" and ss = "[]" and cs = "[]"])
      (auto dest!: insert_access_token_InrD simp: put_token_def)
next
  case step_revoke_token
  then show ?case by (auto simp: revoke_access_token_def update_token_def token_follows_def intro!: history_tokens)
next
  case step_touch_token
  then show ?case
    by (auto simp: touch_access_token_last_used_def update_token_def token_follows_def intro!: history_tokens)
next
  case step_token_operations
  then show ?case by (intro history_append [where ts = "[]" and ss = "[]" and cs = "[]"])
      (auto simp: insert_access_token_operations_def put_token_operations_def split: if_splits)
qed

lemma control_steps_history: "control_step\<^sup>*\<^sup>* db db' \<Longrightarrow> history db db'"
  by (induction rule: rtranclp_induct) (auto intro: history_trans control_step_history)

lemma control_steps_ok: "control_step\<^sup>*\<^sup>* db db' \<Longrightarrow> control_ok db \<Longrightarrow> control_ok db'"
  by (induction rule: rtranclp_induct) (auto intro: control_step_ok)

lemma find_unique_and:
  "distinct (map key rows) \<Longrightarrow> r \<in> set rows \<Longrightarrow> p r \<Longrightarrow> find (\<lambda>x. key x = key r \<and> p x) rows = Some r"
  by (induction rows) auto

end
