(* ===== verification/Sessions.thy ===== *)
theory Sessions
  imports Token_Format Control_History
begin

text \<open>
  \<open>rheo_core/sessions/\<close>: the life of a session (\<open>service.py\<close>), the one-use grants that carry
  it to another host (\<open>grants.py\<close>) and the cookies that hold it (\<open>cookies.py\<close>).

  Each function is one control-plane transaction; the fresh identifier, secret or code bytes
  it draws are arguments. Logging is not modelled.
\<close>

section \<open>Sessions\<close>

definition session_policy :: "surroundings \<Rightarrow> (int \<times> int) result" where
  "session_policy su =
     rbind (settings_int su ''identity.session_idle_days'') (\<lambda>idle.
     rbind (settings_int su ''identity.session_max_days'') (\<lambda>longest. Inr (idle, longest)))"

definition compute_expiry :: "surroundings \<Rightarrow> datetime \<Rightarrow> datetime \<Rightarrow> datetime result" where
  "compute_expiry su now created_at =
     rbind (session_policy su) (\<lambda>(idle_days, max_days).
     rbind (add_days now idle_days) (\<lambda>idle_deadline.
     rbind (add_days created_at max_days) (\<lambda>absolute_deadline.
     Inr (min idle_deadline absolute_deadline))))"

definition create_session :: "surroundings \<Rightarrow> uuid \<Rightarrow> uuid \<Rightarrow> control_db \<Rightarrow> session_row db_result" where
  "create_session su new_id account_id db =
     rbind (insert_session new_id (su_now su) account_id db) (\<lambda>(row, db1).
     rbind (compute_expiry su (ses_created_at row) (ses_created_at row)) (\<lambda>expiry.
     rbind (touch_session (ses_id row) (ses_created_at row) expiry db1) (\<lambda>(_, db2).
     Inr (row\<lparr>ses_last_seen_at := ses_created_at row, ses_expires_at := expiry\<rparr>, db2))))"

definition mint_host_secret :: "surroundings \<Rightarrow> bytes \<Rightarrow> uuid \<Rightarrow> string \<Rightarrow> control_db \<Rightarrow> bytes db_result" where
  "mint_host_secret su secret session_id host db =
     rbind (insert_session_secret (su_now su) (su_sha256 su secret) session_id host db)
       (\<lambda>(_, db'). Inr (secret, db'))"

definition touch :: "surroundings \<Rightarrow> uuid \<Rightarrow> control_db \<Rightarrow> unit db_result" where
  "touch su session_id db = (case get_session session_id db of
       None \<Rightarrow> Inr ((), db)
     | Some row \<Rightarrow>
         rbind (compute_expiry su (su_now su) (ses_created_at row)) (\<lambda>expiry.
         touch_session session_id (su_now su) expiry db))"

definition revoke :: "surroundings \<Rightarrow> uuid \<Rightarrow> control_db \<Rightarrow> unit db_result" where
  "revoke su session_id db = revoke_session (su_now su) session_id db"

definition switch_workspace :: "surroundings \<Rightarrow> uuid \<Rightarrow> uuid \<Rightarrow> control_db \<Rightarrow> refusal option db_result" where
  "switch_workspace su session_id target_workspace_id db = (case get_session session_id db of
       None \<Rightarrow> Inr (Some \<lparr>rf_state = session_missing, rf_detail = None\<rparr>, db)
     | Some row \<Rightarrow> (case get_membership (ses_account_id row) target_workspace_id db of
           None \<Rightarrow> Inr (Some \<lparr>rf_state = not_a_member, rf_detail = None\<rparr>, db)
         | Some _ \<Rightarrow> rbind (set_active_workspace (su_now su) session_id target_workspace_id db)
             (\<lambda>(_, db'). Inr (None, db'))))"

section \<open>Grants\<close>

definition grant_expiry_seconds :: int where
  "grant_expiry_seconds = 60"

definition write_grant :: "surroundings \<Rightarrow> bytes \<Rightarrow> uuid \<Rightarrow> string \<Rightarrow> bytes \<Rightarrow> control_db \<Rightarrow> string db_result" where
  "write_grant su random session_id target_host nonce db =
     (let code = token_urlsafe random in
      rbind (encode_ascii code) (\<lambda>raw.
      rbind (insert_session_grant (su_sha256 su raw) session_id target_host (su_sha256 su nonce)
        (su_now su + seconds grant_expiry_seconds) db) (\<lambda>(_, db'). Inr (code, db'))))"

definition consume_grant :: "surroundings \<Rightarrow> string \<Rightarrow> string \<Rightarrow> bytes \<Rightarrow> control_db
    \<Rightarrow> session_grant_row refusable db_result" where
  "consume_grant su code host nonce db =
     rbind (encode_ascii code) (\<lambda>raw.
     case consume_session_grant (su_now su) (su_sha256 su raw) host (su_sha256 su nonce) db of
       (None, db') \<Rightarrow> Inr (refuse_with invalid_grant None, db')
     | (Some row, db') \<Rightarrow> Inr (Inr row, db'))"

section \<open>Cookies\<close>

definition session_cookie :: string where "session_cookie = ''rheo_session''"
definition oauth_state_cookie :: string where "oauth_state_cookie = ''rheo_oauth_state''"
definition continue_cookie :: string where "continue_cookie = ''rheo_continue''"

definition max_age_by_name :: "(string \<times> int option) list" where
  "max_age_by_name = [(session_cookie, None), (oauth_state_cookie, Some 600), (continue_cookie, Some 300)]"

definition build_cookie :: "surroundings \<Rightarrow> string \<Rightarrow> string \<Rightarrow> string \<Rightarrow> string result" where
  "build_cookie su name v scheme = (case map_of max_age_by_name name of
       None \<Rightarrow> Inl (ValueError (''unknown cookie name '' @ py_repr name))
     | Some max_age \<Rightarrow>
         rbind (if scheme \<noteq> ''http'' then Inr True
                else rbind (profile su) (\<lambda>p. Inr (p = ''production''))) (\<lambda>secure.
         Inr (join_with ''; '' ([name @ ''='' @ v, ''HttpOnly'', ''SameSite=Lax'', ''Path=/'']
           @ (case max_age of None \<Rightarrow> [] | Some n \<Rightarrow> [''Max-Age='' @ int_str n])
           @ (if secure then [''Secure''] else [])))))"

section \<open>How long a session lives\<close>

lemma compute_expiry_InrD:
  assumes "compute_expiry su now created = Inr e"
  shows "\<exists>idle longest. session_policy su = Inr (idle, longest) \<and> e = min (now + days idle) (created + days longest)"
  using assms by (auto simp: compute_expiry_def dest!: add_days_InrD)

lemma touch_session_eq:
  assumes "control_ok db"
  shows "touch_session i t1 t2 db = (case get_session i db of
     None \<Rightarrow> Inl (session_row_missing i '' has no row'')
   | Some _ \<Rightarrow> Inr ((), db\<lparr>db_sessions := update_where (\<lambda>r. ses_id r = i)
       (\<lambda>r. r\<lparr>ses_last_seen_at := t1, ses_expires_at := t2\<rparr>) (db_sessions db)\<rparr>))"
  using update_session_eq [OF assms] by (simp add: touch_session_def)

lemma touch_step: "touch su i db = Inr (u, db') \<Longrightarrow> control_step\<^sup>*\<^sup>* db db'"
  by (auto simp: touch_def split: option.splits intro: control_step.step_touch)

lemma create_session_InrD:
  assumes "control_ok db" and "create_session su i a db = Inr (row, db')"
  shows "control_step\<^sup>*\<^sup>* db db'" and "get_session i db' = Some row" and "ses_created_at row = su_now su"
    and "ses_account_id row = a" and "ses_id row = i" and "ses_revoked_at row = None"
    and "compute_expiry su (su_now su) (su_now su) = Inr (ses_expires_at row)"
proof -
  from assms(2) obtain r db1 e u where ins: "insert_session i (su_now su) a db = Inr (r, db1)"
    and e: "compute_expiry su (ses_created_at r) (ses_created_at r) = Inr e"
    and t: "touch_session (ses_id r) (ses_created_at r) e db1 = Inr (u, db')"
    and row: "row = r\<lparr>ses_last_seen_at := ses_created_at r, ses_expires_at := e\<rparr>"
    by (auto simp: create_session_def)
  have step: "control_step db db1" using ins by (rule control_step.step_session)
  then show "control_step\<^sup>*\<^sup>* db db'"
    using control_step.step_touch [OF t] by (meson converse_rtranclp_into_rtranclp r_into_rtranclp)
  have r: "r = \<lparr>ses_id = i, ses_account_id = a, ses_active_workspace_id = None,
      ses_active_workspace_changed_at = None, ses_created_at = su_now su, ses_last_seen_at = su_now su,
      ses_expires_at = su_now su, ses_revoked_at = None\<rparr>" and db1: "db_sessions db1 = db_sessions db @ [r]"
    using ins by (auto simp: insert_session_def put_session_def Let_def)
  have ok1: "control_ok db1" using control_step_ok [OF step assms(1)] .
  have "get_session i db1 = Some r"
    using find_unique [of ses_id "db_sessions db1" r] distinct_session_ids [OF ok1] db1 r
    by (simp add: get_session_def)
  then show "get_session i db' = Some row"
    using t touch_session_eq [OF ok1] r row
    by (auto simp: get_updated_session)
  show "ses_created_at row = su_now su" "ses_account_id row = a" "ses_id row = i" "ses_revoked_at row = None"
    "compute_expiry su (su_now su) (su_now su) = Inr (ses_expires_at row)"
    using row r e by simp_all
qed

end
