(* ===== verification/Record_Ref.thy ===== *)
theory Record_Ref
  imports Py_Text Interfaces
begin

text \<open>
  \<open>rheo_contracts/refs.py\<close>: the record reference \<open>module.record_type:uuid\<close>, its parser and
  its canonical text.
\<close>

record record_ref =
  rr_module :: string
  rr_record_type :: string
  rr_id :: uuid

definition reserved_module_segment :: string where
  "reserved_module_segment = ''core''"

definition is_reserved_module :: "string \<Rightarrow> bool" where
  "is_reserved_module m = (m = reserved_module_segment)"

text \<open>
  \<open>_REFERENCE.fullmatch\<close>: two segments around a dot, then a colon and the rest. The segment
  classes contain neither dot nor colon, so the match is the split at the first dot and the
  first colon. The pattern's \<open>$\<close> also matches before a final line feed, but \<open>fullmatch\<close>
  needs the whole text and \<open>[^:]+\<close> takes a line feed anyway.
\<close>

definition match_reference :: "string \<Rightarrow> (string \<times> string \<times> string) option" where
  "match_reference v = (case partition_at (CHR ''.'') v of (m, dot, rest) \<Rightarrow>
     (case partition_at (CHR '':'') rest of (t, colon, i) \<Rightarrow>
       if dot \<noteq> [] \<and> colon \<noteq> [] \<and> is_segment m \<and> is_segment t
          \<and> i \<noteq> [] \<and> CHR '':'' \<notin> set i
       then Some (m, t, i) else None))"

text \<open>
  The pydantic constraint of \<open>Segment\<close>. Its engine is not Python's, and its \<open>$\<close> is the end
  of the text.
\<close>

definition make_record_ref :: "string \<Rightarrow> string \<Rightarrow> uuid \<Rightarrow> record_ref result" where
  "make_record_ref m t i =
     ensure (is_segment m \<and> is_segment t) (OtherException ''ValidationError'' ''segment'')
       (Inr \<lparr>rr_module = m, rr_record_type = t, rr_id = i\<rparr>)"

definition parse_ref :: "string \<Rightarrow> record_ref result" where
  "parse_ref v = (case match_reference v of
       None \<Rightarrow> Inl (RecordRefMalformed v)
     | Some (m, t, raw) \<Rightarrow> (case py_uuid raw of
           None \<Rightarrow> Inl (RecordRefMalformed v)
         | Some i \<Rightarrow> if uuid_str i \<noteq> raw then Inl (RecordRefMalformed v)
                     else make_record_ref m t i))"

definition format_ref :: "record_ref \<Rightarrow> string" where
  "format_ref r = rr_module r @ ''.'' @ rr_record_type r @ '':'' @ uuid_str (rr_id r)"

definition ref_ok :: "record_ref \<Rightarrow> bool" where
  "ref_ok r = (is_segment (rr_module r) \<and> is_segment (rr_record_type r))"

lemma uuid_str_nonempty: "uuid_str u \<noteq> []"
  by (simp add: uuid_str_def Let_def)

lemma match_format: "ref_ok r \<Longrightarrow> match_reference (format_ref r) =
    Some (rr_module r, rr_record_type r, uuid_str (rr_id r))"
  using segment_excludes uuid_str_no_colon uuid_str_nonempty
  by (simp add: match_reference_def format_ref_def ref_ok_def)

lemma parse_format: "ref_ok r \<Longrightarrow> parse_ref (format_ref r) = Inr r"
  by (simp add: parse_ref_def match_format make_record_ref_def ref_ok_def)

lemma match_reference_Some:
  "match_reference v = Some (m, t, i) \<Longrightarrow> v = m @ ''.'' @ t @ '':'' @ i \<and> is_segment m \<and> is_segment t"
  using partition_at_Some
  by (fastforce simp: match_reference_def split: prod.splits if_splits)

lemma parse_ref_InrD: "parse_ref v = Inr r \<Longrightarrow> ref_ok r \<and> format_ref r = v"
  using match_reference_Some
  by (fastforce simp: parse_ref_def make_record_ref_def ref_ok_def format_ref_def
      split: option.splits prod.splits if_splits)

interpretation record_refs: exact_text_codec parse_ref format_ref ref_ok
  by unfold_locales (simp_all add: parse_format parse_ref_InrD)

text \<open>
  A record reference parses exactly when its text is the canonical text of a well-formed
  reference, and then it parses to that reference: \<open>parse\<close> and \<open>format\<close> are inverse to each
  other, and no second spelling of a reference is accepted.
\<close>

theorem record_ref_roundtrip:
  "parse_ref v = Inr r \<longleftrightarrow> ref_ok r \<and> format_ref r = v"
  by (rule record_refs.parse_iff)

text \<open>
  Every text that is not a reference is refused with the text itself and nothing else.
\<close>

theorem record_ref_refusal:
  "parse_ref v = Inl e \<Longrightarrow> e = RecordRefMalformed v \<and> (\<forall>r. ref_ok r \<longrightarrow> format_ref r \<noteq> v)"
proof (intro conjI allI impI)
  assume e: "parse_ref v = Inl e"
  show "e = RecordRefMalformed v"
    using e match_reference_Some [of v]
    by (auto simp: parse_ref_def make_record_ref_def split: option.splits if_splits)
  show "format_ref r \<noteq> v" if "ref_ok r" for r
    using e parse_format [OF that] by auto
qed

lemma record_ref_refusal_witness:
  "parse_ref ''core.note'' = Inl (RecordRefMalformed ''core.note'')
   \<and> format_ref \<lparr>rr_module = ''core'', rr_record_type = ''note'', rr_id = 1\<rparr> \<noteq> ''core.note''"
proof -
  have p: "parse_ref ''core.note'' = Inl (RecordRefMalformed ''core.note'')" by code_simp
  have "ref_ok \<lparr>rr_module = ''core'', rr_record_type = ''note'', rr_id = 1\<rparr>" by code_simp
  then show ?thesis using p record_ref_refusal [OF p] by blast
qed

end
