(* ===== verification/Operations_Registry.thy ===== *)
theory Operations_Registry
  imports Boundary Interfaces Record_Ref
begin

text \<open>
  \<open>rheo_core/operations/refusals.py\<close> and \<open>registry.py\<close>: what the registry checks of a
  declaration, its table, and the authorization of a call.

  A handler is compared by identity (\<open>is\<close>), so it is a type parameter \<open>'h\<close> with equality. A
  pydantic model class is its name; \<open>models\<close> gives what the registry reads of the class, or
  \<open>None\<close> when the name is not a model. The \<open>isinstance\<close> guards on the declaration, its safety
  class and the handler are HOL types here.
\<close>

section \<open>Refusal states\<close>

definition operation_unknown :: string where [refusal_states]: "operation_unknown = ''operation_unknown''"
definition operation_not_permitted :: string where [refusal_states]: "operation_not_permitted = ''operation_not_permitted''"
definition module_disabled :: string where [refusal_states]: "module_disabled = ''module_disabled''"
definition role_not_permitted :: string where [refusal_states]: "role_not_permitted = ''role_not_permitted''"
definition input_invalid :: string where [refusal_states]: "input_invalid = ''input_invalid''"
definition output_invalid :: string where [refusal_states]: "output_invalid = ''output_invalid''"
definition succeeded :: string where [refusal_states]: "succeeded = ''succeeded''"
definition failed :: string where [refusal_states]: "failed = ''failed''"
definition handler_failed :: string where [refusal_states]: "handler_failed = ''handler_failed''"

definition authorization_states :: "string list" where
  "authorization_states = [operation_unknown, operation_not_permitted, module_disabled, role_not_permitted]"

section \<open>Origins\<close>

definition core_module_id :: string where "core_module_id = ''core''"
definition harness_module_id :: string where "harness_module_id = ''harness''"

definition origin_module_ids :: "(string \<times> string) list" where
  "origin_module_ids = [(core_origin, core_module_id), (test_harness_origin, harness_module_id)]"

text \<open>\<open>[a-z][a-z0-9_]*\<close> three times, with dots between: the dots split it.\<close>

definition operation_name_ok :: "string \<Rightarrow> bool" where
  "operation_name_ok name = (length (split_on (CHR ''.'') name) = 3
     \<and> list_all is_segment (split_on (CHR ''.'') name))"

definition module_id_for_origin :: "string \<Rightarrow> string result" where
  "module_id_for_origin origin =
     ensure (origin \<noteq> []) (ValueError ''a registration needs a non-empty origin'')
     (Inr (case map_of origin_module_ids origin of Some m \<Rightarrow> m | None \<Rightarrow> origin))"

definition check_origin_profile :: "surroundings \<Rightarrow> string \<Rightarrow> unit result" where
  "check_origin_profile su origin =
     (if origin = test_harness_origin
      then rbind (profile su) (\<lambda>p.
        ensure (p = ''test'') (RegistrationRefused origin
          (''origin '' @ py_repr origin @ '' is accepted only under profile = test (resolved profile is ''
             @ py_repr p @ '')'')) (Inr ()))
      else Inr ())"

definition check_origin :: "surroundings \<Rightarrow> string \<Rightarrow> string \<Rightarrow> string \<Rightarrow> unit result" where
  "check_origin su origin module_id name =
     rbind (module_id_for_origin origin) (\<lambda>expected.
     ensure (module_id = expected) (RegistrationRefused name
       (''prefix '' @ py_repr module_id @ '' is not the registering origin's module id '' @ py_repr expected))
     (ensure (\<not> (module_id = harness_module_id \<and> origin \<noteq> test_harness_origin)) (RegistrationRefused name
       (''module id '' @ py_repr harness_module_id @ '' is reserved for origin '' @ py_repr test_harness_origin))
     (ensure (\<not> (is_reserved_module module_id \<and> origin \<noteq> core_origin)) (RegistrationRefused name
       (''module id '' @ py_repr module_id @ '' is reserved for origin '' @ py_repr core_origin))
     (check_origin_profile su origin))))"

section \<open>Input models\<close>

text \<open>An \<open>AliasPath\<close> has no name of its own; a choice is a name or a path.\<close>

datatype validation_alias = Alias_Name string | Alias_Path | Alias_Choices "string option list"

record model_field =
  mf_name :: string
  mf_alias :: "string option"
  mf_validation_alias :: "validation_alias option"

record input_model =
  im_fields :: "model_field list"
  im_extra :: "string option"

definition field_names :: "model_field \<Rightarrow> string list" where
  "field_names f = mf_name f # (case mf_alias f of Some a \<Rightarrow> [a] | None \<Rightarrow> [])
     @ (case mf_validation_alias f of
          Some (Alias_Name a) \<Rightarrow> [a]
        | Some (Alias_Choices cs) \<Rightarrow> List.map_filter id cs
        | _ \<Rightarrow> [])"

definition alias_names :: "input_model \<Rightarrow> string list" where
  "alias_names im = concat (map field_names (im_fields im))"

definition reserved_input_fields :: "input_model \<Rightarrow> string list" where
  "reserved_input_fields im =
     filter (\<lambda>n. n \<in> set reserved_input_fields_all) (remdups (alias_names im))"

section \<open>The table\<close>

record 'h registered_operation =
  ro_declaration :: operation_declaration
  ro_handler :: 'h
  ro_origin :: string
  ro_module_id :: string

definition ro_name :: "'h registered_operation \<Rightarrow> string" where
  "ro_name r = od_name (ro_declaration r)"

type_synonym 'h operation_registry = "(string \<times> 'h registered_operation) list"

type_synonym models = "string \<Rightarrow> input_model option"

definition register_operation :: "surroundings \<Rightarrow> models \<Rightarrow> operation_declaration \<Rightarrow> 'h \<Rightarrow> string
    \<Rightarrow> 'h operation_registry \<Rightarrow> ('h registered_operation \<times> 'h operation_registry) result" where
  "register_operation su models decl handler origin reg =
     (let name = od_name decl in
      ensure (operation_name_ok name)
        (RegistrationRefused name ''operation names are <module_id>.<noun>.<verb>'')
      (let module_id = fst (partition_at (CHR ''.'') name) in
       rbind (check_origin su origin module_id name) (\<lambda>_.
       case models (od_input_model decl) of
         None \<Rightarrow> Inl (RegistrationRefused name ''input_model is not a pydantic model'')
       | Some im \<Rightarrow>
           ensure (reserved_input_fields im = []) (RegistrationRefused name
             (''input model declares reserved field(s) '' @ py_repr_list (sort (reserved_input_fields im))
               @ ''; workspace, actor and storage identity come from the context only''))
           (ensure (im_extra im \<noteq> Some ''allow'') (RegistrationRefused name
             (''input model sets extra = 'allow', which would carry a reserved ''
               @ ''payload key into model_extra''))
           (case map_of reg name of
              Some existing \<Rightarrow>
                if ro_declaration existing = decl \<and> ro_handler existing = handler
                   \<and> ro_origin existing = origin
                then Inr (existing, reg)
                else Inl (RegistrationRefused name
                  (''already registered (origin '' @ py_repr (ro_origin existing) @ '')''))
            | None \<Rightarrow>
                let registered = \<lparr>ro_declaration = decl, ro_handler = handler, ro_origin = origin,
                                  ro_module_id = module_id\<rparr>
                in Inr (registered, reg @ [(name, registered)]))))))"

definition lookup_operation :: "'h operation_registry \<Rightarrow> string \<Rightarrow> 'h registered_operation option" where
  "lookup_operation reg name = map_of reg name"

definition operation_names :: "'h operation_registry \<Rightarrow> string set" where
  "operation_names reg = set (map fst reg)"

text \<open>A \<open>ctx\<close> that is not a \<open>WorkspaceContext\<close> is \<open>None\<close>.\<close>

definition authorize :: "'h operation_registry \<Rightarrow> workspace_context option \<Rightarrow> string
    \<Rightarrow> 'h registered_operation refusable" where
  "authorize reg ctx name = (case ctx of
       None \<Rightarrow> refuse_with context_required (Some ''authorize() needs a WorkspaceContext'')
     | Some cx \<Rightarrow> (case map_of reg name of
           None \<Rightarrow> refuse_with operation_unknown (Some (py_repr name @ '' is not a registered operation''))
         | Some operation \<Rightarrow>
             if (case cx_operation_set cx of All_Operations \<Rightarrow> False | Operations names \<Rightarrow> name \<notin> names)
             then refuse_with operation_not_permitted (Some (name @ '' is not in the context's operation set''))
             else if ro_module_id operation \<noteq> core_module_id
                     \<and> ro_module_id operation \<notin> cx_enabled_modules cx
             then refuse_with module_disabled (Some (''module '' @ py_repr (ro_module_id operation)
                    @ '' is not enabled in this workspace''))
             else if cx_role cx \<notin> od_roles (ro_declaration operation)
             then refuse_with role_not_permitted (Some (name @ '' is not permitted to role ''
                    @ py_repr (role_value (cx_role cx))))
             else Inr operation))"

section \<open>The registry is a declaration table\<close>

type_synonym 'h registration = "operation_declaration \<times> 'h \<times> string"

definition registrable :: "surroundings \<Rightarrow> models \<Rightarrow> 'h registration \<Rightarrow> bool" where
  "registrable su models d = (case d of (decl, _, origin) \<Rightarrow>
     operation_name_ok (od_name decl)
     \<and> check_origin su origin (fst (partition_at (CHR ''.'') (od_name decl))) (od_name decl) = Inr ()
     \<and> (case models (od_input_model decl) of None \<Rightarrow> False
        | Some im \<Rightarrow> reserved_input_fields im = [] \<and> im_extra im \<noteq> Some ''allow''))"

definition add_operation :: "surroundings \<Rightarrow> models \<Rightarrow> 'h registration \<Rightarrow> 'h operation_registry
    \<Rightarrow> 'h operation_registry result" where
  "add_operation su models d reg = (case d of (decl, handler, origin) \<Rightarrow>
     rbind (register_operation su models decl handler origin reg) (\<lambda>(_, reg'). Inr reg'))"

definition declared_operation :: "'h operation_registry \<Rightarrow> string \<Rightarrow> 'h registration option" where
  "declared_operation reg name =
     map_option (\<lambda>r. (ro_declaration r, ro_handler r, ro_origin r)) (map_of reg name)"

definition registered :: "'h registration \<Rightarrow> 'h registered_operation" where
  "registered d = (case d of (decl, handler, origin) \<Rightarrow>
     \<lparr>ro_declaration = decl, ro_handler = handler, ro_origin = origin,
      ro_module_id = fst (partition_at (CHR ''.'') (od_name decl))\<rparr>)"

lemma add_operation_eq:
  "registrable su models d \<Longrightarrow> add_operation su models d reg =
     (case map_of reg (od_name (fst d)) of
        None \<Rightarrow> Inr (reg @ [(od_name (fst d), registered d)])
      | Some r \<Rightarrow> if (ro_declaration r, ro_handler r, ro_origin r) = d then Inr reg
                  else Inl (RegistrationRefused (od_name (fst d))
                    (''already registered (origin '' @ py_repr (ro_origin r) @ '')'')))"
  by (cases d) (auto simp: registrable_def add_operation_def register_operation_def registered_def Let_def
      split: option.splits)

lemma add_operation_inadmissible:
  assumes "\<not> registrable su models d"
  shows "\<exists>e. add_operation su models d reg = Inl e"
proof (cases "add_operation su models d reg")
  case (Inr reg')
  then have "registrable su models d"
    by (cases d) (auto simp: registrable_def add_operation_def register_operation_def Let_def
        split: option.splits if_splits)
  then show ?thesis using assms by simp
qed blast

interpretation operations_table: declaration_table "add_operation su models" declared_operation
  "\<lambda>d. od_name (fst d)" "registrable su models" for su models
proof unfold_locales
  show "\<exists>t'. add_operation su models d t = Inr t' \<and>
      (\<forall>k. declared_operation t' k = (if k = od_name (fst d) then Some d else declared_operation t k))"
    if "registrable su models d" "declared_operation t (od_name (fst d)) = None" for d t
    using that
    by (cases d) (auto simp: add_operation_eq declared_operation_def registered_def map_add_def
        split: option.splits)
  show "add_operation su models d t = Inr t"
    if "registrable su models d" "declared_operation t (od_name (fst d)) = Some d" for d t
    using that by (auto simp: add_operation_eq declared_operation_def split: option.splits)
  show "\<exists>e. add_operation su models d t = Inl e"
    if "declared_operation t (od_name (fst d)) = Some d'" "d' \<noteq> d" for d d' t
    using that add_operation_inadmissible [of su models d t]
    by (cases "registrable su models d") (auto simp: add_operation_eq declared_operation_def split: option.splits)
qed (rule add_operation_inadmissible)

section \<open>What a registry holds\<close>

text \<open>Every entry is what its registration made it.\<close>

definition registry_ok :: "surroundings \<Rightarrow> models \<Rightarrow> 'h operation_registry \<Rightarrow> bool" where
  "registry_ok su models reg = (\<forall>name r. map_of reg name = Some r \<longrightarrow>
     name = ro_name r \<and> registrable su models (ro_declaration r, ro_handler r, ro_origin r)
     \<and> ro_module_id r = fst (partition_at (CHR ''.'') name))"

lemma add_operation_ok:
  assumes "registry_ok su models reg" and "add_operation su models d reg = Inr reg'"
  shows "registry_ok su models reg'"
proof -
  have adm: "registrable su models d" using assms(2) by (rule operations_table.reg_InrD(1))
  show ?thesis using assms adm
    by (cases d) (auto simp: add_operation_eq registry_ok_def registered_def ro_name_def map_add_def
        split: option.splits if_splits)
qed

lemma add_operations_ok:
  "rfold (add_operation su models) ds reg = Inr reg' \<Longrightarrow> registry_ok su models reg \<Longrightarrow> registry_ok su models reg'"
  by (rule rfold_invariant [where P = "registry_ok su models"]) (auto intro: add_operation_ok)

lemma empty_operations_ok: "registry_ok su models []"
  by (simp add: registry_ok_def)

lemma origin_names [simp]:
  "core_origin = core_module_id" "test_harness_origin \<noteq> core_module_id"
  "harness_module_id \<noteq> core_module_id" "core_module_id \<noteq> test_harness_origin"
  "harness_module_id \<noteq> test_harness_origin" "core_module_id \<noteq> harness_module_id" "test_harness_origin \<noteq> harness_module_id"
  "is_reserved_module m \<longleftrightarrow> m = core_module_id"
  by (simp_all add: core_origin_def core_module_id_def test_harness_origin_def harness_module_id_def
      is_reserved_module_def reserved_module_segment_def)

lemma module_id_for_origin_InrD:
  "module_id_for_origin origin = Inr m \<Longrightarrow> m = (if origin = test_harness_origin then harness_module_id else origin)"
  by (auto simp: module_id_for_origin_def origin_module_ids_def split: if_splits)

lemma check_origin_InrD:
  assumes "check_origin su origin module_id name = Inr u"
  shows "origin \<noteq> [] \<and> module_id = (if origin = test_harness_origin then harness_module_id else origin)"
    and "module_id = core_module_id \<longleftrightarrow> origin = core_origin"
    and "module_id = harness_module_id \<longleftrightarrow> origin = test_harness_origin"
    and "origin = test_harness_origin \<Longrightarrow> profile su = Inr ''test''"
proof -
  have m: "module_id = (if origin = test_harness_origin then harness_module_id else origin)"
    and g: "module_id = harness_module_id \<Longrightarrow> origin = test_harness_origin"
    and p: "check_origin_profile su origin = Inr u"
    using assms module_id_for_origin_InrD [of origin module_id]
    unfolding check_origin_def rbind_eq_Inr ensure_eq_Inr origin_names by blast+
  show "origin \<noteq> [] \<and> module_id = (if origin = test_harness_origin then harness_module_id else origin)"
    using m assms by (auto simp: check_origin_def module_id_for_origin_def)
  show "module_id = core_module_id \<longleftrightarrow> origin = core_origin"
    by (cases "origin = test_harness_origin") (simp_all add: m)
  show "module_id = harness_module_id \<longleftrightarrow> origin = test_harness_origin"
  proof (cases "origin = test_harness_origin")
    case True
    then show ?thesis using m by simp
  next
    case False
    then show ?thesis using g by blast
  qed
  show "profile su = Inr ''test''" if "origin = test_harness_origin"
    using p that by (auto simp: check_origin_profile_def)
qed

lemma name_has_module: "operation_name_ok name \<Longrightarrow> \<exists>rest. name = fst (partition_at (CHR ''.'') name) @ ''.'' @ rest"
proof -
  assume a: "operation_name_ok name"
  then have "CHR ''.'' \<in> set name"
    using split_on_notin [of "CHR ''.''" name] unfolding operation_name_ok_def by fastforce
  then obtain u v where "name = u @ CHR ''.'' # v" "CHR ''.'' \<notin> set u"
    by (metis split_list_first)
  then show ?thesis by simp
qed

text \<open>
  C25: whatever is registered, in whatever order, every entry of the operation table is one of
  the given registrations, under its own three-part name, in the module its origin owns: that is
  the module called as the origin, and the harness's module for the test harness. So the core's
  names belong to the core origin alone and the harness's to the test harness, which registers
  under the test profile only. No input model in the table has a field or a named
  alias among the reserved ones or takes extra fields. Registering everything again changes
  nothing, so startup and the command line can both do it.
\<close>

theorem registered_operations_sound:
  assumes "rfold (add_operation su models) ds [] = Inr reg"
  shows "rfold (add_operation su models) ds reg = Inr reg
     \<and> (\<forall>name r. lookup_operation reg name = Some r \<longrightarrow>
          (ro_declaration r, ro_handler r, ro_origin r) \<in> set ds \<and> ro_name r = name
          \<and> operation_name_ok name \<and> (\<exists>rest. name = ro_module_id r @ ''.'' @ rest)
          \<and> ro_origin r \<noteq> [] \<and> ro_module_id r = (if ro_origin r = test_harness_origin then harness_module_id else ro_origin r)
          \<and> (ro_module_id r = core_module_id \<longleftrightarrow> ro_origin r = core_origin)
          \<and> (ro_module_id r = harness_module_id \<longleftrightarrow> ro_origin r = test_harness_origin)
          \<and> (ro_origin r = test_harness_origin \<longrightarrow> profile su = Inr ''test'')
          \<and> (\<exists>im. models (od_input_model (ro_declaration r)) = Some im \<and> im_extra im \<noteq> Some ''allow''
               \<and> set (alias_names im) \<inter> set reserved_input_fields_all = {}))"
proof (intro conjI allI impI)
  show "rfold (add_operation su models) ds reg = Inr reg"
    using assms by (rule operations_table.reg_all_idempotent)
  fix name r assume r: "lookup_operation reg name = Some r"
  let ?d = "(ro_declaration r, ro_handler r, ro_origin r)"
  have ok: "registry_ok su models reg" using add_operations_ok [OF assms] empty_operations_ok by blast
  have found: "declared_operation reg name = Some ?d"
    using r by (simp add: declared_operation_def lookup_operation_def)
  show "?d \<in> set ds"
    using operations_table.reg_all_only [OF assms found] by (auto simp: declared_operation_def)
  have n: "name = ro_name r" and adm: "registrable su models ?d"
    and m: "ro_module_id r = fst (partition_at (CHR ''.'') name)"
    using ok r unfolding registry_ok_def lookup_operation_def by blast+
  show "ro_name r = name" using n by simp
  show shape: "operation_name_ok name" using adm n by (simp add: registrable_def ro_name_def)
  show "\<exists>rest. name = ro_module_id r @ ''.'' @ rest" using name_has_module [OF shape] m by metis
  have c: "check_origin su (ro_origin r) (ro_module_id r) name = Inr ()"
    using adm n m by (simp add: registrable_def ro_name_def)
  note C = check_origin_InrD [OF c]
  show "ro_origin r \<noteq> []" "ro_module_id r = (if ro_origin r = test_harness_origin then harness_module_id else ro_origin r)"
    using C(1) by simp_all
  show "ro_module_id r = core_module_id \<longleftrightarrow> ro_origin r = core_origin" by (rule C(2))
  show "ro_module_id r = harness_module_id \<longleftrightarrow> ro_origin r = test_harness_origin" by (rule C(3))
  show "profile su = Inr ''test''" if "ro_origin r = test_harness_origin" using that by (rule C(4))
  show "\<exists>im. models (od_input_model (ro_declaration r)) = Some im \<and> im_extra im \<noteq> Some ''allow''
               \<and> set (alias_names im) \<inter> set reserved_input_fields_all = {}"
    using adm by (auto simp: registrable_def reserved_input_fields_def filter_empty_conv split: option.splits)
qed

lemma authorize_Inr:
  "authorize reg ctx name = Inr op \<longleftrightarrow>
     (\<exists>cx. ctx = Some cx \<and> lookup_operation reg name = Some op
        \<and> (cx_operation_set cx = All_Operations \<or> (\<exists>ns. cx_operation_set cx = Operations ns \<and> name \<in> ns))
        \<and> (ro_module_id op = core_module_id \<or> ro_module_id op \<in> cx_enabled_modules cx)
        \<and> cx_role cx \<in> od_roles (ro_declaration op))"
  by (auto simp: authorize_def lookup_operation_def split: option.splits operation_set.splits)

definition sample_surroundings :: surroundings where
  "sample_surroundings = \<lparr>su_registry = sample_registry, su_layer = Inr [], su_now = 1000,
     su_sha256 = id\<rparr>"

definition sample_models :: models where
  "sample_models name = (if name = ''Empty'' then Some \<lparr>im_fields = [], im_extra = Some ''ignore''\<rparr> else None)"

definition sample_declaration :: operation_declaration where
  "sample_declaration = \<lparr>od_name = ''core.note.list'', od_safety_class = Safety_Read,
     od_roles = default_roles, od_input_model = ''Empty'', od_output = ''Empty'',
     od_idempotency = Idem_None, od_audit = None\<rparr>"

lemma registered_operations_sound_witness:
  "\<exists>reg r. rfold (add_operation sample_surroundings sample_models) [(sample_declaration, (1 :: nat), core_origin)] [] = Inr reg
     \<and> lookup_operation reg ''core.note.list'' = Some r \<and> ro_module_id r = core_module_id
     \<and> ro_origin r = core_origin \<and> ro_name r = ''core.note.list''"
proof -
  let ?d = "(sample_declaration, 1 :: nat, core_origin)"
  let ?reg = "[(''core.note.list'', registered ?d)]"
  have "operation_name_ok ''core.note.list''" by code_simp
  moreover have "check_origin sample_surroundings core_origin ''core'' ''core.note.list'' = Inr ()"
    by code_simp
  moreover have "fst (partition_at (CHR ''.'') ''core.note.list'') = ''core''" by code_simp
  ultimately have "registrable sample_surroundings sample_models ?d"
    by (simp add: registrable_def sample_declaration_def sample_models_def reserved_input_fields_def alias_names_def)
  then have r: "rfold (add_operation sample_surroundings sample_models) [?d] [] = Inr ?reg"
    by (simp add: add_operation_eq) (simp add: sample_declaration_def)
  moreover have l: "lookup_operation ?reg ''core.note.list'' = Some (registered ?d)"
    by (simp add: lookup_operation_def)
  moreover have "ro_origin (registered ?d) = core_origin" by (simp add: registered_def)
  ultimately show ?thesis using registered_operations_sound [OF r] by blast
qed

text \<open>
  \<open>authorize\<close> lets a call through exactly when there is a context, the operation is
  registered, the context's operation set has it, its module is the core or enabled in the
  workspace, and the context's role is declared for it; otherwise the refusal is the first of
  these that fails, and \<open>context_required\<close> comes before the table is consulted.
\<close>

theorem authorize_decides:
  "authorize reg ctx name = Inr op \<longleftrightarrow>
     (\<exists>cx. ctx = Some cx \<and> lookup_operation reg name = Some op
        \<and> (cx_operation_set cx = All_Operations \<or> (\<exists>ns. cx_operation_set cx = Operations ns \<and> name \<in> ns))
        \<and> (ro_module_id op = core_module_id \<or> ro_module_id op \<in> cx_enabled_modules cx)
        \<and> cx_role cx \<in> od_roles (ro_declaration op))"
  by (rule authorize_Inr)

end
