(* ===== verification/Tokens.thy ===== *)
theory Tokens
  imports Token_Format Operations_Registry Control_History
begin

text \<open>
  \<open>rheo_core/tokens/\<close> (\<open>policy\<close>, \<open>sets\<close>, \<open>presentation\<close>, \<open>issue\<close>) and
  \<open>settings/storage_source.py\<close>: which operations a token may carry, issuing one, presenting
  one at a surface and revoking it.

  The operation registry is the argument \<open>reg\<close>. The token's random bytes and its new
  identifier are arguments of the issue.
\<close>

section \<open>Policy and package sets\<close>

definition non_token_issuable :: "string list" where
  "non_token_issuable = [''core.approval.approve'', ''core.approval.refuse'',
     ''core.standing_grant.create'', ''core.standing_grant.revoke'', ''core.token.issue'', ''core.token.revoke'']"

definition workspace_status_tool :: tool_declaration where
  "workspace_status_tool = \<lparr>td_name = ''workspace_status'', td_operation = ''core.workspace.status'',
     td_input_model = ''_WorkspaceStatusToolInput''\<rparr>"

definition harness_get_note_tool :: tool_declaration where
  "harness_get_note_tool = \<lparr>td_name = ''harness_get_note'', td_operation = ''harness.note.get'',
     td_input_model = ''_HarnessNoteRefToolInput''\<rparr>"

definition registered_tools :: "tool_declaration list" where
  "registered_tools = [workspace_status_tool, harness_get_note_tool]"

text \<open>\<open>names()\<close> and \<open>lookup()\<close> share one table, so the walk over the names is a walk over it.\<close>

definition names_where :: "(operation_declaration \<Rightarrow> bool) \<Rightarrow> 'h operation_registry \<Rightarrow> string set" where
  "names_where p reg = {name \<in> operation_names reg.
     case lookup_operation reg name of Some r \<Rightarrow> p (ro_declaration r) | None \<Rightarrow> False}"

definition read_only :: "'h operation_registry \<Rightarrow> string set" where
  "read_only reg = names_where (\<lambda>d. od_safety_class d = Safety_Read) reg"

definition agent_default :: "'h operation_registry \<Rightarrow> string set" where
  "agent_default reg = set (map td_operation registered_tools) \<inter> operation_names reg"

definition cli_full :: "'h operation_registry \<Rightarrow> string set" where
  "cli_full reg = operation_names reg - set non_token_issuable"

definition package_sets :: "'h operation_registry \<Rightarrow> (string \<times> string set) list" where
  "package_sets reg = [(''read_only'', read_only reg), (''agent_default'', agent_default reg),
     (''cli_full'', cli_full reg)]"

section \<open>Presentation\<close>

definition surface_accepts :: "(string \<times> string list) list" where
  "surface_accepts = [(''api'', [''cli'', ''mcp'']), (''mcp'', [''mcp'', ''runtime''])]"

definition accepted_kinds :: "string \<Rightarrow> string list" where
  "accepted_kinds surface = (case map_of surface_accepts surface of Some ks \<Rightarrow> ks | None \<Rightarrow> [])"

record resolved_token =
  rt_account_id :: uuid
  rt_workspace_id :: uuid
  rt_role :: role
  rt_operation_set :: "string set"

definition no_membership :: "uuid \<Rightarrow> uuid \<Rightarrow> string" where
  "no_membership account_id workspace_id = ''no control.membership row for account ''
     @ uuid_str account_id @ '' in workspace '' @ uuid_str workspace_id"

definition resolve_token :: "surroundings \<Rightarrow> string \<Rightarrow> string \<Rightarrow> control_db
    \<Rightarrow> resolved_token refusable db_result" where
  "resolve_token su v surface db = (case parse_token v of
       None \<Rightarrow> Inr (refuse_with token_malformed None, db)
     | Some parsed \<Rightarrow> (case get_access_token_by_hash (su_sha256 su (pt_raw parsed)) db of
           None \<Rightarrow> Inr (refuse_with token_malformed None, db)
         | Some row \<Rightarrow>
             if tok_kind row \<notin> set (accepted_kinds surface) then Inr (refuse_with token_wrong_kind None, db)
             else if tok_expires_at row \<le> su_now su then Inr (refuse_with token_expired None, db)
             else if tok_revoked_at row \<noteq> None then Inr (refuse_with token_revoked None, db)
             else let snapshot = list_access_token_operations (tok_id row) db in
               if snapshot \<inter> set non_token_issuable \<noteq> {} then Inr (refuse_with token_scope_invalid None, db)
               else (case get_membership (tok_account_id row) (tok_workspace_id row) db of
                   None \<Rightarrow> Inr (refuse_with membership_missing
                     (Some (no_membership (tok_account_id row) (tok_workspace_id row))), db)
                 | Some membership \<Rightarrow>
                     rbind (touch_access_token_last_used (su_now su) (tok_id row) db) (\<lambda>(_, db').
                     Inr (Inr \<lparr>rt_account_id = tok_account_id row, rt_workspace_id = tok_workspace_id row,
                              rt_role = mb_role membership, rt_operation_set = snapshot\<rparr>, db')))))"

section \<open>Override rows from the workspace database\<close>

definition workspace_read :: "cluster \<Rightarrow> uuid \<Rightarrow> (workspace_db \<Rightarrow> 'a) \<Rightarrow> 'a result" where
  "workspace_read c workspace_id f =
     rbind (active_workspace workspace_id (cl_control c)) (\<lambda>row.
     rbind (check_database_name (ws_database_name row)) (\<lambda>n.
     case map_of (cl_databases c) n of
       None \<Rightarrow> Inl (OtherException ''OperationalError'' (''database '' @ py_repr n @ '' does not exist''))
     | Some wd \<Rightarrow> Inr (f wd)))"

definition postgres_override_source :: "cluster \<Rightarrow> override_source" where
  "postgres_override_source c =
     \<lparr>os_workspace = (\<lambda>w. workspace_read c w workspace_settings),
      os_member = (\<lambda>w a. workspace_read c w (member_settings a))\<rparr>"

section \<open>Issuing and revoking\<close>

record token_issue_input =
  ti_kind :: string
  ti_set_name :: "string option"
  ti_operations :: "string list option"
  ti_account_id :: "uuid option"
  ti_purpose :: "string option"

record token_issued =
  td_token_id :: uuid
  td_value :: string
  td_kind :: string
  td_expires_at :: datetime
  td_operations :: "string list"

definition set_not_issuable :: string where "set_not_issuable = ''set_not_issuable''"
definition set_empty :: string where "set_empty = ''set_empty''"
definition set_selection_invalid :: string where "set_selection_invalid = ''set_selection_invalid''"
definition account_required :: string where "account_required = ''account_required''"
definition not_found :: string where "not_found = ''not_found''"

definition role_permitted_set :: "'h operation_registry \<Rightarrow> role \<Rightarrow> string set" where
  "role_permitted_set reg role = names_where (\<lambda>d. role \<in> od_roles d) reg"

definition expand :: "'h operation_registry \<Rightarrow> token_issue_input \<Rightarrow> string set result" where
  "expand reg i =
     ensure ((ti_set_name i = None) \<noteq> (ti_operations i = None))
       (OperationRefused set_selection_invalid
         (Some ''core.token.issue takes exactly one of set_name or operations''))
     (case ti_operations i of
        Some ops \<Rightarrow> (case sort (remdups (filter (\<lambda>n. n \<in> set non_token_issuable) ops)) of
            offending # _ \<Rightarrow> Inl (OperationRefused set_not_issuable
              (Some (offending @ '' is not token-issuable'')))
          | [] \<Rightarrow> Inr (set ops))
      | None \<Rightarrow> (case ti_set_name i of
            None \<Rightarrow> Inl AssertionError
          | Some name \<Rightarrow> (case map_of (package_sets reg) name of
                None \<Rightarrow> Inl (OperationRefused set_not_issuable (Some (''unknown package set '' @ py_repr name)))
              | Some ops \<Rightarrow> Inr ops)))"

definition issuer_permitted_set :: "'h operation_registry \<Rightarrow> workspace_context \<Rightarrow> token_issue_input
    \<Rightarrow> control_db \<Rightarrow> (uuid \<times> string \<times> string set) result" where
  "issuer_permitted_set reg ctx i db = (case actor_kind (cx_actor ctx) of
       Actor_Account \<Rightarrow> (case actor_id (cx_actor ctx) of
           None \<Rightarrow> Inl AssertionError
         | Some a \<Rightarrow> Inr (a, ''session'', role_permitted_set reg (cx_role ctx)))
     | Actor_Operator \<Rightarrow> (case ti_account_id i of
           None \<Rightarrow> Inl (OperationRefused account_required
             (Some ''an operator issuance needs an explicit account_id''))
         | Some target \<Rightarrow> (case get_membership target (cx_workspace_id ctx) db of
               None \<Rightarrow> Inl (OperationRefused membership_missing (Some (''account '' @ uuid_str target
                 @ '' has no membership in workspace '' @ uuid_str (cx_workspace_id ctx))))
             | Some membership \<Rightarrow> Inr (target, ''operator'',
                 (read_only reg \<union> agent_default reg \<union> cli_full reg)
                 \<inter> role_permitted_set reg (mb_role membership))))
     | k \<Rightarrow> Inl (OperationRefused account_required
         (Some (''core.token.issue cannot resolve an issuing account from actor kind ''
            @ py_repr (actor_kind_value k)))))"

definition issue_handler :: "surroundings \<Rightarrow> 'h operation_registry \<Rightarrow> uuid \<Rightarrow> bytes \<Rightarrow> workspace_context
    \<Rightarrow> token_issue_input \<Rightarrow> (cluster, token_issued) action" where
  "issue_handler su reg new_id random ctx i c =
     act_bind (lift_result (expand reg i)) (\<lambda>requested.
     act_bind (lift_result (issuer_permitted_set reg ctx i (cl_control c)))
       (\<lambda>(target_account_id, issued_from, issuer_permitted).
     let survivors = (requested \<inter> issuer_permitted) - set non_token_issuable in
     act_bind (act_ensure (survivors \<noteq> {}) (OperationRefused set_empty
         (Some ''no operation survives the issuer's permitted set''))) (\<lambda>_.
     act_bind (lift_result (rbind (resolve (su_registry su) (su_layer su) (Some (cx_workspace_id ctx)) None
         (Some (postgres_override_source c))) (\<lambda>(vals, _).
       get_int (su_registry su) vals (''identity.token_max_days.'' @ ti_kind i)))) (\<lambda>max_days.
     act_bind (lift_result (add_days (su_now su) max_days)) (\<lambda>expires_at.
     let (v, raw) = mint (ti_kind i) random; operations = sorted_list_of_set survivors in
     act_bind (control_tx (\<lambda>db.
         rbind (insert_access_token new_id (su_now su) target_account_id (cx_workspace_id ctx) (ti_kind i)
           issued_from (su_sha256 su raw) (ti_set_name i) (ti_purpose i) expires_at db) (\<lambda>(row, db1).
         rbind (insert_access_token_operations (tok_id row) operations db1) (\<lambda>(_, db2). Inr (row, db2)))))
       (\<lambda>row. act_return \<lparr>td_token_id = tok_id row, td_value = v, td_kind = ti_kind i,
          td_expires_at = expires_at, td_operations = operations\<rparr>)))))) c"

definition revoke_handler :: "surroundings \<Rightarrow> workspace_context \<Rightarrow> uuid \<Rightarrow> (cluster, uuid) action" where
  "revoke_handler su ctx token_id =
     control_tx (\<lambda>db. (case get_access_token token_id db of
         Some row \<Rightarrow>
           if tok_workspace_id row \<noteq> cx_workspace_id ctx
              \<or> (actor_kind (cx_actor ctx) = Actor_Account \<and> Some (tok_account_id row) \<noteq> actor_id (cx_actor ctx))
           then Inl (OperationRefused not_found
             (Some (''no access token '' @ uuid_str token_id @ '' in this workspace'')))
           else rbind (revoke_access_token (su_now su) token_id db) (\<lambda>(_, db'). Inr (token_id, db'))
       | None \<Rightarrow> Inl (OperationRefused not_found
           (Some (''no access token '' @ uuid_str token_id @ '' in this workspace'')))))"

section \<open>What a stored token resolves to\<close>

lemma distinct_token_keys:
  "control_ok db \<Longrightarrow> distinct (map tok_id (db_tokens db)) \<and> distinct (map tok_token_hash (db_tokens db))"
  by (simp add: control_ok_def keys_ok_def)

lemma update_token_eq:
  assumes "control_ok db"
  shows "update_token i f db = (case get_access_token i db of
     None \<Rightarrow> Inl (StorageRefusal ''access_token_missing'' (''access token '' @ uuid_str i @ '' has no row'') None)
   | Some _ \<Rightarrow> Inr ((), db\<lparr>db_tokens := update_where (\<lambda>r. tok_id r = i) f (db_tokens db)\<rparr>))"
  using count_unique [of tok_id "db_tokens db" i "\<lambda>_. True"] distinct_token_keys [OF assms]
  by (auto simp: update_token_def get_access_token_def ensure_def split: option.splits)

lemma token_by_hash_stored:
  "get_access_token_by_hash h db = Some row \<Longrightarrow> row \<in> set (db_tokens db) \<and> tok_token_hash row = h"
  by (auto simp: get_access_token_by_hash_def find_Some_iff)

lemma stored_token_by_id:
  "control_ok db \<Longrightarrow> row \<in> set (db_tokens db) \<Longrightarrow> get_access_token (tok_id row) db = Some row"
  using find_unique [of tok_id "db_tokens db" row] distinct_token_keys [of db]
  by (simp add: get_access_token_def)

lemma operations_need_token:
  "control_ok db \<Longrightarrow> i \<notin> token_ids db \<Longrightarrow> list_access_token_operations i db = {}"
  by (auto simp: control_ok_def references_ok_def references_def list_access_token_operations_def list_all_iff)

text \<open>The row and the operations an issue leaves behind.\<close>

lemma issued_row:
  assumes "control_ok db"
    and "insert_access_token i now a w kind iss h sn pu t db = Inr (row, db1)"
    and "insert_access_token_operations (tok_id row) ops db1 = Inr (u, db2)"
  shows "row = \<lparr>tok_id = i, tok_token_hash = h, tok_account_id = a, tok_workspace_id = w, tok_kind = kind,
           tok_issued_from = iss, tok_set_name = sn, tok_purpose = pu, tok_created_at = now,
           tok_expires_at = t, tok_revoked_at = None, tok_last_used_at = None\<rparr>"
    and "kind \<in> set token_kinds" and "control_ok db2" and "db_memberships db2 = db_memberships db"
    and "get_access_token_by_hash h db2 = Some row" and "list_access_token_operations i db2 = set ops"
proof -
  have p: "put_token row db = Inr db1" using assms(2) by (rule insert_access_token_InrD)
  show row: "row = \<lparr>tok_id = i, tok_token_hash = h, tok_account_id = a, tok_workspace_id = w, tok_kind = kind,
           tok_issued_from = iss, tok_set_name = sn, tok_purpose = pu, tok_created_at = now,
           tok_expires_at = t, tok_revoked_at = None, tok_last_used_at = None\<rparr>"
    using assms(2) by (auto simp: insert_access_token_def Let_def split: sum.splits py_exc.splits violation.splits)
  then show "kind \<in> set token_kinds" using p by (auto simp: put_token_def)
  have db1: "db1 = db\<lparr>db_tokens := db_tokens db @ [row]\<rparr>" and new: "i \<notin> token_ids db"
    using p row by (auto simp: put_token_def)
  have ok1: "control_ok db1" using assms(1) p by (rule put_token_ok)
  have ops: "db2 = db1\<lparr>db_token_operations := db_token_operations db1 @ map (\<lambda>n. (i, n)) ops\<rparr>"
    using assms(3) row by (auto simp: insert_access_token_operations_def put_token_operations_def split: if_splits)
  show ok2: "control_ok db2"
    using assms(3) ok1 by (auto simp: insert_access_token_operations_def split: if_splits intro: put_token_operations_ok)
  show "db_memberships db2 = db_memberships db" using ops db1 by simp
  have "row \<in> set (db_tokens db2)" using ops db1 by simp
  then show "get_access_token_by_hash h db2 = Some row"
    using find_unique [of tok_token_hash "db_tokens db2" row] distinct_token_keys [OF ok2] row
    by (simp add: get_access_token_by_hash_def)
  show "list_access_token_operations i db2 = set ops"
    using operations_need_token [OF assms(1) new] ops db1
    by (auto simp: list_access_token_operations_def filter_map o_def)
qed

text \<open>Every guard of a presentation passed.\<close>

lemma resolve_live_token:
  assumes "control_ok db" and "parse_token v = Some p"
    and "get_access_token_by_hash (su_sha256 su (pt_raw p)) db = Some row"
    and "tok_kind row \<in> set (accepted_kinds surface)" and "su_now su < tok_expires_at row"
    and "tok_revoked_at row = None"
    and "list_access_token_operations (tok_id row) db \<inter> set non_token_issuable = {}"
  shows "\<exists>db'. resolve_token su v surface db = Inr (case get_membership (tok_account_id row) (tok_workspace_id row) db of
      None \<Rightarrow> refuse_with membership_missing (Some (no_membership (tok_account_id row) (tok_workspace_id row)))
    | Some m \<Rightarrow> Inr \<lparr>rt_account_id = tok_account_id row, rt_workspace_id = tok_workspace_id row,
        rt_role = mb_role m, rt_operation_set = list_access_token_operations (tok_id row) db\<rparr>, db')"
proof -
  have "get_access_token (tok_id row) db = Some row"
    using stored_token_by_id assms(1) token_by_hash_stored [OF assms(3)] by blast
  then have "\<exists>db'. touch_access_token_last_used (su_now su) (tok_id row) db = Inr ((), db')"
    using update_token_eq [OF assms(1)] by (simp add: touch_access_token_last_used_def)
  then show ?thesis using assms(2-)
    by (auto simp: resolve_token_def Let_def split: option.splits)
qed

section \<open>Issued tokens\<close>

lemma control_tx_InrD:
  "control_tx f c = (Inr x, c') \<Longrightarrow> \<exists>db. f (cl_control c) = Inr (x, db) \<and> c' = c\<lparr>cl_control := db\<rparr>"
  by (auto simp: control_tx_def split: sum.splits)

lemma lift_result_InrD [simp]: "lift_result r c = (Inr x, c') \<longleftrightarrow> r = Inr x \<and> c' = c"
  by (auto simp: lift_result_def act_raise_def act_return_def split: sum.splits)

lemma finite_names [simp]: "finite (operation_names reg)"
  by (simp add: operation_names_def)

lemma finite_names_where [simp]: "finite (names_where p reg)"
  by (rule finite_subset [of _ "operation_names reg"]) (auto simp: names_where_def)

lemma expand_finite: "expand reg i = Inr ops \<Longrightarrow> finite ops"
  by (auto simp: expand_def package_sets_def read_only_def agent_default_def cli_full_def
      split: option.splits list.splits if_splits)

lemma issue_handler_InrD:
  assumes "issue_handler su reg new_id random ctx i c = (Inr out, c')"
  obtains requested account from' permitted e row db1 db2 u where
    "expand reg i = Inr requested"
    and "issuer_permitted_set reg ctx i (cl_control c) = Inr (account, from', permitted)"
    and "requested \<inter> permitted - set non_token_issuable \<noteq> {}"
    and "insert_access_token new_id (su_now su) account (cx_workspace_id ctx) (ti_kind i) from'
       (su_sha256 su random) (ti_set_name i) (ti_purpose i) e (cl_control c) = Inr (row, db1)"
    and "insert_access_token_operations (tok_id row)
       (sorted_list_of_set (requested \<inter> permitted - set non_token_issuable)) db1 = Inr (u, db2)"
    and "out = \<lparr>td_token_id = tok_id row, td_value = fst (mint (ti_kind i) random), td_kind = ti_kind i,
       td_expires_at = e, td_operations = sorted_list_of_set (requested \<inter> permitted - set non_token_issuable)\<rparr>"
    and "c' = c\<lparr>cl_control := db2\<rparr>"
  using assms unfolding issue_handler_def
  by (clarsimp simp: act_bind_Inr act_return_def Let_def mint_def dest!: control_tx_InrD
      simp del: Diff_eq_empty_iff del: subsetI equalityI)

text \<open>
  C4: a token that was issued carries a non-empty, sorted list of operations, each among those
  the issuer could grant (an account: what its role may run; the operator: the package sets
  as far as the target account's own role may run them), none of them among the six no token
  may carry. Presented at any surface that takes its kind, at any time before it expires, it
  resolves to that account, that workspace, exactly those operations and the role the account
  has in the workspace then; and the workspace databases are as they were.
\<close>

theorem issued_token_resolves:
  assumes "control_ok (cl_control c)" and "length random = raw_bytes"
    and "issue_handler su reg new_id random ctx i c = (Inr out, c')"
  shows "\<exists>account from' permitted. issuer_permitted_set reg ctx i (cl_control c) = Inr (account, from', permitted)
     \<and> td_operations out \<noteq> [] \<and> sorted (td_operations out) \<and> set (td_operations out) \<subseteq> permitted
     \<and> set (td_operations out) \<inter> set non_token_issuable = {}
     \<and> control_ok (cl_control c') \<and> cl_databases c' = cl_databases c
     \<and> (\<forall>su' surface. su_sha256 su' = su_sha256 su \<and> su_now su' < td_expires_at out
            \<and> ti_kind i \<in> set (accepted_kinds surface) \<longrightarrow>
          (\<exists>db'. resolve_token su' (td_value out) surface (cl_control c') =
             Inr (case get_membership account (cx_workspace_id ctx) (cl_control c') of
                 None \<Rightarrow> refuse_with membership_missing (Some (no_membership account (cx_workspace_id ctx)))
               | Some m \<Rightarrow> Inr \<lparr>rt_account_id = account, rt_workspace_id = cx_workspace_id ctx,
                   rt_role = mb_role m, rt_operation_set = set (td_operations out)\<rparr>, db')))"
proof -
  from assms(3) obtain requested account from' permitted e row db1 db2 u where
    ex: "expand reg i = Inr requested"
    and perm: "issuer_permitted_set reg ctx i (cl_control c) = Inr (account, from', permitted)"
    and ne: "requested \<inter> permitted - set non_token_issuable \<noteq> {}"
    and ins: "insert_access_token new_id (su_now su) account (cx_workspace_id ctx) (ti_kind i) from'
       (su_sha256 su random) (ti_set_name i) (ti_purpose i) e (cl_control c) = Inr (row, db1)"
    and ops: "insert_access_token_operations (tok_id row)
       (sorted_list_of_set (requested \<inter> permitted - set non_token_issuable)) db1 = Inr (u, db2)"
    and out: "out = \<lparr>td_token_id = tok_id row, td_value = fst (mint (ti_kind i) random), td_kind = ti_kind i,
       td_expires_at = e, td_operations = sorted_list_of_set (requested \<inter> permitted - set non_token_issuable)\<rparr>"
    and c': "c' = c\<lparr>cl_control := db2\<rparr>"
    by (rule issue_handler_InrD)
  let ?S = "requested \<inter> permitted - set non_token_issuable"
  have fin: "finite ?S" using expand_finite [OF ex] by blast
  note R = issued_row [OF assms(1) ins ops]
  let ?p = "\<lparr>pt_kind = ti_kind i, pt_raw = random\<rparr>"
  have "token_ok ?p"
    using R(2) assms(2) by (auto simp: token_ok_def token_kinds_def is_lower_def)
  from parse_mint [OF this] have parse: "parse_token (td_value out) = Some ?p"
    using out by (simp add: token_text_def)
  have so: "set (td_operations out) = ?S" using out fin by simp
  have row: "tok_id row = new_id" "tok_account_id row = account" "tok_workspace_id row = cx_workspace_id ctx"
    "tok_kind row = ti_kind i" "tok_expires_at row = td_expires_at out" "tok_revoked_at row = None"
    using R(1) out by simp_all
  have snap: "list_access_token_operations new_id db2 = set (td_operations out)" using R(6) fin so by simp
  have disj: "set (td_operations out) \<inter> set non_token_issuable = {}" using so by blast
  have live: "\<exists>db'. resolve_token su' (td_value out) surface (cl_control c') =
      Inr (case get_membership account (cx_workspace_id ctx) (cl_control c') of
          None \<Rightarrow> refuse_with membership_missing (Some (no_membership account (cx_workspace_id ctx)))
        | Some m \<Rightarrow> Inr \<lparr>rt_account_id = account, rt_workspace_id = cx_workspace_id ctx,
            rt_role = mb_role m, rt_operation_set = set (td_operations out)\<rparr>, db')"
    if "su_sha256 su' = su_sha256 su" "su_now su' < td_expires_at out"
      "ti_kind i \<in> set (accepted_kinds surface)" for su' surface
    using resolve_live_token [of db2 "td_value out" ?p su' row surface, OF R(3) parse] that R(5) disj
    unfolding row c' snap by simp
  have "sorted_list_of_set ?S \<noteq> []" using ne fin by simp
  then show ?thesis
    using perm out R(3) c' fin live by (intro exI [of _ account] exI [of _ from'] exI [of _ permitted]) auto
qed

text \<open>
  A presentation succeeds only for a text whose bytes hash to a stored token of a kind the
  surface takes, not expired, not revoked, none of whose operations is among the six no token
  may carry, and whose account is a member of its workspace now; it yields exactly that
  account, workspace, role and snapshot, and the control plane changes in the token's
  \<open>last_used_at\<close> alone. A refused presentation changes nothing.
\<close>

theorem presented_token_sound:
  assumes "resolve_token su v surface db = Inr (out, db')"
  shows "(\<forall>r. out = Inl r \<longrightarrow> db' = db)
     \<and> (\<forall>t. out = Inr t \<longrightarrow> (\<exists>p row m. parse_token v = Some p
          \<and> get_access_token_by_hash (su_sha256 su (pt_raw p)) db = Some row
          \<and> tok_kind row \<in> set (accepted_kinds surface) \<and> su_now su < tok_expires_at row
          \<and> tok_revoked_at row = None
          \<and> get_membership (tok_account_id row) (tok_workspace_id row) db = Some m
          \<and> rt_operation_set t \<inter> set non_token_issuable = {}
          \<and> t = \<lparr>rt_account_id = tok_account_id row, rt_workspace_id = tok_workspace_id row,
                 rt_role = mb_role m, rt_operation_set = list_access_token_operations (tok_id row) db\<rparr>
          \<and> db' = db\<lparr>db_tokens := update_where (\<lambda>r. tok_id r = tok_id row)
                (\<lambda>r. r\<lparr>tok_last_used_at := Some (su_now su)\<rparr>) (db_tokens db)\<rparr>))"
  using assms
  by (auto simp: resolve_token_def Let_def refuse_with_def touch_access_token_last_used_def update_token_def
      split: option.splits if_splits)

lemma resolve_token_Inr:
  "resolve_token su v surface db = Inr (Inr t, db') \<Longrightarrow>
     (\<exists>x y m. get_membership x y db = Some m \<and> rt_role t = mb_role m)
     \<and> rt_operation_set t \<inter> set non_token_issuable = {}"
  by (auto simp: resolve_token_def Let_def refuse_with_def split: option.splits if_splits) blast

text \<open>A revoked row refuses every presentation of its bytes, whatever happens to the tables.\<close>

lemma revoked_row_refused:
  assumes "control_ok db" and "row \<in> set (db_tokens db)" and "tok_revoked_at row \<noteq> None"
    and "history db later" and "control_ok later" and "parse_token v = Some p"
    and "su_sha256 su (pt_raw p) = tok_token_hash row"
  shows "\<exists>r. resolve_token su v surface later = Inr (Inl r, later)
     \<and> rf_state r \<in> {token_wrong_kind, token_expired, token_revoked}"
proof -
  obtain row' where row': "row' \<in> set (db_tokens later)" "token_follows row row'"
    using assms(2,4) by (auto simp: history_def rows_follow_def)
  then have "get_access_token_by_hash (tok_token_hash row) later = Some row'"
    using find_unique [of tok_token_hash "db_tokens later" row'] distinct_token_keys [OF assms(5)]
    by (simp add: get_access_token_by_hash_def token_follows_def)
  moreover have "tok_revoked_at row' \<noteq> None" using row'(2) assms(3) by (simp add: token_follows_def)
  ultimately show ?thesis using assms(6,7) by (auto simp: resolve_token_def refuse_with_def)
qed

lemma revoked_for_good:
  assumes "control_ok db" and "get_access_token i db = Some row" and "revoke_access_token now i db = Inr ((), db')"
    and "control_step\<^sup>*\<^sup>* db' later" and "parse_token v = Some q" and "su_sha256 su (pt_raw q) = tok_token_hash row"
  shows "\<exists>r. resolve_token su v surface later = Inr (Inl r, later)
     \<and> rf_state r \<in> {token_wrong_kind, token_expired, token_revoked}"
proof -
  let ?f = "\<lambda>r. r\<lparr>tok_revoked_at := Some now\<rparr>"
  have row: "row \<in> set (db_tokens db)" "tok_id row = i"
    using assms(2) by (auto simp: get_access_token_def find_Some_iff)
  have ok: "control_ok db'" using control_step_ok [OF control_step.step_revoke_token [OF assms(3)] assms(1)] .
  have "db' = db\<lparr>db_tokens := update_where (\<lambda>r. tok_id r = i) ?f (db_tokens db)\<rparr>"
    using assms(2,3) update_token_eq [OF assms(1)] by (simp add: revoke_access_token_def)
  then have "?f row \<in> set (db_tokens db')" using row by (auto simp: set_update_where)
  then show ?thesis
    using revoked_row_refused [of db' "?f row"] ok assms(4-6) control_steps_history control_steps_ok by fastforce
qed

text \<open>
  C9: revoking is scoped and final. A revoke that succeeds is of a token of the caller's own
  workspace and, for an account, the caller's own; whatever the control plane goes through
  afterwards, no text whose bytes hash to that token is ever accepted again, at any surface
  and any time. A revoke of anything else is \<open>not_found\<close>, whether the token exists or not, and
  changes nothing.
\<close>

theorem revoked_token_is_dead:
  assumes "control_ok (cl_control c)" and "revoke_handler su ctx i c = (out, c')"
  shows "(\<forall>e. out = Inl e \<longrightarrow> c' = c \<and> e = OperationRefused not_found
            (Some (''no access token '' @ uuid_str i @ '' in this workspace'')))
     \<and> (\<forall>j. out = Inr j \<longrightarrow> (\<exists>row. get_access_token i (cl_control c) = Some row
          \<and> tok_workspace_id row = cx_workspace_id ctx
          \<and> (actor_kind (cx_actor ctx) = Actor_Account \<longrightarrow> actor_id (cx_actor ctx) = Some (tok_account_id row))
          \<and> (\<forall>later su' v p surface. control_step\<^sup>*\<^sup>* (cl_control c') later \<and> parse_token v = Some p
                \<and> su_sha256 su' (pt_raw p) = tok_token_hash row \<longrightarrow>
               (\<exists>r. resolve_token su' v surface later = Inr (Inl r, later)
                  \<and> rf_state r \<in> {token_wrong_kind, token_expired, token_revoked}))))"
proof (cases "get_access_token i (cl_control c)")
  case None
  then show ?thesis using assms(2) by (auto simp: revoke_handler_def control_tx_def)
next
  case (Some row)
  show ?thesis
  proof (cases "tok_workspace_id row \<noteq> cx_workspace_id ctx
      \<or> (actor_kind (cx_actor ctx) = Actor_Account \<and> Some (tok_account_id row) \<noteq> actor_id (cx_actor ctx))")
    case True
    then show ?thesis using assms(2) Some by (auto simp: revoke_handler_def control_tx_def)
  next
    case False
    have rev: "revoke_access_token (su_now su) i (cl_control c) = Inr ((), cl_control c')" and out: "out = Inr i"
      using assms(2) Some False update_token_eq [OF assms(1)]
      by (auto simp: revoke_handler_def control_tx_def revoke_access_token_def)
    have dead: "\<exists>r. resolve_token su' v surface later = Inr (Inl r, later)
                  \<and> rf_state r \<in> {token_wrong_kind, token_expired, token_revoked}"
      if "control_step\<^sup>*\<^sup>* (cl_control c') later" "parse_token v = Some p"
        "su_sha256 su' (pt_raw p) = tok_token_hash row" for later su' v p surface
      by (rule revoked_for_good [OF assms(1) Some rev that])
    show ?thesis
    proof (intro conjI allI impI exI [of _ row])
      show "get_access_token i (cl_control c) = Some row" by (rule Some)
    qed (use False out dead in auto)
  qed
qed

section \<open>Concrete tokens\<close>

definition token_key :: key_spec where
  "token_key = sample_key\<lparr>ks_key := ''identity.token_max_days.cli'', ks_type := TInt, ks_default := PInt 30,
     ks_choices := None, ks_floor := None\<rparr>"

definition token_surroundings :: surroundings where
  "token_surroundings = sample_surroundings\<lparr>su_registry :=
     \<lparr>sr_specs = [(ks_key token_key, token_key)], sr_origins = [(ks_key token_key, core_origin)]\<rparr>\<rparr>"

definition sample_operations :: "nat operation_registry" where
  "sample_operations = [(''core.note.list'', registered (sample_declaration, 1, core_origin))]"

definition active_cluster :: cluster where
  "active_cluster = \<lparr>cl_control = sample_control, cl_databases = [(''rheo_ws_5'', empty_workspace_db)]\<rparr>"

definition token_input :: token_issue_input where
  "token_input = \<lparr>ti_kind = ''cli'', ti_set_name = Some ''cli_full'', ti_operations = None,
     ti_account_id = None, ti_purpose = None\<rparr>"

definition sample_issued :: token_issued where
  "sample_issued = \<lparr>td_token_id = 21, td_value = token_text \<lparr>pt_kind = ''cli'', pt_raw = replicate 32 7\<rparr>,
     td_kind = ''cli'', td_expires_at = 1000 + days 30, td_operations = [''core.note.list'']\<rparr>"

lemma sample_issue:
  "fst (issue_handler token_surroundings sample_operations 21 (replicate 32 7) sample_context token_input
     active_cluster) = Inr sample_issued"
  by code_simp

lemma issued_token_resolves_witness:
  "\<exists>c' db'. issue_handler token_surroundings sample_operations 21 (replicate 32 7) sample_context token_input
       active_cluster = (Inr sample_issued, c')
     \<and> resolve_token token_surroundings (td_value sample_issued) ''api'' (cl_control c') =
         Inr (case get_membership 7 5 (cl_control c') of
             None \<Rightarrow> refuse_with membership_missing (Some (no_membership 7 5))
           | Some m \<Rightarrow> Inr \<lparr>rt_account_id = 7, rt_workspace_id = 5, rt_role = mb_role m,
               rt_operation_set = {''core.note.list''}\<rparr>, db')"
proof -
  obtain c' where r: "issue_handler token_surroundings sample_operations 21 (replicate 32 7) sample_context
      token_input active_cluster = (Inr sample_issued, c')"
    using sample_issue by (metis prod.collapse)
  have ok: "control_ok (cl_control active_cluster)" using sample_control_ok by (simp add: active_cluster_def)
  have k: "ti_kind token_input \<in> set (accepted_kinds ''api'')" by code_simp
  have t: "su_now token_surroundings < td_expires_at sample_issued"
    by (simp add: token_surroundings_def sample_surroundings_def sample_issued_def days_def)
  have l: "length (replicate 32 (7 :: byte)) = raw_bytes" by (simp add: raw_bytes_def)
  have p: "\<exists>perm. issuer_permitted_set sample_operations sample_context token_input (cl_control active_cluster)
      = Inr (7, ''session'', perm)" by (simp add: issuer_permitted_set_def sample_context_def)
  have w: "cx_workspace_id sample_context = 5" "set (td_operations sample_issued) = {''core.note.list''}"
    by (simp_all add: sample_context_def sample_issued_def)
  show ?thesis using issued_token_resolves [OF ok l r] r k t p unfolding w by fastforce
qed

definition mcp_surroundings :: surroundings where
  "mcp_surroundings = sample_surroundings\<lparr>su_now := 50, su_sha256 := (\<lambda>_. [4])\<rparr>"

definition mcp_text :: string where
  "mcp_text = token_text \<lparr>pt_kind = ''mcp'', pt_raw = replicate 32 1\<rparr>"

definition mcp_resolved :: resolved_token where
  "mcp_resolved = \<lparr>rt_account_id = 7, rt_workspace_id = 5, rt_role = Role_Owner,
     rt_operation_set = {''core.workspace.status''}\<rparr>"

lemma mcp_parses: "parse_token mcp_text = Some \<lparr>pt_kind = ''mcp'', pt_raw = replicate 32 1\<rparr>"
  unfolding mcp_text_def by (rule parse_mint) (simp add: token_ok_def raw_bytes_def is_lower_def)

lemma presented_token_sound_witness:
  "\<exists>db'. resolve_token mcp_surroundings mcp_text ''mcp'' sample_control = Inr (Inr mcp_resolved, db')
     \<and> rt_operation_set mcp_resolved \<inter> set non_token_issuable = {}"
proof -
  have "map_sum id fst (resolve_token mcp_surroundings mcp_text ''mcp'' sample_control) = Inr (Inr mcp_resolved)"
    by code_simp
  then obtain db' where r: "resolve_token mcp_surroundings mcp_text ''mcp'' sample_control = Inr (Inr mcp_resolved, db')"
    by (cases "resolve_token mcp_surroundings mcp_text ''mcp'' sample_control") auto
  then show ?thesis using presented_token_sound [OF r] by blast
qed

lemma revoked_token_is_dead_witness:
  "\<exists>c' r. revoke_handler mcp_surroundings sample_context 11 active_cluster = (Inr 11, c')
     \<and> resolve_token mcp_surroundings mcp_text ''mcp'' (cl_control c') = Inr (Inl r, cl_control c')
     \<and> rf_state r \<in> {token_wrong_kind, token_expired, token_revoked}"
proof -
  have "fst (revoke_handler mcp_surroundings sample_context 11 active_cluster) = Inr 11" by code_simp
  then obtain c' where r: "revoke_handler mcp_surroundings sample_context 11 active_cluster = (Inr 11, c')"
    by (metis prod.collapse)
  have ok: "control_ok (cl_control active_cluster)" using sample_control_ok by (simp add: active_cluster_def)
  have g: "get_access_token 11 (cl_control active_cluster) = Some (hd (db_tokens sample_control))" by code_simp
  have h: "su_sha256 mcp_surroundings x = tok_token_hash (hd (db_tokens sample_control))" for x
    by (simp add: mcp_surroundings_def sample_control_def)
  obtain row where row: "get_access_token 11 (cl_control active_cluster) = Some row"
    and dead: "\<forall>later su' v p surface. control_step\<^sup>*\<^sup>* (cl_control c') later \<and> parse_token v = Some p
        \<and> su_sha256 su' (pt_raw p) = tok_token_hash row \<longrightarrow>
       (\<exists>r. resolve_token su' v surface later = Inr (Inl r, later)
          \<and> rf_state r \<in> {token_wrong_kind, token_expired, token_revoked})"
    using revoked_token_is_dead [OF ok r] by blast
  have "\<exists>r. resolve_token mcp_surroundings mcp_text ''mcp'' (cl_control c') = Inr (Inl r, cl_control c')
      \<and> rf_state r \<in> {token_wrong_kind, token_expired, token_revoked}"
    using dead row g h mcp_parses by (metis option.inject rtranclp.rtrancl_refl)
  then show ?thesis using r by blast
qed

end
