(* ===== verification/Factories.thy ===== *)
theory Factories
  imports Sessions Tokens
begin

text \<open>
  \<open>rheo_core/boundary/factories.py\<close>: the four ways to obtain a workspace context. Each takes
  the request's new identifier; the cluster is read as it is at the call.
\<close>

definition module_enabled :: string where
  "module_enabled = ''enabled''"

definition enabled_modules :: "workspace_db \<Rightarrow> string set" where
  "enabled_modules wd = set (map ms_module_id (filter (\<lambda>r. ms_state r = module_enabled) (list_module_states wd)))"

text \<open>The registry row, then a unit of work on its database.\<close>

definition active_workspace_modules :: "uuid \<Rightarrow> cluster \<Rightarrow> string set refusable result" where
  "active_workspace_modules workspace_id c = (case get_workspace workspace_id (cl_control c) of
       None \<Rightarrow> Inr (refuse_with workspace_unavailable (Some workspace_missing_detail))
     | Some row \<Rightarrow>
         if ws_state row \<noteq> Active then Inr (refuse_with workspace_unavailable (Some (state_value (ws_state row))))
         else rbind (check_database_name (ws_database_name row)) (\<lambda>n.
           case map_of (cl_databases c) n of
             None \<Rightarrow> Inl (OtherException ''OperationalError'' (''database '' @ py_repr n @ '' does not exist''))
           | Some wd \<Rightarrow> Inr (Inr (enabled_modules wd))))"

text \<open>The refusal of the tail, or the context over the modules it found.\<close>

definition with_modules :: "string set refusable \<Rightarrow> (string set \<Rightarrow> workspace_context) \<Rightarrow> workspace_context refusable" where
  "with_modules enabled build = (case enabled of Inl r \<Rightarrow> Inl r | Inr ms \<Rightarrow> Inr (build ms))"

definition context_for_operator :: "uuid \<Rightarrow> uuid \<Rightarrow> entry \<Rightarrow> cluster \<Rightarrow> workspace_context refusable result" where
  "context_for_operator request_id workspace_id en c =
     rbind (active_workspace_modules workspace_id c) (\<lambda>enabled.
     Inr (with_modules enabled (\<lambda>ms. \<lparr>cx_workspace_id = workspace_id,
       cx_actor = \<lparr>actor_kind = Actor_Operator, actor_id = None\<rparr>, cx_role = Role_Operator, cx_entry = en,
       cx_audience = None, cx_operation_set = All_Operations, cx_enabled_modules = ms,
       cx_request_id = request_id\<rparr>)))"

definition context_for_harness :: "surroundings \<Rightarrow> uuid \<Rightarrow> uuid \<Rightarrow> uuid \<Rightarrow> role \<Rightarrow> entry \<Rightarrow> cluster
    \<Rightarrow> workspace_context refusable result" where
  "context_for_harness su request_id workspace_id account_id wanted en c =
     rbind (profile su) (\<lambda>p.
     if p \<noteq> ''test'' then Inr (refuse_with profile_required (Some
       (''context_for_harness runs under profile = test only (resolved profile is '' @ py_repr p @ '')'')))
     else if map_option mb_role (get_membership account_id workspace_id (cl_control c)) \<noteq> Some wanted
     then Inr (refuse_with membership_missing (Some (no_membership account_id workspace_id
       @ '' with role '' @ py_repr (role_value wanted))))
     else rbind (active_workspace_modules workspace_id c) (\<lambda>enabled.
       Inr (with_modules enabled (\<lambda>ms. \<lparr>cx_workspace_id = workspace_id,
         cx_actor = \<lparr>actor_kind = Actor_Account, actor_id = Some account_id\<rparr>, cx_role = wanted, cx_entry = en,
         cx_audience = Some \<lparr>audience_kind = Audience_Session, audience_id = Some account_id\<rparr>,
         cx_operation_set = All_Operations, cx_enabled_modules = ms, cx_request_id = request_id\<rparr>))))"

definition context_from_session :: "surroundings \<Rightarrow> uuid \<Rightarrow> bytes \<Rightarrow> string \<Rightarrow> entry \<Rightarrow> cluster
    \<Rightarrow> workspace_context refusable result" where
  "context_from_session su request_id secret host en c =
     (case get_session_by_secret_hash (su_sha256 su secret) host (cl_control c) of
        None \<Rightarrow> Inr (refuse_with session_missing None)
      | Some row \<Rightarrow>
          if ses_expires_at row \<le> su_now su then Inr (refuse_with session_expired None)
          else if ses_revoked_at row \<noteq> None then Inr (refuse_with session_revoked None)
          else (case ses_active_workspace_id row of
              None \<Rightarrow> Inr (refuse_with workspace_unselected None)
            | Some w \<Rightarrow> (case get_membership (ses_account_id row) w (cl_control c) of
                  None \<Rightarrow> Inr (refuse_with membership_missing (Some (no_membership (ses_account_id row) w)))
                | Some membership \<Rightarrow>
                    rbind (active_workspace_modules w c) (\<lambda>enabled.
                    Inr (with_modules enabled (\<lambda>ms. \<lparr>cx_workspace_id = w,
                      cx_actor = \<lparr>actor_kind = Actor_Account, actor_id = Some (ses_account_id row)\<rparr>,
                      cx_role = mb_role membership, cx_entry = en,
                      cx_audience = Some \<lparr>audience_kind = Audience_Session, audience_id = Some (ses_account_id row)\<rparr>,
                      cx_operation_set = All_Operations, cx_enabled_modules = ms,
                      cx_request_id = request_id\<rparr>))))))"

text \<open>\<open>Entry(surface)\<close>.\<close>

definition entry_of :: "string \<Rightarrow> entry result" where
  "entry_of s = (case find (\<lambda>e. entry_value e = s)
       [Entry_Web, Entry_Api, Entry_Mcp, Entry_Cli, Entry_Job, Entry_Intake, Entry_Channel] of
     Some e \<Rightarrow> Inr e | None \<Rightarrow> Inl (ValueError (py_repr s @ '' is not a valid Entry'')))"

definition context_from_token :: "surroundings \<Rightarrow> uuid \<Rightarrow> string \<Rightarrow> string
    \<Rightarrow> (cluster, workspace_context refusable) action" where
  "context_from_token su request_id v surface =
     act_bind (control_tx (resolve_token su v surface)) (\<lambda>resolved.
     case resolved of
       Inl r \<Rightarrow> act_return (Inl r)
     | Inr t \<Rightarrow> (\<lambda>c. act_bind (lift_result (active_workspace_modules (rt_workspace_id t) c)) (\<lambda>enabled.
         case enabled of
           Inl r \<Rightarrow> act_return (Inl r)
         | Inr ms \<Rightarrow> act_bind (lift_result (entry_of surface)) (\<lambda>en.
             act_return (Inr \<lparr>cx_workspace_id = rt_workspace_id t,
               cx_actor = \<lparr>actor_kind = Actor_Token, actor_id = Some (rt_account_id t)\<rparr>, cx_role = rt_role t,
               cx_entry = en, cx_audience = Some \<lparr>audience_kind = Audience_Token, audience_id = Some (rt_account_id t)\<rparr>,
               cx_operation_set = Operations (rt_operation_set t), cx_enabled_modules = ms,
               cx_request_id = request_id\<rparr>))) c))"

section \<open>The factory tail\<close>

text \<open>What a context says about its workspace at the moment it is built.\<close>

definition workspace_facts :: "cluster \<Rightarrow> workspace_context \<Rightarrow> bool" where
  "workspace_facts c cx = (\<exists>row wd. get_workspace (cx_workspace_id cx) (cl_control c) = Some row
     \<and> ws_state row = Active \<and> map_of (cl_databases c) (ws_database_name row) = Some wd
     \<and> cx_enabled_modules cx = {m. \<exists>r \<in> set (wd_module_states wd). ms_module_id r = m \<and> ms_state r = module_enabled})"

lemma enabled_modules_eq:
  "enabled_modules wd = {m. \<exists>r \<in> set (wd_module_states wd). ms_module_id r = m \<and> ms_state r = module_enabled}"
  by (auto simp: enabled_modules_def list_module_states_def)

lemma check_database_name_InrD: "check_database_name s = Inr n \<Longrightarrow> n = s"
  by (auto simp: check_database_name_def ensure_def split: if_splits)

lemma active_workspace_modules_InrD:
  "active_workspace_modules w c = Inr (Inr ms) \<Longrightarrow> cx_workspace_id cx = w \<Longrightarrow> cx_enabled_modules cx = ms \<Longrightarrow>
     workspace_facts c cx"
  by (auto simp: active_workspace_modules_def workspace_facts_def enabled_modules_eq
      dest!: check_database_name_InrD split: option.splits if_splits)

lemma with_modules_Inr [simp]:
  "with_modules enabled build = Inr cx \<longleftrightarrow> (\<exists>ms. enabled = Inr ms \<and> cx = build ms)"
  by (auto simp: with_modules_def split: sum.splits)

section \<open>Sessions through their contexts\<close>

lemma session_context_facts:
  assumes "context_from_session su rid secret host en c = Inr (Inr cx)"
  shows "\<exists>sec row w m ms. sec \<in> set (db_secrets (cl_control c)) \<and> sec_secret_hash sec = su_sha256 su secret
     \<and> sec_host sec = host \<and> get_session (sec_session_id sec) (cl_control c) = Some row
     \<and> su_now su < ses_expires_at row \<and> ses_revoked_at row = None \<and> ses_active_workspace_id row = Some w
     \<and> get_membership (ses_account_id row) w (cl_control c) = Some m \<and> workspace_facts c cx
     \<and> cx = \<lparr>cx_workspace_id = w, cx_actor = \<lparr>actor_kind = Actor_Account, actor_id = Some (ses_account_id row)\<rparr>,
          cx_role = mb_role m, cx_entry = en,
          cx_audience = Some \<lparr>audience_kind = Audience_Session, audience_id = Some (ses_account_id row)\<rparr>,
          cx_operation_set = All_Operations, cx_enabled_modules = ms, cx_request_id = rid\<rparr>"
proof -
  obtain row where row: "get_session_by_secret_hash (su_sha256 su secret) host (cl_control c) = Some row"
    "su_now su < ses_expires_at row" "ses_revoked_at row = None"
    using assms by (auto simp: context_from_session_def refuse_with_def split: option.splits if_splits)
  obtain sec where sec: "find (\<lambda>r. sec_secret_hash r = su_sha256 su secret \<and> sec_host r = host)
      (db_secrets (cl_control c)) = Some sec" "get_session (sec_session_id sec) (cl_control c) = Some row"
    using row(1) by (auto simp: get_session_by_secret_hash_def split: option.splits)
  obtain w m ms where w: "ses_active_workspace_id row = Some w"
    "get_membership (ses_account_id row) w (cl_control c) = Some m" "active_workspace_modules w c = Inr (Inr ms)"
    and cx: "cx = \<lparr>cx_workspace_id = w, cx_actor = \<lparr>actor_kind = Actor_Account, actor_id = Some (ses_account_id row)\<rparr>,
          cx_role = mb_role m, cx_entry = en,
          cx_audience = Some \<lparr>audience_kind = Audience_Session, audience_id = Some (ses_account_id row)\<rparr>,
          cx_operation_set = All_Operations, cx_enabled_modules = ms, cx_request_id = rid\<rparr>"
    using assms row by (auto simp: context_from_session_def refuse_with_def split: option.splits if_splits)
  have "workspace_facts c cx" using active_workspace_modules_InrD [OF w(3)] cx by simp
  moreover have "sec \<in> set (db_secrets (cl_control c))" "sec_secret_hash sec = su_sha256 su secret" "sec_host sec = host"
    using sec(1) by (auto simp: find_Some_iff)
  ultimately show ?thesis using row(2,3) sec(2) w(1,2) cx by blast
qed

text \<open>
  C2: a session yields a context only on a host that holds a secret of that session, for the
  very secret, before the deadline, not revoked, with a workspace selected, of which its
  account is a member at this request; the role is that membership's, never one kept with the
  session, and the workspace is active with exactly its enabled modules.
\<close>

theorem session_context_sound:
  assumes "context_from_session su rid secret host en c = Inr (Inr cx)"
  shows "\<exists>sec row w m ms. sec \<in> set (db_secrets (cl_control c)) \<and> sec_secret_hash sec = su_sha256 su secret
     \<and> sec_host sec = host \<and> get_session (sec_session_id sec) (cl_control c) = Some row
     \<and> su_now su < ses_expires_at row \<and> ses_revoked_at row = None \<and> ses_active_workspace_id row = Some w
     \<and> get_membership (ses_account_id row) w (cl_control c) = Some m \<and> workspace_facts c cx
     \<and> cx = \<lparr>cx_workspace_id = w, cx_actor = \<lparr>actor_kind = Actor_Account, actor_id = Some (ses_account_id row)\<rparr>,
          cx_role = mb_role m, cx_entry = en,
          cx_audience = Some \<lparr>audience_kind = Audience_Session, audience_id = Some (ses_account_id row)\<rparr>,
          cx_operation_set = All_Operations, cx_enabled_modules = ms, cx_request_id = rid\<rparr>"
  using assms by (rule session_context_facts)

text \<open>The session a stored secret names stays the one it names, with its account and its past.\<close>

lemma secret_names_session:
  assumes "control_ok db" and "history db later" and "control_ok later"
    and "sec \<in> set (db_secrets db)" and "get_session (sec_session_id sec) db = Some row"
  shows "\<exists>row'. get_session_by_secret_hash (sec_secret_hash sec) (sec_host sec) later = Some row'
     \<and> session_follows row row'"
proof -
  have "sec \<in> set (db_secrets later)" using assms(2,4) by (auto simp: history_def)
  moreover have "distinct (map sec_secret_hash (db_secrets later))"
    using assms(3) by (simp add: control_ok_def keys_ok_def)
  ultimately have f: "find (\<lambda>r. sec_secret_hash r = sec_secret_hash sec \<and> sec_host r = sec_host sec)
      (db_secrets later) = Some sec"
    using find_unique_and [of sec_secret_hash "db_secrets later" sec "\<lambda>r. sec_host r = sec_host sec"] by simp
  have "row \<in> set (db_sessions db)" "ses_id row = sec_session_id sec"
    using assms(5) by (auto simp: get_session_def find_Some_iff)
  then obtain row' where "row' \<in> set (db_sessions later)" "session_follows row row'" "ses_id row' = sec_session_id sec"
    using assms(2) by (auto simp: history_def rows_follow_def session_follows_def)
  then have "get_session (sec_session_id sec) later = Some row'"
    using find_unique [of ses_id "db_sessions later" row'] distinct_session_ids [OF assms(3)]
    by (simp add: get_session_def)
  then show ?thesis using f \<open>session_follows row row'\<close> by (simp add: get_session_by_secret_hash_def)
qed

lemma get_session_by_secret_hash_InrD:
  "get_session_by_secret_hash h host db = Some row \<Longrightarrow>
     \<exists>sec \<in> set (db_secrets db). sec_secret_hash sec = h \<and> sec_host sec = host \<and> get_session (sec_session_id sec) db = Some row"
  by (auto simp: get_session_by_secret_hash_def find_Some_iff split: option.splits)

lemma get_session_id: "get_session i db = Some row \<Longrightarrow> ses_id row = i \<and> row \<in> set (db_sessions db)"
  by (auto simp: get_session_def find_Some_iff)

text \<open>A hash has one secret row, so the host decides whether it is found, not what.\<close>

lemma same_secret_same_session:
  assumes "control_ok db" and "get_session_by_secret_hash h host db = Some a"
    and "get_session_by_secret_hash h host' db = Some b"
  shows "a = b"
proof -
  obtain s t where "s \<in> set (db_secrets db)" "sec_secret_hash s = h" "get_session (sec_session_id s) db = Some a"
    "t \<in> set (db_secrets db)" "sec_secret_hash t = h" "get_session (sec_session_id t) db = Some b"
    using get_session_by_secret_hash_InrD assms(2,3) by meson
  moreover have "distinct (map sec_secret_hash (db_secrets db))"
    using assms(1) by (simp add: control_ok_def keys_ok_def)
  ultimately have "s = t" by (simp add: distinct_map inj_on_def)
  then show ?thesis using \<open>get_session (sec_session_id s) db = Some a\<close> \<open>get_session (sec_session_id t) db = Some b\<close>
    by simp
qed

text \<open>
  C12: logging out on one host ends the session on all of them, for good: after a revoke,
  whatever the control plane goes through, no secret of that session gets a context on any
  host at any time, touched or not.
\<close>

theorem logged_out_everywhere:
  assumes "control_ok (cl_control c)" and "revoke su i (cl_control c) = Inr (u, db)"
    and "control_step\<^sup>*\<^sup>* db later" and "sec \<in> set (db_secrets (cl_control c))" and "sec_session_id sec = i"
    and "su_sha256 su' secret = sec_secret_hash sec"
  shows "\<exists>r. context_from_session su' rid secret host en \<lparr>cl_control = later, cl_databases = dbs\<rparr> = Inr (Inl r)
     \<and> rf_state r \<in> {session_missing, session_expired, session_revoked}"
proof -
  have rev: "revoke_session (su_now su) i (cl_control c) = Inr (u, db)" using assms(2) by (simp add: revoke_def)
  have step: "control_step (cl_control c) db" by (rule control_step.step_revoke [OF rev])
  have ok: "control_ok db" using control_step_ok [OF step assms(1)] .
  have later: "history db later" "control_ok later"
    using control_steps_history control_steps_ok assms(3) ok by blast+
  obtain row where row: "get_session i (cl_control c) = Some row"
    and db: "db = (cl_control c)\<lparr>db_sessions := update_where (\<lambda>r. ses_id r = i)
      (\<lambda>r. r\<lparr>ses_revoked_at := Some (su_now su)\<rparr>) (db_sessions (cl_control c))\<rparr>"
    using rev update_session_eq [OF assms(1)] by (auto simp: revoke_session_def split: option.splits)
  have "get_session i db = Some (row\<lparr>ses_revoked_at := Some (su_now su)\<rparr>)" "sec \<in> set (db_secrets db)"
    using row assms(4) unfolding db by (simp_all add: get_updated_session)
  then obtain row' where row': "get_session_by_secret_hash (sec_secret_hash sec) (sec_host sec) later = Some row'"
      "ses_revoked_at row' \<noteq> None"
    using secret_names_session [OF ok later, of sec] assms(5) by (auto simp: session_follows_def)
  show ?thesis
  proof (cases "get_session_by_secret_hash (sec_secret_hash sec) host later")
    case None
    then show ?thesis using assms(6) by (auto simp: context_from_session_def refuse_with_def)
  next
    case (Some found)
    then have "found = row'" using row'(1) later(2) same_secret_same_session by blast
    then show ?thesis using Some row'(2) assms(6) by (auto simp: context_from_session_def refuse_with_def)
  qed
qed

definition touch_step :: "uuid \<Rightarrow> surroundings \<Rightarrow> control_db \<Rightarrow> control_db result" where
  "touch_step i su db = rbind (touch su i db) (\<lambda>(_, db'). Inr db')"

lemma touch_step_session:
  assumes "control_ok db" and "get_session i db = Some r" and "touch_step i su db = Inr db'"
  shows "control_ok db'" and "\<exists>r' idle m. get_session i db' = Some r' \<and> ses_created_at r' = ses_created_at r
     \<and> session_policy su = Inr (idle, m)
     \<and> ses_expires_at r' = min (su_now su + days idle) (ses_created_at r + days m)"
proof -
  obtain e where e: "compute_expiry su (su_now su) (ses_created_at r) = Inr e"
    and t: "touch_session i (su_now su) e db = Inr ((), db')"
    using assms(2,3) by (auto simp: touch_step_def touch_def)
  show "control_ok db'" using control_step_ok [OF control_step.step_touch [OF t] assms(1)] .
  show "\<exists>r' idle m. get_session i db' = Some r' \<and> ses_created_at r' = ses_created_at r
     \<and> session_policy su = Inr (idle, m)
     \<and> ses_expires_at r' = min (su_now su + days idle) (ses_created_at r + days m)"
    using t touch_session_eq [OF assms(1)] assms(2) compute_expiry_InrD [OF e]
    by (auto simp: get_updated_session)
qed

lemma touches_session:
  assumes "control_ok db" and "get_session i db = Some r" and "rfold (touch_step i) sus db = Inr db'"
    and "session_policy su = Inr (idle, m)" and "ses_expires_at r = min (su_now su + days idle) (ses_created_at r + days m)"
  shows "\<exists>r' idle m. get_session i db' = Some r' \<and> ses_created_at r' = ses_created_at r
     \<and> session_policy (last (su # sus)) = Inr (idle, m)
     \<and> ses_expires_at r' = min (su_now (last (su # sus)) + days idle) (ses_created_at r + days m)"
  using assms
proof (induction sus arbitrary: db r su idle m)
  case Nil
  then show ?case by auto
next
  case (Cons s sus)
  obtain db1 where d: "touch_step i s db = Inr db1" "rfold (touch_step i) sus db1 = Inr db'"
    using Cons.prems(3) by auto
  obtain r1 idle1 m1 where r1: "get_session i db1 = Some r1" "ses_created_at r1 = ses_created_at r"
    "session_policy s = Inr (idle1, m1)"
    "ses_expires_at r1 = min (su_now s + days idle1) (ses_created_at r1 + days m1)"
    using touch_step_session(2) [OF Cons.prems(1,2) d(1)] by auto
  show ?case
    using Cons.IH [OF touch_step_session(1) [OF Cons.prems(1,2) d(1)] r1(1) d(2) r1(3,4)] r1(2) by simp
qed

text \<open>
  C19: however often it is touched, a session ends. Its deadline is the earlier of its last
  touch plus the idle days and its creation plus the maximal days, both as the settings were
  at that touch; so while the maximum stayed at most \<open>M\<close> days, from \<open>M\<close> days after its creation
  on every secret of it is refused as expired.
\<close>

theorem session_never_outlives_maximum:
  assumes "control_ok db" and "create_session su i a db = Inr (row, db0)"
    and "rfold (touch_step i) sus db0 = Inr db1"
    and "\<forall>s \<in> set (su # sus). \<forall>idle m. session_policy s = Inr (idle, m) \<longrightarrow> m \<le> M"
  shows "\<exists>r idle m. get_session i db1 = Some r \<and> session_policy (last (su # sus)) = Inr (idle, m)
     \<and> ses_expires_at r = min (su_now (last (su # sus)) + days idle) (su_now su + days m)
     \<and> (\<forall>su' rid secret host en c. get_session_by_secret_hash (su_sha256 su' secret) host (cl_control c) = Some r
          \<and> su_now su + days M \<le> su_now su' \<longrightarrow>
          context_from_session su' rid secret host en c = Inr (refuse_with session_expired None))"
proof -
  note C = create_session_InrD [OF assms(1,2)]
  obtain idle m where p: "session_policy su = Inr (idle, m)"
    "ses_expires_at row = min (su_now su + days idle) (ses_created_at row + days m)"
    using compute_expiry_InrD [OF C(7)] C(3) by auto
  obtain r idle m where r: "get_session i db1 = Some r" "session_policy (last (su # sus)) = Inr (idle, m)"
    "ses_expires_at r = min (su_now (last (su # sus)) + days idle) (su_now su + days m)"
    using touches_session [OF control_steps_ok [OF C(1) assms(1)] C(2) assms(3) p] C(3) by auto
  have "m \<le> M" using assms(4) r(2) last_in_set [of "su # sus"] by blast
  then have "su_now su + days m \<le> su_now su + days M" by simp
  then have "ses_expires_at r \<le> su_now su + days M" unfolding r(3) by (rule min.coboundedI2)
  then have "context_from_session su' rid secret host en c = Inr (refuse_with session_expired None)"
    if "get_session_by_secret_hash (su_sha256 su' secret) host (cl_control c) = Some r"
      "su_now su + days M \<le> su_now su'" for su' rid secret host en c
    using that by (simp add: context_from_session_def)
  then show ?thesis using r by blast
qed

lemma context_from_token_InrD:
  assumes "context_from_token su rid v surface c = (Inr (Inr cx), c')"
  obtains t db ms en where "resolve_token su v surface (cl_control c) = Inr (Inr t, db)"
    and "c' = c\<lparr>cl_control := db\<rparr>" and "active_workspace_modules (rt_workspace_id t) c' = Inr (Inr ms)"
    and "entry_of surface = Inr en"
    and "cx = \<lparr>cx_workspace_id = rt_workspace_id t,
               cx_actor = \<lparr>actor_kind = Actor_Token, actor_id = Some (rt_account_id t)\<rparr>, cx_role = rt_role t,
               cx_entry = en, cx_audience = Some \<lparr>audience_kind = Audience_Token, audience_id = Some (rt_account_id t)\<rparr>,
               cx_operation_set = Operations (rt_operation_set t), cx_enabled_modules = ms,
               cx_request_id = rid\<rparr>"
proof -
  obtain x d where x: "control_tx (resolve_token su v surface) c = (Inr x, d)"
    using assms by (auto simp: context_from_token_def act_bind_Inr)
  show thesis
  proof (cases x)
    case (Inl r)
    then show thesis using assms x by (simp add: context_from_token_def act_return_def)
  next
    case (Inr t)
    obtain y where y: "active_workspace_modules (rt_workspace_id t) d = Inr y"
      using assms x Inr by (auto simp: context_from_token_def act_bind_Inr)
    show thesis
    proof (cases y)
      case (Inl r)
      then show thesis using assms x y \<open>x = Inr t\<close>
        by (simp add: context_from_token_def act_return_def lift_result_def)
    next
      case (Inr ms)
      then show thesis
        using assms x y \<open>x = Inr t\<close> control_tx_InrD [OF x] that
        by (auto simp: context_from_token_def act_bind_Inr act_return_def lift_result_def act_raise_def
            split: sum.splits)
    qed
  qed
qed

text \<open>
  C26: no factory escalates. Only the operator's factory gives the operator role, and it reads
  no account; an account's or a token's context has the role of a membership, which is owner
  or member; the full operation set is never a token's, and a token's own set never has one of
  the operations that issue tokens, approve or grant.
\<close>

theorem no_factory_escalates:
  assumes "control_ok (cl_control c)"
  shows "(context_from_session su rid secret host en c = Inr (Inr cx) \<longrightarrow>
       cx_role cx \<in> {Role_Owner, Role_Member} \<and> actor_kind (cx_actor cx) = Actor_Account)
   \<and> (context_for_harness su rid w a wanted en c = Inr (Inr cx) \<longrightarrow>
       profile su = Inr ''test'' \<and> cx_role cx \<in> {Role_Owner, Role_Member} \<and> workspace_facts c cx)
   \<and> (context_from_token su rid v surface c = (Inr (Inr cx), c') \<longrightarrow>
       cx_role cx \<in> {Role_Owner, Role_Member} \<and> actor_kind (cx_actor cx) = Actor_Token
       \<and> (\<exists>ops. cx_operation_set cx = Operations ops \<and> ops \<inter> set non_token_issuable = {})
       \<and> cl_databases c' = cl_databases c)
   \<and> (context_for_operator rid w en c = Inr (Inr cx) \<longrightarrow>
       cx_role cx = Role_Operator \<and> actor_id (cx_actor cx) = None \<and> workspace_facts c cx)"
proof (intro conjI impI)
  have role: "mb_role m \<in> {Role_Owner, Role_Member}" if "get_membership x y (cl_control c) = Some m" for x y m
  proof -
    have "m \<in> set (db_memberships (cl_control c))" using that by (auto simp: get_membership_def find_Some_iff)
    then have "role_value (mb_role m) \<in> set membership_roles"
      using assms by (auto simp: control_ok_def references_ok_def references_def list_all_iff)
    then show ?thesis by (cases "mb_role m") (simp_all add: membership_roles_def)
  qed
  {
    assume "context_from_session su rid secret host en c = Inr (Inr cx)"
    from session_context_facts [OF this] show "cx_role cx \<in> {Role_Owner, Role_Member}"
      "actor_kind (cx_actor cx) = Actor_Account" by (auto dest: role)
  next
    assume h: "context_for_harness su rid w a wanted en c = Inr (Inr cx)"
    then show "profile su = Inr ''test''" "cx_role cx \<in> {Role_Owner, Role_Member}" "workspace_facts c cx"
      by (auto simp: context_for_harness_def refuse_with_def split: if_splits
          dest: role intro!: active_workspace_modules_InrD)
  next
    assume o: "context_for_operator rid w en c = Inr (Inr cx)"
    then show "cx_role cx = Role_Operator" "actor_id (cx_actor cx) = None" "workspace_facts c cx"
      by (auto simp: context_for_operator_def intro!: active_workspace_modules_InrD)
  next
    assume "context_from_token su rid v surface c = (Inr (Inr cx), c')"
    then obtain t db where t: "resolve_token su v surface (cl_control c) = Inr (Inr t, db)"
      and c': "c' = c\<lparr>cl_control := db\<rparr>"
      and cx: "cx_role cx = rt_role t" "actor_kind (cx_actor cx) = Actor_Token"
        "cx_operation_set cx = Operations (rt_operation_set t)"
      by (rule context_from_token_InrD) simp
    then show "cx_role cx \<in> {Role_Owner, Role_Member}" "actor_kind (cx_actor cx) = Actor_Token"
      "\<exists>ops. cx_operation_set cx = Operations ops \<and> ops \<inter> set non_token_issuable = {}"
      "cl_databases c' = cl_databases c"
      using resolve_token_Inr [OF t(1)] by (auto dest: role)
  }
qed

section \<open>Concrete sessions\<close>

definition host_surroundings :: surroundings where
  "host_surroundings = sample_surroundings\<lparr>su_now := 50, su_sha256 := (\<lambda>_. [1])\<rparr>"

definition session_days :: "string \<Rightarrow> int \<Rightarrow> key_spec" where
  "session_days key n = token_key\<lparr>ks_key := key, ks_default := PInt n\<rparr>"

definition days_surroundings :: "datetime \<Rightarrow> surroundings" where
  "days_surroundings now = sample_surroundings\<lparr>su_now := now, su_registry :=
     \<lparr>sr_specs = [(''identity.session_idle_days'', session_days ''identity.session_idle_days'' 14),
                 (''identity.session_max_days'', session_days ''identity.session_max_days'' 30)],
      sr_origins = []\<rparr>\<rparr>"

lemma days_policy: "session_policy (days_surroundings now) = Inr (14, 30)"
proof -
  have "session_policy (days_surroundings 0) = Inr (14, 30)" by code_simp
  moreover have "days_surroundings now = (days_surroundings 0)\<lparr>su_now := now\<rparr>"
    by (simp add: days_surroundings_def)
  ultimately show ?thesis by (simp add: session_policy_def settings_int_def)
qed

lemma sample_session_context:
  "\<exists>cx. context_from_session host_surroundings 1 [9] ''a.test'' Entry_Web active_cluster = Inr (Inr cx)
     \<and> cx_role cx = Role_Owner \<and> cx_workspace_id cx = 5"
proof -
  have "(case context_from_session host_surroundings 1 [9] ''a.test'' Entry_Web active_cluster of
      Inr (Inr cx) \<Rightarrow> cx_role cx = Role_Owner \<and> cx_workspace_id cx = 5 | _ \<Rightarrow> False)" by code_simp
  then show ?thesis by (auto split: sum.splits)
qed

lemma session_context_sound_witness:
  "\<exists>cx. context_from_session host_surroundings 1 [9] ''a.test'' Entry_Web active_cluster = Inr (Inr cx)
     \<and> workspace_facts active_cluster cx"
  using sample_session_context session_context_sound by blast

lemma no_factory_escalates_witness:
  "\<exists>cx. context_from_session host_surroundings 1 [9] ''a.test'' Entry_Web active_cluster = Inr (Inr cx)
     \<and> actor_kind (cx_actor cx) = Actor_Account"
proof -
  have "control_ok (cl_control active_cluster)" using sample_control_ok by (simp add: active_cluster_def)
  from no_factory_escalates [OF this] show ?thesis using sample_session_context by blast
qed

lemma logged_out_everywhere_witness:
  "\<exists>db r. revoke host_surroundings 9 sample_control = Inr ((), db)
     \<and> context_from_session host_surroundings 1 [9] ''a.test'' Entry_Web
         \<lparr>cl_control = db, cl_databases = []\<rparr> = Inr (Inl r)
     \<and> rf_state r \<in> {session_missing, session_expired, session_revoked}"
proof -
  have "map_sum id fst (revoke host_surroundings 9 sample_control) = Inr ()" by code_simp
  then obtain db where r: "revoke host_surroundings 9 sample_control = Inr ((), db)"
    by (cases "revoke host_surroundings 9 sample_control") auto
  let ?sec = "\<lparr>sec_secret_hash = [1], sec_session_id = 9, sec_host = ''a.test'', sec_created_at = 0\<rparr>"
  have "?sec \<in> set (db_secrets (cl_control active_cluster))"
    by (simp add: active_cluster_def sample_control_def)
  moreover have "su_sha256 host_surroundings [9] = sec_secret_hash ?sec" by (simp add: host_surroundings_def)
  moreover have "cl_control active_cluster = sample_control" by (simp add: active_cluster_def)
  ultimately show ?thesis
    using logged_out_everywhere [of active_cluster host_surroundings 9 "()" db db ?sec host_surroundings "[9]"
        1 "''a.test''" Entry_Web "[]"] sample_control_ok r by simp
qed

lemma session_never_outlives_maximum_witness:
  "\<exists>row db0 db1 r. create_session (days_surroundings 1000) 33 7 sample_control = Inr (row, db0)
     \<and> rfold (touch_step 33) [days_surroundings 2000] db0 = Inr db1 \<and> get_session 33 db1 = Some r
     \<and> ses_expires_at r = min (2000 + days 14) (1000 + days 30)"
proof -
  have e: "compute_expiry (days_surroundings n) n m = Inr (min (n + days 14) (m + days 30))"
    if "n \<in> {1000, 2000}" "m = 1000" for n m
    using that by (auto simp: compute_expiry_def days_policy add_days_def days_def min_datetime_def max_datetime_def)
  have now: "su_now (days_surroundings n) = n" for n by (simp add: days_surroundings_def)
  have n: "33 \<notin> session_ids sample_control" "7 \<in> account_ids sample_control"
    by (simp_all add: session_ids_def account_ids_def sample_control_def)
  obtain srow d1 where i: "insert_session 33 1000 7 sample_control = Inr (srow, d1)" "ses_id srow = 33"
      "ses_created_at srow = 1000"
    using n by (auto simp: insert_session_def put_session_def Let_def)
  have "srow \<in> set (db_sessions d1)" using i(1) by (auto simp: insert_session_def put_session_def Let_def)
  moreover have ok1: "control_ok d1"
    using control_step_ok [OF control_step.step_session [OF i(1)] sample_control_ok] .
  ultimately have "get_session 33 d1 = Some srow"
    using find_unique [of ses_id "db_sessions d1" srow] distinct_session_ids i(2) by (simp add: get_session_def)
  then obtain row db0 where c: "create_session (days_surroundings 1000) 33 7 sample_control = Inr (row, db0)"
    using i touch_session_eq [OF ok1] by (auto simp: create_session_def now e)
  note C = create_session_InrD [OF sample_control_ok c]
  have "control_ok db0" using control_steps_ok [OF C(1) sample_control_ok] .
  then obtain db1 where t: "rfold (touch_step 33) [days_surroundings 2000] db0 = Inr db1"
    using C(2,3) touch_session_eq by (auto simp: touch_step_def touch_def now e)
  have "\<forall>s \<in> set [days_surroundings 1000, days_surroundings 2000]. \<forall>idle m. session_policy s = Inr (idle, m) \<longrightarrow> m \<le> 30"
    by (simp add: days_policy)
  from session_never_outlives_maximum [OF sample_control_ok c t this]
  show ?thesis using c t by (auto simp: days_policy now)
qed

end
