(* ===== verification/Dispatch.thy ===== *)
theory Dispatch
  imports Factories
begin

text \<open>
  \<open>rheo_core/operations/dispatch.py\<close>: authorize, validate, run in one unit of work, commit.

  The engine the pool returns for a name is the one for that name (\<open>Storage_Pool\<close>), so the
  unit of work is made over the name. A handler acts on the control plane, which it commits
  itself, and on its unit of work. What pydantic does (validating a payload into a model, the
  class of an output) and the handlers are the fields of \<open>service\<close>. Logging is not modelled.
\<close>

section \<open>Outcomes\<close>

record operation_error =
  oe_code :: string
  oe_text :: string

record 'o outcome =
  oo_state :: string
  oo_result :: "'o option"
  oo_error :: "operation_error option"

definition outcome_ok :: "'o outcome \<Rightarrow> bool" where
  "outcome_ok out = (oo_state out = succeeded)"

definition refused_outcome :: "string \<Rightarrow> string option \<Rightarrow> 'o outcome" where
  "refused_outcome st detail = \<lparr>oo_state = st, oo_result = None, oo_error = Some \<lparr>oe_code = st,
     oe_text = (case detail of None \<Rightarrow> st | Some d \<Rightarrow> if d = [] then st else d)\<rparr>\<rparr>"

definition failed_outcome :: "string \<Rightarrow> string \<Rightarrow> 'o outcome" where
  "failed_outcome code detail = \<lparr>oo_state = failed, oo_result = None,
     oo_error = Some \<lparr>oe_code = code, oe_text = detail\<rparr>\<rparr>"

text \<open>One pydantic error: where and what, without the value.\<close>

record validation_error =
  ve_loc :: "string list"
  ve_msg :: string

definition describe_validation_error :: "validation_error list \<Rightarrow> string" where
  "describe_validation_error errs = take 2000 (join_with ''; '' (map (\<lambda>e.
     (let location = join_with ''.'' (ve_loc e) in (if location = [] then ''<root>'' else location)
        @ '': '' @ ve_msg e)) errs))"

text \<open>\<open>type(exc).__name__\<close>.\<close>

fun exc_class :: "py_exc \<Rightarrow> string" where
  "exc_class (TypeError d) = ''TypeError''"
| "exc_class (ValueError d) = ''ValueError''"
| "exc_class (RuntimeError d) = ''RuntimeError''"
| "exc_class (NotImplementedError d) = ''NotImplementedError''"
| "exc_class AssertionError = ''AssertionError''"
| "exc_class (OverflowError d) = ''OverflowError''"
| "exc_class (IntegrityError v n) = ''IntegrityError''"
| "exc_class (SettingsError st d k) = ''SettingsError''"
| "exc_class (StorageRefusal st d w) = ''StorageRefusal''"
| "exc_class (OperationRefused st d) = ''OperationRefused''"
| "exc_class (RegistrationRefused st d) = ''RegistrationRefused''"
| "exc_class (SecretRefusal st d) = ''SecretRefusal''"
| "exc_class (DataRootRefusal st d) = ''DataRootRefusal''"
| "exc_class (RecordRefMalformed v) = ''RecordRefMalformed''"
| "exc_class (OtherException c d) = c"

section \<open>A call and its unit of work\<close>

record call_state =
  cs_cluster :: cluster
  cs_uow :: "workspace_db uow"

record ('h, 'v, 'i, 'o) service =
  sv_verify :: bool
  sv_validate :: "string \<Rightarrow> (string \<times> 'v) list \<Rightarrow> validation_error list + 'i"
  sv_instance :: "'o \<Rightarrow> string \<Rightarrow> bool"
  sv_class :: "'o \<Rightarrow> string"
  sv_run :: "'h \<Rightarrow> workspace_context \<Rightarrow> 'i \<Rightarrow> (call_state, 'o) action"

definition open_call :: "workspace_context \<Rightarrow> cluster \<Rightarrow> workspace_db uow result" where
  "open_call ctx c =
     rbind (active_workspace (cx_workspace_id ctx) (cl_control c)) (\<lambda>row.
     rbind (check_database_name (ws_database_name row)) (\<lambda>n.
     make_uow \<lparr>en_serial = 0, en_database = n\<rparr> (ws_database_name row)))"

definition enter_call :: "bool \<Rightarrow> workspace_db uow \<Rightarrow> cluster \<Rightarrow> workspace_db uow result" where
  "enter_call verify u c = (case map_of (cl_databases c) (uw_database u) of
       None \<Rightarrow> Inl (OtherException ''OperationalError''
         (''database '' @ py_repr (uw_database u) @ '' does not exist''))
     | Some wd \<Rightarrow> uow_enter verify wd u)"

definition commit_call :: "(call_state, unit) action" where
  "commit_call s = (case uow_commit (cs_uow s) of
       Inl e \<Rightarrow> (Inl e, s)
     | Inr (wd, u) \<Rightarrow> (Inr (), s\<lparr>cs_cluster := (cs_cluster s)\<lparr>cl_databases :=
           dict_set (uw_database u) wd (cl_databases (cs_cluster s))\<rparr>, cs_uow := u\<rparr>))"

definition rollback_call :: "call_state \<Rightarrow> call_state" where
  "rollback_call s = (case uow_rollback (cs_uow s) of Inl _ \<Rightarrow> s | Inr u \<Rightarrow> s\<lparr>cs_uow := u\<rparr>)"

definition outcome_of_exception :: "py_exc \<Rightarrow> 'o outcome" where
  "outcome_of_exception e = (case e of
       OperationRefused st d \<Rightarrow> refused_outcome st d
     | StorageRefusal st d _ \<Rightarrow> refused_outcome st (Some d)
     | _ \<Rightarrow> failed_outcome handler_failed (exc_class e))"

text \<open>The \<open>with uow:\<close> block.\<close>

definition run_call :: "('h, 'v, 'i, 'o) service \<Rightarrow> operation_declaration \<Rightarrow> 'h \<Rightarrow> workspace_context \<Rightarrow> 'i
    \<Rightarrow> call_state \<Rightarrow> 'o outcome \<times> call_state" where
  "run_call sv decl handler ctx i s =
     (case sv_run sv handler ctx i s of
        (Inl e, s1) \<Rightarrow> (outcome_of_exception e, rollback_call s1)
      | (Inr output, s1) \<Rightarrow>
          if \<not> sv_instance sv output (od_output decl)
          then (failed_outcome output_invalid (od_name decl @ '' returned '' @ sv_class sv output
                  @ '', not '' @ od_output decl), rollback_call s1)
          else (case commit_call s1 of
              (Inl e, s2) \<Rightarrow> (outcome_of_exception e, rollback_call s2)
            | (Inr _, s2) \<Rightarrow> (\<lparr>oo_state = succeeded, oo_result = Some output, oo_error = None\<rparr>, s2)))"

definition dispatch :: "('h, 'v, 'i, 'o) service \<Rightarrow> 'h operation_registry \<Rightarrow> workspace_context option
    \<Rightarrow> string \<Rightarrow> (string \<times> 'v) list option \<Rightarrow> (cluster, 'o outcome) action" where
  "dispatch sv reg ctx name payload c = (case ctx of
       None \<Rightarrow> (Inr (refused_outcome context_required
         (Some ''dispatch() needs a WorkspaceContext from a boundary factory'')), c)
     | Some cx \<Rightarrow> (case authorize reg (Some cx) name of
           Inl r \<Rightarrow> (Inr (refused_outcome (rf_state r) (rf_detail r)), c)
         | Inr op \<Rightarrow> (case sv_validate sv (od_input_model (ro_declaration op))
               (case payload of None \<Rightarrow> [] | Some p \<Rightarrow> p) of
               Inl errs \<Rightarrow> (Inr (refused_outcome input_invalid (Some (describe_validation_error errs))), c)
             | Inr i \<Rightarrow> (case open_call cx c of
                   Inl (StorageRefusal st d _) \<Rightarrow> (Inr (refused_outcome st (Some d)), c)
                 | Inl e \<Rightarrow> (Inl e, c)
                 | Inr u \<Rightarrow> (case enter_call (sv_verify sv) u c of
                       Inl e \<Rightarrow> (Inl e, c)
                     | Inr u' \<Rightarrow> (case run_call sv (ro_declaration op) (ro_handler op) cx i
                           \<lparr>cs_cluster = c, cs_uow = u'\<rparr> of
                           (out, s) \<Rightarrow> (Inr out, cs_cluster s)))))))"

section \<open>One call, one transaction\<close>

text \<open>
  A handler that keeps the discipline of the code base: it writes to workspace databases
  through its unit of work only, and leaves committing to the dispatcher.
\<close>

definition disciplined :: "('i \<Rightarrow> (call_state, 'o) action) \<Rightarrow> bool" where
  "disciplined f = (\<forall>i s r s'. f i s = (r, s') \<longrightarrow>
     cl_databases (cs_cluster s') = cl_databases (cs_cluster s)
     \<and> uw_database (cs_uow s') = uw_database (cs_uow s))"

lemma disciplinedD:
  "disciplined f \<Longrightarrow> f i s = (r, s') \<Longrightarrow> cl_databases (cs_cluster s') = cl_databases (cs_cluster s)
     \<and> uw_database (cs_uow s') = uw_database (cs_uow s)"
  by (simp add: disciplined_def)

lemma rollback_call_cluster [simp]: "cs_cluster (rollback_call s) = cs_cluster s"
  by (simp add: rollback_call_def split: sum.split)

lemma outcome_of_exception_error [simp]:
  "oo_error (outcome_of_exception e) \<noteq> None" "oo_result (outcome_of_exception e) = None"
  by (auto simp: outcome_of_exception_def refused_outcome_def failed_outcome_def split: py_exc.splits)

lemma commit_call_cases:
  "commit_call s = (r, s') \<Longrightarrow> (\<exists>e. r = Inl e \<and> s' = s) \<or>
     (\<exists>wd. r = Inr () \<and> uw_transaction (cs_uow s) = Some wd \<and> cl_control (cs_cluster s') = cl_control (cs_cluster s)
        \<and> cl_databases (cs_cluster s') = dict_set (uw_database (cs_uow s)) wd (cl_databases (cs_cluster s)))"
  by (auto simp: commit_call_def uow_commit_def split: option.splits)

lemma run_call_databases:
  assumes "disciplined (sv_run sv h ctx)" and "run_call sv decl h ctx i s = (out, s')"
  shows "(oo_error out \<noteq> None \<and> cl_databases (cs_cluster s') = cl_databases (cs_cluster s)) \<or>
     (oo_error out = None \<and> oo_state out = succeeded
        \<and> (\<exists>wd. cl_databases (cs_cluster s') = dict_set (uw_database (cs_uow s)) wd (cl_databases (cs_cluster s))))"
proof -
  obtain r s1 where run: "sv_run sv h ctx i s = (r, s1)" by fastforce
  note d = disciplinedD [OF assms(1) run]
  show ?thesis
  proof (cases r)
    case (Inl e)
    then show ?thesis using assms(2) run d by (auto simp: run_call_def)
  next
    case (Inr res)
    obtain q s2 where c: "commit_call s1 = (q, s2)" by fastforce
    show ?thesis
      using assms(2) run d Inr c commit_call_cases [OF c]
      by (auto simp: run_call_def failed_outcome_def split: if_splits)
  qed
qed

lemma open_call_InrD:
  assumes "open_call cx c = Inr u"
  shows "\<exists>row. get_workspace (cx_workspace_id cx) (cl_control c) = Some row \<and> ws_state row = Active
     \<and> uw_database u = ws_database_name row \<and> uw_expected u = ws_database_name row
     \<and> \<not> uw_connection u \<and> uw_transaction u = None"
  using assms by (auto simp: open_call_def active_workspace_def make_uow_def dest!: check_database_name_InrD
      split: option.splits if_splits)

lemma enter_call_InrD:
  "enter_call verify u c = Inr u' \<Longrightarrow> uw_database u' = uw_database u \<and> uw_connection u'
     \<and> (\<exists>wd. map_of (cl_databases c) (uw_database u) = Some wd \<and> uw_transaction u' = Some wd)"
  by (auto simp: enter_call_def uow_enter_def ensure_def split: option.splits if_splits)

text \<open>What a dispatch that reached its handler went through.\<close>

lemma dispatch_cases:
  assumes "dispatch sv reg ctx name payload c = (r, c')"
  obtains (stopped) "c' = c" and "\<forall>out. r = Inr out \<longrightarrow> oo_error out \<noteq> None"
  | (ran) cx op i u u' out s where "ctx = Some cx" and "authorize reg (Some cx) name = Inr op"
      and "sv_validate sv (od_input_model (ro_declaration op)) (case payload of None \<Rightarrow> [] | Some p \<Rightarrow> p) = Inr i"
      and "open_call cx c = Inr u" and "enter_call (sv_verify sv) u c = Inr u'"
      and "run_call sv (ro_declaration op) (ro_handler op) cx i \<lparr>cs_cluster = c, cs_uow = u'\<rparr> = (out, s)"
      and "r = Inr out" and "c' = cs_cluster s"
  using assms
  by (auto simp: dispatch_def refused_outcome_def split: option.splits sum.splits py_exc.splits prod.splits)

lemma dispatch_effect:
  assumes "\<forall>h cx. disciplined (sv_run sv h cx)" and "dispatch sv reg ctx name payload c = (r, c')"
  shows "(\<forall>out. r = Inr out \<longrightarrow> oo_error out \<noteq> None) \<and> cl_databases c' = cl_databases c
       \<or> (\<exists>out cx op row wd. r = Inr out \<and> outcome_ok out \<and> oo_error out = None \<and> ctx = Some cx
            \<and> authorize reg (Some cx) name = Inr op \<and> get_workspace (cx_workspace_id cx) (cl_control c) = Some row
            \<and> ws_state row = Active \<and> cl_databases c' = dict_set (ws_database_name row) wd (cl_databases c))"
  using assms(2)
proof (cases rule: dispatch_cases)
  case stopped
  then show ?thesis by auto
next
  case (ran cx op i u u' out s)
  obtain row where row: "get_workspace (cx_workspace_id cx) (cl_control c) = Some row" "ws_state row = Active"
    "uw_database u = ws_database_name row" using open_call_InrD [OF ran(4)] by auto
  have "uw_database u' = ws_database_name row" using enter_call_InrD [OF ran(5)] row(3) by simp
  then show ?thesis
    using run_call_databases [OF _ ran(6)] assms(1) ran row by (fastforce simp: outcome_ok_def)
qed

lemma dispatch_unauthorized:
  assumes "dispatch sv reg ctx name payload c = (r, c')"
    and "\<forall>cx op. ctx = Some cx \<longrightarrow> authorize reg (Some cx) name \<noteq> Inr op"
  shows "c' = c \<and> (\<exists>out. r = Inr out \<and> (\<forall>cx f. ctx = Some cx \<longrightarrow> authorize reg (Some cx) name = Inl f \<longrightarrow> oo_state out = rf_state f))"
  using assms by (cases ctx; cases "authorize reg ctx name") (auto simp: dispatch_def refused_outcome_def)

text \<open>
  C1: a dispatch is one transaction on one database. Unless it succeeds, whether it was
  refused, failed or raised, every workspace database is as it was; when it succeeds, the call
  was authorized and the only database that can differ is that of the context's workspace,
  which was active. Without authorization nothing at all changes, whatever the handlers do.
\<close>

theorem dispatch_is_atomic:
  assumes "\<forall>h cx. disciplined (sv_run sv h cx)" and "dispatch sv reg ctx name payload c = (r, c')"
  shows "((\<forall>out. r = Inr out \<longrightarrow> oo_error out \<noteq> None) \<and> cl_databases c' = cl_databases c
       \<or> (\<exists>out cx op row wd. r = Inr out \<and> outcome_ok out \<and> oo_error out = None \<and> ctx = Some cx
            \<and> authorize reg (Some cx) name = Inr op \<and> get_workspace (cx_workspace_id cx) (cl_control c) = Some row
            \<and> ws_state row = Active \<and> cl_databases c' = dict_set (ws_database_name row) wd (cl_databases c)))
     \<and> ((\<forall>cx op. ctx = Some cx \<longrightarrow> authorize reg (Some cx) name \<noteq> Inr op) \<longrightarrow> c' = c \<and> (\<exists>out. r = Inr out))"
  using dispatch_effect [OF assms] dispatch_unauthorized [OF assms(2)] by blast

definition live_call :: "string \<Rightarrow> workspace_db \<Rightarrow> cluster \<Rightarrow> call_state" where
  "live_call name wd c = \<lparr>cs_cluster = c, cs_uow = \<lparr>uw_database = name, uw_expected = name,
     uw_connection = True, uw_transaction = Some wd\<rparr>\<rparr>"

lemma open_and_enter:
  assumes "get_workspace (cx_workspace_id cx) (cl_control c) = Some row" and "ws_state row = Active"
    and "database_name_ok (ws_database_name row)" and "map_of (cl_databases c) (ws_database_name row) = Some wd"
  shows "\<exists>u u'. open_call cx c = Inr u \<and> enter_call verify u c = Inr u'
     \<and> \<lparr>cs_cluster = c, cs_uow = u'\<rparr> = live_call (ws_database_name row) wd c"
proof -
  have "ws_database_name row \<noteq> []" using assms(3) by (cases "ws_database_name row") auto
  then show ?thesis using assms
    by (simp add: open_call_def active_workspace_def check_database_name_def make_uow_def enter_call_def
        uow_enter_def live_call_def)
qed

text \<open>
  C27: over a workspace that is active and whose database is there, a dispatch always returns an
  outcome: no exception of a handler leaves it, and what the outcome says of one is a refusal's
  own state and detail, or the fixed code \<open>handler_failed\<close> and the name of the exception's class,
  never its message.
\<close>

theorem dispatch_contains_exceptions:
  assumes "get_workspace (cx_workspace_id cx) (cl_control c) = Some row" and "ws_state row = Active"
    and "database_name_ok (ws_database_name row)" and "map_of (cl_databases c) (ws_database_name row) = Some wd"
  shows "\<exists>out c'. dispatch sv reg (Some cx) name payload c = (Inr out, c')
     \<and> (\<forall>op i e s1. authorize reg (Some cx) name = Inr op
          \<and> sv_validate sv (od_input_model (ro_declaration op)) (case payload of None \<Rightarrow> [] | Some p \<Rightarrow> p) = Inr i
          \<and> sv_run sv (ro_handler op) cx i (live_call (ws_database_name row) wd c) = (Inl e, s1) \<longrightarrow>
        c' = cs_cluster s1 \<and> oo_result out = None \<and>
        (case e of OperationRefused st d \<Rightarrow> out = refused_outcome st d
         | StorageRefusal st d _ \<Rightarrow> out = refused_outcome st (Some d)
         | _ \<Rightarrow> oo_state out = failed \<and> oo_error out = Some \<lparr>oe_code = handler_failed, oe_text = exc_class e\<rparr>))"
proof -
  obtain u u' where u: "open_call cx c = Inr u" "enter_call (sv_verify sv) u c = Inr u'"
    "\<lparr>cs_cluster = c, cs_uow = u'\<rparr> = live_call (ws_database_name row) wd c"
    using open_and_enter [OF assms, of "sv_verify sv"] by blast
  show ?thesis
  proof (cases "authorize reg (Some cx) name")
    case (Inl r)
    then show ?thesis by (simp add: dispatch_def)
  next
    case (Inr op)
    then show ?thesis
      using u
      by (cases "sv_validate sv (od_input_model (ro_declaration op)) (case payload of None \<Rightarrow> [] | Some p \<Rightarrow> p)")
        (auto simp: dispatch_def run_call_def outcome_of_exception_def failed_outcome_def refused_outcome_def
          split: prod.splits py_exc.splits)
  qed
qed

section \<open>Concrete calls\<close>

definition sample_service :: "(nat, nat, nat, nat) service" where
  "sample_service = \<lparr>sv_verify = True, sv_validate = (\<lambda>_ _. Inr 3), sv_instance = (\<lambda>_ _. True), sv_class = (\<lambda>_. ''int''),
     sv_run = (\<lambda>h cx i. act_return (h + i))\<rparr>"

definition failing_service :: "(nat, nat, nat, nat) service" where
  "failing_service = sample_service\<lparr>sv_run := (\<lambda>h cx i. act_raise (RuntimeError ''password=hunter2''))\<rparr>"

lemma sample_authorized:
  "authorize sample_operations (Some sample_context) ''core.note.list'' = Inr (registered (sample_declaration, 1, core_origin))"
proof -
  have m: "ro_module_id (registered (sample_declaration, 1 :: nat, core_origin)) = core_module_id" by code_simp
  have "cx_operation_set sample_context = All_Operations" "cx_role sample_context = Role_Owner"
    by (simp_all add: sample_context_def)
  then show ?thesis using m
    by (simp add: authorize_Inr lookup_operation_def sample_operations_def)
      (simp add: registered_def sample_declaration_def default_roles_def)
qed

lemma sample_live:
  "get_workspace (cx_workspace_id sample_context) (cl_control active_cluster) = Some sample_workspace"
  "ws_state sample_workspace = Active" "database_name_ok (ws_database_name sample_workspace)"
  "map_of (cl_databases active_cluster) (ws_database_name sample_workspace) = Some empty_workspace_db"
proof -
  show "database_name_ok (ws_database_name sample_workspace)" by code_simp
qed (simp_all add: sample_context_def active_cluster_def sample_get_workspace sample_workspace_def)

lemma sample_dispatched:
  "fst (dispatch sample_service sample_operations (Some sample_context) ''core.note.list'' None active_cluster)
     = Inr \<lparr>oo_state = succeeded, oo_result = Some 4, oo_error = None\<rparr>"
  by code_simp

lemma dispatch_is_atomic_witness:
  "\<exists>out c' wd. dispatch sample_service sample_operations (Some sample_context) ''core.note.list'' None active_cluster
       = (Inr out, c') \<and> outcome_ok out \<and> cl_databases c' = dict_set ''rheo_ws_5'' wd (cl_databases active_cluster)"
proof -
  have s: "\<forall>h cx. disciplined (sv_run sample_service h cx)"
    by (simp add: disciplined_def sample_service_def act_return_def)
  obtain out c' where d: "dispatch sample_service sample_operations (Some sample_context) ''core.note.list'' None
      active_cluster = (Inr out, c')" and e: "oo_error out = None"
    using sample_dispatched by (metis outcome.select_convs(3) prod.collapse)
  have "ws_database_name sample_workspace = ''rheo_ws_5''" by (simp add: sample_workspace_def)
  then show ?thesis
    using dispatch_is_atomic [OF s d] d e sample_live(1) by fastforce
qed

lemma dispatch_contains_exceptions_witness:
  "\<exists>out c'. dispatch failing_service sample_operations (Some sample_context) ''core.note.list'' None active_cluster
       = (Inr out, c') \<and> oo_error out = Some \<lparr>oe_code = handler_failed, oe_text = ''RuntimeError''\<rparr>"
proof -
  let ?s = "live_call (ws_database_name sample_workspace) empty_workspace_db active_cluster"
  have run: "sv_run failing_service (ro_handler (registered (sample_declaration, 1, core_origin))) sample_context 3 ?s
      = (Inl (RuntimeError ''password=hunter2''), ?s)"
    by (simp add: failing_service_def act_raise_def)
  have val: "sv_validate failing_service m x = Inr 3" for m x
    by (simp add: failing_service_def sample_service_def)
  show ?thesis
    using dispatch_contains_exceptions [OF sample_live, of failing_service sample_operations "''core.note.list''" None]
      sample_authorized val run by fastforce
qed

end
