(* ===== verification/Core_Ops.thy ===== *)
theory Core_Ops
  imports Dispatch
begin

text \<open>
  \<open>rheo_core/operations/core_ops.py\<close>: the five core operations, their declarations, models
  and handlers, and their registration.

  The pydantic input models are the fields the registry reads; a validated input is a
  constructor of \<open>core_input\<close>. A handler only ever gets the input of its own declared model;
  another one is the \<open>AttributeError\<close> Python would raise.
\<close>

section \<open>Models\<close>

definition plain_field :: "string \<Rightarrow> model_field" where
  "plain_field name = \<lparr>mf_name = name, mf_alias = None, mf_validation_alias = None\<rparr>"

definition ignoring_extra :: "string list \<Rightarrow> input_model" where
  "ignoring_extra names = \<lparr>im_fields = map plain_field names, im_extra = Some ''ignore''\<rparr>"

definition core_models :: models where
  "core_models name =
     (if name = ''WorkspaceStatusInput'' then Some (ignoring_extra [])
      else if name = ''SettingWrite'' then Some (ignoring_extra [''key'', ''value''])
      else if name = ''TokenIssueInput''
        then Some (ignoring_extra [''kind'', ''set_name'', ''operations'', ''account_id'', ''purpose''])
      else if name = ''TokenRevokeInput'' then Some (ignoring_extra [''token_id''])
      else None)"

record module_status =
  mo_module_id :: string
  mo_package_version :: string
  mo_state :: string
  mo_schema_version :: "string option"

record workspace_status =
  wk_core_version :: string
  wk_core_contract_version :: int
  wk_modules :: "module_status list"

record setting_write =
  sw_key :: string
  sw_value :: pyval

record setting_written =
  sn_key :: string
  sn_value :: pyval
  sn_scope :: string

datatype core_input = In_Status | In_Setting setting_write | In_Issue token_issue_input | In_Revoke uuid

datatype core_output = Out_Status workspace_status | Out_Written setting_written | Out_Issued token_issued
  | Out_Revoked uuid

definition output_class :: "core_output \<Rightarrow> string" where
  "output_class out = (case out of Out_Status _ \<Rightarrow> ''WorkspaceStatus'' | Out_Written _ \<Rightarrow> ''SettingWritten''
     | Out_Issued _ \<Rightarrow> ''TokenIssued'' | Out_Revoked _ \<Rightarrow> ''TokenRevoked'')"

section \<open>Handlers\<close>

text \<open>\<open>uow.connection\<close>, then one statement.\<close>

definition uow_read :: "(workspace_db \<Rightarrow> 'a result) \<Rightarrow> (call_state, 'a) action" where
  "uow_read f s = (rbind (uow_view (cs_uow s)) f, s)"

definition uow_write :: "(workspace_db \<Rightarrow> workspace_db) \<Rightarrow> (call_state, unit) action" where
  "uow_write f s = (case uow_view (cs_uow s) of
       Inl e \<Rightarrow> (Inl e, s)
     | Inr wd \<Rightarrow> (Inr (), s\<lparr>cs_uow := (cs_uow s)\<lparr>uw_transaction := Some (f wd)\<rparr>\<rparr>))"

text \<open>A handler that works on the control plane in a transaction of its own.\<close>

definition on_cluster :: "(cluster, 'a) action \<Rightarrow> (call_state, 'a) action" where
  "on_cluster f s = (case f (cs_cluster s) of (r, c) \<Rightarrow> (r, s\<lparr>cs_cluster := c\<rparr>))"

definition composition_missing :: string where "composition_missing = ''composition_missing''"
definition actor_required :: string where "actor_required = ''actor_required''"

definition workspace_status_of :: "workspace_db \<Rightarrow> workspace_status result" where
  "workspace_status_of wd = (case read_composition wd of
       None \<Rightarrow> Inl (OperationRefused composition_missing
         (Some ''the workspace has no core.workspace_composition row''))
     | Some composition \<Rightarrow>
         let states = list_module_states wd;
             latest = foldl (\<lambda>d v. dict_set (mv_module_id v) (mv_schema_version v) d) []
               (list_module_schema_versions wd)
         in Inr \<lparr>wk_core_version = cp_core_version composition,
              wk_core_contract_version = cp_core_contract_version composition,
              wk_modules = map (\<lambda>st. \<lparr>mo_module_id = ms_module_id st, mo_package_version = ms_package_version st,
                mo_state = ms_state st, mo_schema_version = map_of latest (ms_module_id st)\<rparr>) states\<rparr>)"

definition validated :: "surroundings \<Rightarrow> string \<Rightarrow> pyval \<Rightarrow> scope \<Rightarrow> setting_accepted result" where
  "validated su key v sc =
     rbind (if lookup (su_registry su) key \<noteq> None
       then rbind (resolve (su_registry su) (su_layer su) None None None) (\<lambda>(vals, _). get_item vals key)
       else Inr PNone) (\<lambda>deployment_value.
     rbind (validate_override (su_registry su) key v deployment_value sc) (\<lambda>verdict.
     case verdict of
       Refused x \<Rightarrow> Inl (OperationRefused (sf_state x) (Some (sf_detail x)))
     | Accepted a \<Rightarrow> Inr a))"

definition settings_set :: "surroundings \<Rightarrow> workspace_context \<Rightarrow> setting_write \<Rightarrow> (call_state, setting_written) action" where
  "settings_set su ctx i =
     act_bind (lift_result (validated su (sw_key i) (sw_value i) Workspace)) (\<lambda>accepted.
     act_bind (uow_write (upsert_workspace_setting (su_now su) (sa_key accepted) (sa_encoded accepted)
       (sa_type accepted) (actor_id (cx_actor ctx)))) (\<lambda>_.
     act_return \<lparr>sn_key = sa_key accepted, sn_value = sw_value i, sn_scope = scope_value Workspace\<rparr>))"

definition settings_set_member :: "surroundings \<Rightarrow> workspace_context \<Rightarrow> setting_write
    \<Rightarrow> (call_state, setting_written) action" where
  "settings_set_member su ctx i =
     (case (actor_kind (cx_actor ctx), actor_id (cx_actor ctx)) of
        (Actor_Account, Some account_id) \<Rightarrow>
          act_bind (lift_result (validated su (sw_key i) (sw_value i) Member)) (\<lambda>accepted.
          act_bind (uow_write (upsert_member_setting (su_now su) account_id (sa_key accepted)
            (sa_encoded accepted) (sa_type accepted))) (\<lambda>_.
          act_return \<lparr>sn_key = sa_key accepted, sn_value = sw_value i, sn_scope = scope_value Member\<rparr>))
      | _ \<Rightarrow> act_raise (OperationRefused actor_required (Some
          (''core.settings.set_member writes the calling account's row; this ''
             @ ''context carries no account''))))"

datatype core_handler = H_Status | H_Settings_Set | H_Settings_Set_Member | H_Issue | H_Revoke

fun run_core :: "surroundings \<Rightarrow> core_handler operation_registry \<Rightarrow> uuid \<Rightarrow> bytes \<Rightarrow> core_handler
    \<Rightarrow> workspace_context \<Rightarrow> core_input \<Rightarrow> (call_state, core_output) action" where
  "run_core su reg new_id random H_Status ctx In_Status =
     act_bind (uow_read workspace_status_of) (\<lambda>x. act_return (Out_Status x))"
| "run_core su reg new_id random H_Settings_Set ctx (In_Setting i) =
     act_bind (settings_set su ctx i) (\<lambda>x. act_return (Out_Written x))"
| "run_core su reg new_id random H_Settings_Set_Member ctx (In_Setting i) =
     act_bind (settings_set_member su ctx i) (\<lambda>x. act_return (Out_Written x))"
| "run_core su reg new_id random H_Issue ctx (In_Issue i) =
     act_bind (on_cluster (issue_handler su reg new_id random ctx i)) (\<lambda>x. act_return (Out_Issued x))"
| "run_core su reg new_id random H_Revoke ctx (In_Revoke i) =
     act_bind (on_cluster (revoke_handler su ctx i)) (\<lambda>x. act_return (Out_Revoked x))"
| "run_core su reg new_id random h ctx i = act_raise (OtherException ''AttributeError'' ''input'')"

section \<open>Declarations and registration\<close>

definition workspace_status_declaration :: operation_declaration where
  "workspace_status_declaration = \<lparr>od_name = ''core.workspace.status'', od_safety_class = Safety_Read,
     od_roles = {Role_Owner, Role_Member, Role_Operator}, od_input_model = ''WorkspaceStatusInput'',
     od_output = ''WorkspaceStatus'', od_idempotency = Idem_None, od_audit = None\<rparr>"

definition settings_set_declaration :: operation_declaration where
  "settings_set_declaration = \<lparr>od_name = ''core.settings.set'', od_safety_class = Safety_Mutate,
     od_roles = {Role_Owner}, od_input_model = ''SettingWrite'', od_output = ''SettingWritten'',
     od_idempotency = Idem_Natural, od_audit = Some \<lparr>au_subject_field = None\<rparr>\<rparr>"

definition settings_set_member_declaration :: operation_declaration where
  "settings_set_member_declaration = \<lparr>od_name = ''core.settings.set_member'', od_safety_class = Safety_Mutate,
     od_roles = {Role_Owner, Role_Member}, od_input_model = ''SettingWrite'', od_output = ''SettingWritten'',
     od_idempotency = Idem_Natural, od_audit = Some \<lparr>au_subject_field = None\<rparr>\<rparr>"

definition token_declaration :: "string \<Rightarrow> string \<Rightarrow> string \<Rightarrow> operation_declaration" where
  "token_declaration name input_model out = \<lparr>od_name = name, od_safety_class = Safety_Mutate,
     od_roles = {Role_Owner, Role_Member, Role_Operator}, od_input_model = input_model, od_output = out,
     od_idempotency = Idem_None, od_audit = Some \<lparr>au_subject_field = None\<rparr>\<rparr>"

definition core_operations :: "(operation_declaration \<times> core_handler) list" where
  "core_operations = [(workspace_status_declaration, H_Status), (settings_set_declaration, H_Settings_Set),
     (settings_set_member_declaration, H_Settings_Set_Member)]"

definition token_operations :: "(operation_declaration \<times> core_handler) list" where
  "token_operations = [(token_declaration ''core.token.issue'' ''TokenIssueInput'' ''TokenIssued'', H_Issue),
     (token_declaration ''core.token.revoke'' ''TokenRevokeInput'' ''TokenRevoked'', H_Revoke)]"

definition register_core_operations :: "surroundings \<Rightarrow> core_handler operation_registry
    \<Rightarrow> core_handler operation_registry result" where
  "register_core_operations su reg =
     rfold (\<lambda>(decl, handler). add_operation su core_models (decl, handler, core_origin))
       (core_operations @ token_operations) reg"

definition core_service :: "bool \<Rightarrow> (string \<Rightarrow> (string \<times> 'v) list \<Rightarrow> validation_error list + core_input)
    \<Rightarrow> surroundings \<Rightarrow> core_handler operation_registry \<Rightarrow> uuid \<Rightarrow> bytes
    \<Rightarrow> (core_handler, 'v, core_input, core_output) service" where
  "core_service verify validate su reg new_id random = \<lparr>sv_verify = verify, sv_validate = validate,
     sv_instance = (\<lambda>out cls. output_class out = cls), sv_class = output_class,
     sv_run = run_core su reg new_id random\<rparr>"

section \<open>The table of core operations\<close>

definition core_table :: "core_handler operation_registry" where
  "core_table = map (\<lambda>(decl, handler). (od_name decl, registered (decl, handler, core_origin)))
     (core_operations @ token_operations)"

lemmas core_declarations = core_operations_def token_operations_def workspace_status_declaration_def
  settings_set_declaration_def settings_set_member_declaration_def token_declaration_def

definition core_names :: "string list" where
  "core_names = [''core.workspace.status'', ''core.settings.set'', ''core.settings.set_member'',
     ''core.token.issue'', ''core.token.revoke'']"

lemma core_name_facts:
  "n \<in> set core_names \<Longrightarrow> operation_name_ok n \<and> fst (partition_at (CHR ''.'') n) = core_module_id"
proof -
  have "list_all (\<lambda>n. operation_name_ok n \<and> fst (partition_at (CHR ''.'') n) = core_module_id) core_names"
    by code_simp
  then show "n \<in> set core_names \<Longrightarrow> operation_name_ok n \<and> fst (partition_at (CHR ''.'') n) = core_module_id"
    by (simp add: list_all_iff)
qed

lemma core_model_facts:
  "m \<in> set [''WorkspaceStatusInput'', ''SettingWrite'', ''TokenIssueInput'', ''TokenRevokeInput''] \<Longrightarrow>
     (case core_models m of None \<Rightarrow> False | Some im \<Rightarrow> reserved_input_fields im = [] \<and> im_extra im \<noteq> Some ''allow'')"
proof -
  have "list_all (\<lambda>m. case core_models m of None \<Rightarrow> False
      | Some im \<Rightarrow> reserved_input_fields im = [] \<and> im_extra im \<noteq> Some ''allow'')
    [''WorkspaceStatusInput'', ''SettingWrite'', ''TokenIssueInput'', ''TokenRevokeInput'']" by code_simp
  then show "m \<in> set [''WorkspaceStatusInput'', ''SettingWrite'', ''TokenIssueInput'', ''TokenRevokeInput''] \<Longrightarrow>
     (case core_models m of None \<Rightarrow> False | Some im \<Rightarrow> reserved_input_fields im = [] \<and> im_extra im \<noteq> Some ''allow'')"
    by (simp only: list_all_iff)
qed

lemma core_registrable:
  assumes "(decl, h) \<in> set (core_operations @ token_operations)"
  shows "registrable su core_models (decl, h, core_origin)"
proof -
  have n: "od_name decl \<in> set core_names"
    and m: "od_input_model decl \<in> set [''WorkspaceStatusInput'', ''SettingWrite'', ''TokenIssueInput'', ''TokenRevokeInput'']"
    using assms by (auto simp: core_declarations core_names_def)
  have "check_origin su core_origin core_module_id (od_name decl) = Inr ()"
    by (simp add: check_origin_def module_id_for_origin_def origin_module_ids_def check_origin_profile_def)
      (simp add: core_module_id_def)
  then show ?thesis using core_name_facts [OF n] core_model_facts [OF m]
    by (simp add: registrable_def split: option.splits)
qed

lemma core_registration: "register_core_operations su [] = Inr core_table"
proof -
  have "add_operation su core_models (d, h, core_origin) reg = Inr (reg @ [(od_name d, registered (d, h, core_origin))])"
    if "(d, h) \<in> set (core_operations @ token_operations)" "map_of reg (od_name d) = None" for d h reg
    using that(2) add_operation_eq [OF core_registrable [OF that(1)], of su reg] by simp
  then show ?thesis
    by (simp add: register_core_operations_def core_table_def core_declarations)
qed

text \<open>
  Registering the core operations always succeeds, on an empty registry and again on the
  result, which it leaves as it is; and over that table the package sets are these: nothing but
  reading the status is read-only or a default of agents, and the full set has the three
  operations that are not about tokens. No set has an operation a token may not carry.
\<close>

theorem core_operations_registered:
  "register_core_operations su [] = Inr core_table \<and> register_core_operations su core_table = Inr core_table
   \<and> map fst core_table = core_names
   \<and> read_only core_table = {''core.workspace.status''} \<and> agent_default core_table = {''core.workspace.status''}
   \<and> cli_full core_table = {''core.workspace.status'', ''core.settings.set'', ''core.settings.set_member''}
   \<and> (read_only core_table \<union> agent_default core_table \<union> cli_full core_table) \<inter> set non_token_issuable = {}"
proof -
  have again: "register_core_operations su core_table = Inr core_table"
    using core_registration [of su] operations_table.reg_all_idempotent
      [of su core_models "map (\<lambda>(d, h). (d, h, core_origin)) (core_operations @ token_operations)" "[]" core_table]
    unfolding register_core_operations_def rfold_map by (simp add: case_prod_unfold)
  have names: "map fst core_table = core_names"
    by (simp add: core_table_def core_declarations core_names_def)
  have r: "read_only core_table = {''core.workspace.status''}" by code_simp
  have a: "agent_default core_table = {''core.workspace.status''}" by code_simp
  have f: "cli_full core_table = {''core.workspace.status'', ''core.settings.set'', ''core.settings.set_member''}"
    by code_simp
  show ?thesis using core_registration again names unfolding r a f by (simp add: non_token_issuable_def)
qed

section \<open>The core handlers keep the discipline\<close>

lemma on_cluster_databases:
  assumes "\<And>r c'. f c = (r, c') \<Longrightarrow> cl_databases c' = cl_databases c" and "cs_cluster s = c"
    and "on_cluster f s = (r, s')"
  shows "cl_databases (cs_cluster s') = cl_databases (cs_cluster s) \<and> cs_uow s' = cs_uow s"
  using assms by (auto simp: on_cluster_def split: prod.splits)

lemma control_tx_databases: "control_tx f c = (r, c') \<Longrightarrow> cl_databases c' = cl_databases c"
  by (auto simp: control_tx_def split: sum.splits)

lemma lift_result_state [simp]: "snd (lift_result r c) = c"
  by (simp add: lift_result_def act_raise_def act_return_def split: sum.split)

lemma act_bind_snd: "snd (act_bind m f s) = (case fst (m s) of Inl e \<Rightarrow> snd (m s) | Inr x \<Rightarrow> snd (f x (snd (m s))))"
  by (simp add: act_bind_def split: prod.split sum.split)

lemma control_tx_snd [simp]: "cl_databases (snd (control_tx f c)) = cl_databases c"
  using control_tx_databases by (metis prod.collapse)

lemma issue_databases: "cl_databases (snd (issue_handler su reg n random ctx i c)) = cl_databases c"
  by (simp add: issue_handler_def act_bind_snd Let_def mint_def act_ensure_def act_return_def
      split: sum.split prod.split)

lemma revoke_databases: "cl_databases (snd (revoke_handler su ctx i c)) = cl_databases c"
  by (simp add: revoke_handler_def)

lemma uow_write_state: "uow_write f s = (r, s') \<Longrightarrow> cs_cluster s' = cs_cluster s \<and> uw_database (cs_uow s') = uw_database (cs_uow s)"
  by (auto simp: uow_write_def split: sum.splits)

text \<open>What a call left alone.\<close>

definition keeps :: "(call_state, 'a) action \<Rightarrow> bool" where
  "keeps f = (\<forall>s. cl_databases (cs_cluster (snd (f s))) = cl_databases (cs_cluster s)
     \<and> uw_database (cs_uow (snd (f s))) = uw_database (cs_uow s))"

lemma keeps_bind: "keeps f \<Longrightarrow> (\<And>x. keeps (g x)) \<Longrightarrow> keeps (act_bind f g)"
  by (simp add: keeps_def act_bind_snd split: sum.split)

lemma keeps_simple [simp]:
  "keeps (act_return x)" "keeps (act_raise e)" "keeps (lift_result r)" "keeps (uow_read q)" "keeps (uow_write w)"
  using uow_write_state [of w]
  by (auto simp: keeps_def act_return_def act_raise_def uow_read_def) (metis prod.collapse)+

lemma keeps_on_cluster: "(\<And>c. cl_databases (snd (f c)) = cl_databases c) \<Longrightarrow> keeps (on_cluster f)"
  by (simp add: keeps_def on_cluster_def split: prod.split) (metis snd_conv)

lemma run_core_keeps: "keeps (run_core su reg n random h ctx i)"
  by (cases h; cases i)
    (simp_all add: keeps_bind keeps_on_cluster issue_databases revoke_databases settings_set_def
      settings_set_member_def split: actor_kind.split option.split)

lemma core_disciplined: "disciplined (run_core su reg n random h ctx)"
  unfolding disciplined_def using run_core_keeps [unfolded keeps_def] by (metis snd_conv)

section \<open>Writing a workspace setting\<close>

lemma validate_override_value:
  "validate_override r k v d sc = Inr (Accepted a) \<Longrightarrow> sa_key a = k \<and> freeze_value v = Inr (sa_value a)"
  by (auto simp: validate_override_def refuse_def split: option.splits if_splits)

lemma validated_InrD:
  assumes "specs_ok (su_registry su)" and "su_layer su = deployment_layer (su_registry su) p files environ"
    and "deployment_layer (su_registry su) p files environ = Inr dep" and "lookup (su_registry su) k = Some s"
    and "validated su k v sc = Inr a"
  shows "validate_override (su_registry su) k v (thaw_value (base_value dep s)) sc = Inr (Accepted a)"
proof -
  have "layer_fits (su_registry su) dep" by (rule deployment_layer_fits [OF assms(1,3)])
  from base_layer(2) [OF assms(1) this assms(4)]
  have "rbind (resolve (su_registry su) (su_layer su) None None None) (\<lambda>(vals, _). get_item vals k)
      = Inr (thaw_value (base_value dep s))"
    using assms(2,3) by (simp add: resolve_def get_item_def)
  then obtain verdict where "validate_override (su_registry su) k v (thaw_value (base_value dep s)) sc = Inr verdict"
      "(case verdict of Refused x \<Rightarrow> Inl (OperationRefused (sf_state x) (Some (sf_detail x))) | Accepted a \<Rightarrow> Inr a) = Inr a"
    using assms(4,5) by (auto simp: validated_def)
  then show ?thesis by (cases verdict) auto
qed

lemma settings_set_run:
  assumes "run_core su reg n random H_Settings_Set cx i \<lparr>cs_cluster = c, cs_uow = u\<rparr> = (Inr out, s')"
    and "uw_connection u" and "uw_transaction u = Some wd"
  shows "\<exists>w a. i = In_Setting w \<and> validated su (sw_key w) (sw_value w) Workspace = Inr a
     \<and> s' = \<lparr>cs_cluster = c, cs_uow = u\<lparr>uw_transaction := Some (upsert_workspace_setting (su_now su) (sa_key a)
          (sa_encoded a) (sa_type a) (actor_id (cx_actor cx)) wd)\<rparr>\<rparr>"
  using assms
  by (cases i) (auto simp: settings_set_def act_bind_Inr uow_write_def uow_view_def act_return_def act_raise_def)

lemma lookup_settings_set:
  "map_of core_table ''core.settings.set'' = Some (registered (settings_set_declaration, H_Settings_Set, core_origin))"
  by (simp add: core_table_def core_declarations)

text \<open>A call that succeeded committed what its handler left in the unit of work.\<close>

lemma run_call_succeeds:
  assumes "run_call sv decl h cx i s = (out, s')" and "oo_error out = None"
  obtains res s1 wd u where "sv_run sv h cx i s = (Inr res, s1)" and "uow_commit (cs_uow s1) = Inr (wd, u)"
    and "s' = s1\<lparr>cs_cluster := (cs_cluster s1)\<lparr>cl_databases :=
           dict_set (uw_database u) wd (cl_databases (cs_cluster s1))\<rparr>, cs_uow := u\<rparr>"
  using assms by (auto simp: run_call_def failed_outcome_def commit_call_def split: prod.splits sum.splits if_splits)

lemma settings_set_dispatched:
  assumes "dispatch (core_service verify validate su reg new_id random) core_table (Some cx) ''core.settings.set''
           payload c = (Inr out, c')" and "oo_error out = None"
    and "validate ''SettingWrite'' (case payload of None \<Rightarrow> [] | Some q \<Rightarrow> q) = Inr (In_Setting w)"
  obtains row wd a where "cx_role cx = Role_Owner" and "get_workspace (cx_workspace_id cx) (cl_control c) = Some row"
    and "ws_state row = Active" and "check_database_name (ws_database_name row) = Inr (ws_database_name row)"
    and "map_of (cl_databases c) (ws_database_name row) = Some wd" and "validated su (sw_key w) (sw_value w) Workspace = Inr a"
    and "cl_control c' = cl_control c" and "map_of (cl_databases c') (ws_database_name row) =
      Some (upsert_workspace_setting (su_now su) (sa_key a) (sa_encoded a) (sa_type a) (actor_id (cx_actor cx)) wd)"
  using assms(1)
proof (cases rule: dispatch_cases)
  case stopped
  then show ?thesis using assms(2) by auto
next
  case (ran cx' op i u u' out' s')
  have cx: "cx' = cx" and out: "out' = out" and c': "c' = cs_cluster s'" using ran by simp_all
  have op: "op = registered (settings_set_declaration, H_Settings_Set, core_origin)"
    and role: "cx_role cx \<in> od_roles (ro_declaration op)"
    using ran(2) cx by (auto simp: authorize_Inr lookup_operation_def lookup_settings_set)
  have i: "i = In_Setting w"
    using ran(3) assms(3) op by (simp add: core_service_def registered_def settings_set_declaration_def)
  obtain row where row: "get_workspace (cx_workspace_id cx) (cl_control c) = Some row" "ws_state row = Active"
      "uw_database u = ws_database_name row" using open_call_InrD [OF ran(4)] cx by auto
  obtain wd where wd: "map_of (cl_databases c) (ws_database_name row) = Some wd" "uw_transaction u' = Some wd"
      "uw_connection u'" "uw_database u' = ws_database_name row"
    using enter_call_InrD [OF ran(5)] row(3) by auto
  have call: "run_call (core_service verify validate su reg new_id random) (ro_declaration op) H_Settings_Set cx i
      \<lparr>cs_cluster = c, cs_uow = u'\<rparr> = (out, s')"
    using ran(6) op cx out by (simp add: registered_def)
  obtain res s1 wd' u1 where sv: "sv_run (core_service verify validate su reg new_id random) H_Settings_Set cx i
        \<lparr>cs_cluster = c, cs_uow = u'\<rparr> = (Inr res, s1)" and commit: "uow_commit (cs_uow s1) = Inr (wd', u1)"
    and s': "s' = s1\<lparr>cs_cluster := (cs_cluster s1)\<lparr>cl_databases :=
           dict_set (uw_database u1) wd' (cl_databases (cs_cluster s1))\<rparr>, cs_uow := u1\<rparr>"
    by (rule run_call_succeeds [OF call assms(2)])
  have run: "run_core su reg new_id random H_Settings_Set cx i \<lparr>cs_cluster = c, cs_uow = u'\<rparr> = (Inr res, s1)"
    using sv by (simp add: core_service_def)
  obtain a where a: "validated su (sw_key w) (sw_value w) Workspace = Inr a"
    and s1: "s1 = \<lparr>cs_cluster = c, cs_uow = u'\<lparr>uw_transaction := Some (upsert_workspace_setting (su_now su) (sa_key a)
          (sa_encoded a) (sa_type a) (actor_id (cx_actor cx)) wd)\<rparr>\<rparr>"
    using settings_set_run [OF run wd(3,2)] i by auto
  have "check_database_name (ws_database_name row) = Inr (ws_database_name row)"
    using ran(4) cx row by (auto simp: open_call_def active_workspace_def check_database_name_def)
  then show ?thesis using that [OF _ row(1,2) _ wd(1) a] commit s' s1 c' wd(4) role op
    by (auto simp: uow_commit_def registered_def settings_set_declaration_def)
qed

text \<open>
  C8: only an owner writes a workspace setting, and what it writes takes effect. After a dispatch
  of \<open>core.settings.set\<close> that succeeded, for a value its text form can carry (\<open>text_safe\<close>: any
  value but a list with an item that is empty, has blanks around it or has a comma), the next
  resolution of that workspace's settings, through the rows in its database, gives the key the
  written value; for a list under a floor, a list of the same items.
\<close>

theorem workspace_setting_takes_effect:
  assumes "specs_ok (su_registry su)" and "su_layer su = deployment_layer (su_registry su) p files environ"
    and "deployment_layer (su_registry su) p files environ = Inr dep"
    and "dispatch (core_service verify validate su reg new_id random) core_table (Some cx) ''core.settings.set''
           payload c = (Inr out, c')" and "oo_error out = None"
    and "validate ''SettingWrite'' (case payload of None \<Rightarrow> [] | Some q \<Rightarrow> q) = Inr (In_Setting w)"
    and "lookup (su_registry su) (sw_key w) = Some s"
    and "\<And>x. freeze_value (sw_value w) = Inr x \<Longrightarrow> text_safe s x"
    and "list_all (\<lambda>(n, wd). settings_ok wd) (cl_databases c)"
  shows "cx_role cx = Role_Owner \<and> (\<exists>vals log v x.
     resolve (su_registry su) (su_layer su) (Some (cx_workspace_id cx)) None (Some (postgres_override_source c'))
       = Inr (vals, log) \<and> map_of vals (sw_key w) = Some v
     \<and> freeze_value (sw_value w) = Inr x \<and> same_value v x \<and> (ks_floor s = None \<longrightarrow> v = x))"
proof -
  obtain row wd a where role: "cx_role cx = Role_Owner"
    and row: "get_workspace (cx_workspace_id cx) (cl_control c) = Some row" "ws_state row = Active"
      "check_database_name (ws_database_name row) = Inr (ws_database_name row)"
    and wd: "map_of (cl_databases c) (ws_database_name row) = Some wd" and a: "validated su (sw_key w) (sw_value w) Workspace = Inr a"
    and cl: "cl_control c' = cl_control c" "map_of (cl_databases c') (ws_database_name row) =
      Some (upsert_workspace_setting (su_now su) (sa_key a) (sa_encoded a) (sa_type a) (actor_id (cx_actor cx)) wd)"
    by (rule settings_set_dispatched [OF assms(4-6)])
  let ?wd = "upsert_workspace_setting (su_now su) (sa_key a) (sa_encoded a) (sa_type a) (actor_id (cx_actor cx)) wd"
  have "settings_ok wd" using assms(9) map_of_SomeD [OF wd] by (auto simp: list_all_iff)
  then have distinct: "distinct (map fst (workspace_settings ?wd))"
    by (intro distinct_workspace_settings upsert_workspace_setting_ok)
  note v = validated_InrD [OF assms(1,2,3,7) a]
  have key: "sa_key a = sw_key w" "freeze_value (sw_value w) = Inr (sa_value a)"
    using validate_override_value [OF v] by auto
  have stored: "map_of (workspace_settings ?wd) (sw_key w) = Some (sa_encoded a)"
    by (simp add: workspace_settings_upsert key)
  have rows: "os_workspace (postgres_override_source c') (cx_workspace_id cx) = Inr (workspace_settings ?wd)"
    using row cl by (simp add: postgres_override_source_def workspace_read_def active_workspace_def)
  show ?thesis
    using stored_override_resolves [OF assms(1,3,7) v assms(8) [OF key(2)] distinct stored rows] role assms(2) key(2)
    by auto
qed

text \<open>
  C10: a token cannot make more tokens, approve or grant. Whatever registry a call meets, a
  context that came from a token is never authorized for one of the six operations that no
  token may carry, and dispatching one of them changes nothing.
\<close>

theorem token_cannot_reach_issuing:
  assumes "context_from_token su rid v surface c0 = (Inr (Inr cx), c1)" and "name \<in> set non_token_issuable"
  shows "\<exists>r. authorize reg (Some cx) name = Inl r \<and> rf_state r \<in> {operation_unknown, operation_not_permitted}
     \<and> dispatch sv reg (Some cx) name payload c1 = (Inr (refused_outcome (rf_state r) (rf_detail r)), c1)"
proof -
  from assms(1) obtain t db where t: "resolve_token su v surface (cl_control c0) = Inr (Inr t, db)"
    and cx: "cx_operation_set cx = Operations (rt_operation_set t)"
    by (rule context_from_token_InrD) simp
  have "name \<notin> rt_operation_set t" using resolve_token_Inr [OF t] assms(2) by blast
  then have "\<exists>r. authorize reg (Some cx) name = Inl r \<and> rf_state r \<in> {operation_unknown, operation_not_permitted}"
    using cx by (auto simp: authorize_def refuse_with_def split: option.splits)
  then show ?thesis by (auto simp: dispatch_def)
qed

section \<open>Concrete calls\<close>

definition setting_surroundings :: surroundings where
  "setting_surroundings = sample_surroundings\<lparr>su_layer := deployment_layer sample_registry (Inr ''/d'') sample_files []\<rparr>"

definition setting_payload :: "string \<Rightarrow> (string \<times> nat) list \<Rightarrow> validation_error list + core_input" where
  "setting_payload m p = Inr (In_Setting \<lparr>sw_key = ''a.max'', sw_value = PInt 7\<rparr>)"

definition setting_dispatch :: "core_output outcome result \<times> cluster" where
  "setting_dispatch = dispatch (core_service True setting_payload setting_surroundings core_table 1 [])
     core_table (Some sample_context) ''core.settings.set'' None active_cluster"

lemma setting_dispatched:
  "fst setting_dispatch = Inr \<lparr>oo_state = succeeded, oo_result = Some (Out_Written \<lparr>sn_key = ''a.max'',
     sn_value = PInt 7, sn_scope = ''workspace''\<rparr>), oo_error = None\<rparr>"
  by code_simp

lemma workspace_setting_takes_effect_witness:
  "\<exists>vals log v. resolve sample_registry (su_layer setting_surroundings) (Some 5) None
       (Some (postgres_override_source (snd setting_dispatch))) = Inr (vals, log)
     \<and> map_of vals ''a.max'' = Some v \<and> same_value v (PInt 7)"
proof -
  have su: "su_registry setting_surroundings = sample_registry"
    "su_layer setting_surroundings = deployment_layer sample_registry (Inr ''/d'') sample_files []"
    by (simp_all add: setting_surroundings_def sample_surroundings_def)
  obtain out c' where d: "setting_dispatch = (Inr out, c')" and e: "oo_error out = None"
    using setting_dispatched by (metis outcome.select_convs(3) prod.collapse)
  have v: "setting_payload ''SettingWrite'' (case None of None \<Rightarrow> [] | Some q \<Rightarrow> q)
      = Inr (In_Setting \<lparr>sw_key = ''a.max'', sw_value = PInt 7\<rparr>)" by (simp add: setting_payload_def)
  have f: "freeze_value (PInt 7) = Inr x \<Longrightarrow> text_safe sample_key x" for x
    using sample_safe by (simp add: freeze_value_def)
  have ok: "list_all (\<lambda>(n, wd). settings_ok wd) (cl_databases active_cluster)"
    by (simp add: active_cluster_def settings_ok_def empty_workspace_db_def)
  have w: "cx_workspace_id sample_context = 5" by (simp add: sample_context_def)
  show ?thesis
    using workspace_setting_takes_effect [of setting_surroundings "Inr ''/d''" sample_files "[]" _ True
        setting_payload core_table 1 "[]" sample_context None active_cluster out c'
        "\<lparr>sw_key = ''a.max'', sw_value = PInt 7\<rparr>" sample_key,
        unfolded su, OF sample_registry_ok(2) refl sample_layer d [unfolded setting_dispatch_def] e v _ _ ok]
      sample_lookup f w su(2) by (auto simp: d freeze_value_def)
qed

lemma token_cannot_reach_issuing_witness:
  "\<exists>cx c1. context_from_token mcp_surroundings 1 mcp_text ''mcp'' active_cluster = (Inr (Inr cx), c1)
     \<and> (\<exists>r. authorize core_table (Some cx) ''core.token.issue'' = Inl r
          \<and> rf_state r \<in> {operation_unknown, operation_not_permitted})"
proof -
  have "(case fst (context_from_token mcp_surroundings 1 mcp_text ''mcp'' active_cluster) of
      Inr (Inr cx) \<Rightarrow> True | _ \<Rightarrow> False)" by code_simp
  then obtain cx c1 where c: "context_from_token mcp_surroundings 1 mcp_text ''mcp'' active_cluster = (Inr (Inr cx), c1)"
    by (cases "context_from_token mcp_surroundings 1 mcp_text ''mcp'' active_cluster") (auto split: sum.splits)
  have "''core.token.issue'' \<in> set non_token_issuable" by (simp add: non_token_issuable_def)
  from token_cannot_reach_issuing [OF c this] show ?thesis using c by blast
qed

end
