(* ===== verification/Urls.thy ===== *)
theory Urls
  imports Token_Format
begin

text \<open>
  The text of requests: the parts of \<open>urllib.parse\<close> the routes of \<open>apps/core\<close> call
  (\<open>urlsplit\<close> and its \<open>hostname\<close>, \<open>quote\<close>, \<open>unquote\<close>, \<open>urlencode\<close>), \<open>bytes.hex\<close> and
  \<open>bytes.fromhex\<close>, and the two functions of \<open>auth_routes.py\<close> that cut a host and a path
  out of a URL.

  A string is a list of Latin-1 characters, which is what a header is. Percent-decoding can
  leave Latin-1; what \<open>unquote\<close> returns then is the parameter \<open>wide\<close>.
\<close>

section \<open>UTF-8 and percent-encoding\<close>

definition utf8_char :: "char \<Rightarrow> bytes" where
  "utf8_char c = (let n = (of_char c :: nat) in
     if n < 128 then [of_nat n] else [of_nat (192 + n div 64), of_nat (128 + n mod 64)])"

definition utf8 :: "string \<Rightarrow> bytes" where
  "utf8 s = concat (map utf8_char s)"

text \<open>\<open>None\<close> when the bytes are not the encoding of Latin-1 text.\<close>

fun utf8_latin :: "bytes \<Rightarrow> string option" where
  "utf8_latin [] = Some []"
| "utf8_latin (b # bs) =
     (if unat b < 128 then map_option (Cons (char_of (unat b))) (utf8_latin bs)
      else (case bs of
          [] \<Rightarrow> None
        | b' # rest \<Rightarrow>
            if unat b \<in> {194, 195} \<and> 128 \<le> unat b' \<and> unat b' \<le> 191
            then map_option (Cons (char_of ((unat b - 192) * 64 + (unat b' - 128)))) (utf8_latin rest)
            else None))"

definition upper_hex :: "nat \<Rightarrow> char" where
  "upper_hex d = (if d < 10 then char_of (48 + d) else char_of (55 + d))"

definition unreserved :: "char \<Rightarrow> bool" where
  "unreserved c = (is_upper c \<or> is_lower c \<or> is_digit c \<or> c \<in> set ''_.-~'')"

definition quote_byte :: "byte \<Rightarrow> string" where
  "quote_byte b = (let c = char_of (unat b) in
     if unreserved c then [c] else [CHR ''%'', upper_hex (unat b div 16), upper_hex (unat b mod 16)])"

definition quote :: "string \<Rightarrow> string" where
  "quote s = concat (map quote_byte (utf8 s))"

definition quote_plus :: "string \<Rightarrow> string" where
  "quote_plus s = concat (map (\<lambda>b. if b = 32 then ''+'' else quote_byte b) (utf8 s))"

definition urlencode :: "(string \<times> string) list \<Rightarrow> string" where
  "urlencode kvs = join_with ''&'' (map (\<lambda>(k, v). quote_plus k @ ''='' @ quote_plus v) kvs)"

fun percent_bytes :: "string \<Rightarrow> bytes" where
  "percent_bytes (c # d # e # cs) =
     (if c = CHR ''%'' then (case (digit_value 16 d, digit_value 16 e) of
          (Some x, Some y) \<Rightarrow> of_nat (16 * x + y) # percent_bytes cs
        | _ \<Rightarrow> char_byte c # percent_bytes (d # e # cs))
      else char_byte c # percent_bytes (d # e # cs))"
| "percent_bytes s = map char_byte s"

definition is_ascii :: "char \<Rightarrow> bool" where
  "is_ascii c = ((of_char c :: nat) < 128)"

text \<open>Each run of ASCII characters is percent-decoded and read as UTF-8 by itself.\<close>

function unquote_runs :: "string \<Rightarrow> string option" where
  "unquote_runs [] = Some []"
| "unquote_runs (c # cs) =
     (if is_ascii c then (case utf8_latin (percent_bytes (takeWhile is_ascii (c # cs))) of
          None \<Rightarrow> None
        | Some t \<Rightarrow> map_option ((@) t) (unquote_runs (dropWhile is_ascii (c # cs))))
      else map_option (Cons c) (unquote_runs cs))"
  by pat_completeness auto
termination
  by (relation "measure length") (auto simp: le_imp_less_Suc length_dropWhile_le)

definition unquote :: "(string \<Rightarrow> string) \<Rightarrow> string \<Rightarrow> string" where
  "unquote wide s = (case unquote_runs s of Some t \<Rightarrow> t | None \<Rightarrow> wide s)"

section \<open>Splitting a URL\<close>

definition octet_ok :: "string \<Rightarrow> bool" where
  "octet_ok s = (s \<noteq> [] \<and> list_all is_digit s \<and> length s \<le> 3 \<and> (s = ''0'' \<or> hd s \<noteq> CHR ''0'')
     \<and> (case py_int 10 s of None \<Rightarrow> False | Some n \<Rightarrow> n \<le> 255))"

definition ipv4_ok :: "string \<Rightarrow> bool" where
  "ipv4_ok s = (let octets = split_on (CHR ''.'') s in length octets = 4 \<and> list_all octet_ok octets)"

definition hextet_ok :: "string \<Rightarrow> bool" where
  "hextet_ok s = (s \<noteq> [] \<and> length s \<le> 4 \<and> list_all (\<lambda>c. digit_value 16 c \<noteq> None) s)"

definition ipv6_parts_ok :: "string list \<Rightarrow> bool" where
  "ipv6_parts_ok parts =
     (length parts \<le> 9
      \<and> (case filter (\<lambda>i. parts ! i = []) [1..<length parts - 1] of
           [] \<Rightarrow> length parts = 8 \<and> list_all hextet_ok parts
         | [skip] \<Rightarrow>
             (let hi = (if hd parts = [] then skip - 1 else skip);
                  lo = (if last parts = [] then length parts - skip - 2 else length parts - skip - 1)
              in (hd parts = [] \<longrightarrow> hi = 0) \<and> (last parts = [] \<longrightarrow> lo = 0) \<and> hi + lo < 8
                 \<and> list_all hextet_ok (take hi parts)
                 \<and> list_all hextet_ok (drop (length parts - lo) parts))
         | _ \<Rightarrow> False))"

definition ipv6_ok :: "string \<Rightarrow> bool" where
  "ipv6_ok s = (case partition_at (CHR ''%'') s of (address, percent, scope) \<Rightarrow>
     CHR ''/'' \<notin> set s \<and> (percent = [] \<or> (scope \<noteq> [] \<and> CHR ''%'' \<notin> set scope)) \<and>
     (let parts = split_on (CHR '':'') address in
      3 \<le> length parts \<and>
      (if CHR ''.'' \<in> set (last parts) then ipv4_ok (last parts) \<and> ipv6_parts_ok (butlast parts @ [''0'', ''0''])
       else ipv6_parts_ok parts)))"

definition bracketed_host_ok :: "string \<Rightarrow> bool" where
  "bracketed_host_ok h =
     (if startswith h ''v'' then
        (let version = takeWhile (\<lambda>c. digit_value 16 c \<noteq> None) (tl h); rest = drop (length version + 1) h
         in version \<noteq> [] \<and> startswith rest ''.'' \<and> 2 \<le> length rest)
      else ipv6_ok h)"

text \<open>\<open>netloc.rpartition("@")[2]\<close>, and the host in front of the port.\<close>

definition host_info :: "string \<Rightarrow> string" where
  "host_info netloc = rev (takeWhile (\<lambda>c. c \<noteq> CHR ''@'') (rev netloc))"

definition netloc_ok :: "string \<Rightarrow> bool" where
  "netloc_ok netloc =
     ((CHR ''['' \<in> set netloc \<longleftrightarrow> CHR '']'' \<in> set netloc) \<and>
      (CHR ''['' \<in> set netloc \<longrightarrow>
        (case partition_at (CHR ''['') (host_info netloc) of (lead, bracket, bracketed) \<Rightarrow>
           if bracket \<noteq> [] then
             (case partition_at (CHR '']'') bracketed of (host, _, port) \<Rightarrow>
                lead = [] \<and> (port = [] \<or> startswith port '':'') \<and> bracketed_host_ok host)
           else bracketed_host_ok (fst (partition_at (CHR '':'') (host_info netloc))))))"

definition scheme_char :: "char \<Rightarrow> bool" where
  "scheme_char c = (is_upper c \<or> is_lower c \<or> is_digit c \<or> c \<in> set ''+-.'')"

definition drop_scheme :: "string \<Rightarrow> string" where
  "drop_scheme url = (case partition_at (CHR '':'') url of (scheme, colon, rest) \<Rightarrow>
     if colon \<noteq> [] \<and> scheme \<noteq> [] \<and> (is_upper (hd scheme) \<or> is_lower (hd scheme)) \<and> list_all scheme_char scheme
     then rest else url)"

record split_url =
  us_netloc :: string
  us_path :: string
  us_query :: string

definition url_junk :: "char \<Rightarrow> bool" where
  "url_junk c = (let n = (of_char c :: nat) in n = 9 \<or> n = 10 \<or> n = 13)"

definition clean_url :: "string \<Rightarrow> string" where
  "clean_url text = filter (\<lambda>c. \<not> url_junk c)
     (dropWhile (\<lambda>c. (of_char c :: nat) \<le> 32) text)"

definition split_netloc :: "string \<Rightarrow> string \<times> string" where
  "split_netloc rest = (if startswith rest ''//''
     then (takeWhile (\<lambda>c. c \<notin> set ''/?#'') (drop 2 rest), dropWhile (\<lambda>c. c \<notin> set ''/?#'') (drop 2 rest))
     else ([], rest))"

definition urlsplit :: "string \<Rightarrow> split_url result" where
  "urlsplit text =
     (let (netloc, tail) = split_netloc (drop_scheme (clean_url text));
          (path, _, query) = partition_at (CHR ''?'') (fst (partition_at (CHR ''#'') tail))
      in ensure (netloc_ok netloc) (ValueError ''Invalid IPv6 URL'')
           (Inr \<lparr>us_netloc = netloc, us_path = path, us_query = query\<rparr>))"

text \<open>\<open>SplitResult.hostname or ""\<close>.\<close>

definition hostname :: "split_url \<Rightarrow> string" where
  "hostname u =
     (case partition_at (CHR ''['') (host_info (us_netloc u)) of (_, bracket, bracketed) \<Rightarrow>
        (let host = (if bracket \<noteq> [] then fst (partition_at (CHR '']'') bracketed)
                     else fst (partition_at (CHR '':'') (host_info (us_netloc u))))
         in case partition_at (CHR ''%'') host of (name, percent, zone) \<Rightarrow> lower name @ percent @ zone))"

section \<open>The helpers of the routes\<close>

text \<open>\<open>host.rsplit(":", 1)[0].strip().lower()\<close>.\<close>

definition before_last_colon :: "string \<Rightarrow> string" where
  "before_last_colon s = (if CHR '':'' \<in> set s
     then rev (tl (dropWhile (\<lambda>c. c \<noteq> CHR '':'') (rev s))) else s)"

definition normalize_host :: "string \<Rightarrow> string" where
  "normalize_host host = lower (strip (before_last_colon host))"

definition return_host :: "string \<Rightarrow> string result" where
  "return_host return_target = rbind (urlsplit return_target) (\<lambda>u. Inr (normalize_host (hostname u)))"

definition path_and_query :: "string \<Rightarrow> string result" where
  "path_and_query url = rbind (urlsplit url) (\<lambda>parts.
     let tail = (if us_path parts = [] then ''/'' else us_path parts) in
     Inr (if us_query parts = [] then tail else tail @ ''?'' @ us_query parts))"

section \<open>Hexadecimal bytes\<close>

definition bytes_hex :: "bytes \<Rightarrow> string" where
  "bytes_hex bs = concat (map (\<lambda>b. hex2 (unat b)) bs)"

definition hex_space :: "char \<Rightarrow> bool" where
  "hex_space c = (let n = (of_char c :: nat) in n = 32 \<or> (9 \<le> n \<and> n \<le> 13))"

fun bytes_fromhex :: "string \<Rightarrow> bytes option" where
  "bytes_fromhex [] = Some []"
| "bytes_fromhex (c # cs) =
     (if hex_space c then bytes_fromhex cs
      else (case cs of
          [] \<Rightarrow> None
        | d # ds \<Rightarrow> (case (digit_value 16 c, digit_value 16 d) of
            (Some x, Some y) \<Rightarrow> map_option (Cons (of_nat (16 * x + y))) (bytes_fromhex ds)
          | _ \<Rightarrow> None)))"

section \<open>Round trips\<close>

lemma utf8_simps [simp]: "utf8 [] = []" "utf8 (c # cs) = utf8_char c @ utf8 cs"
  by (simp_all add: utf8_def)

lemma unat_small_byte: "n < 256 \<Longrightarrow> unat (of_nat n :: byte) = n"
  by (simp add: unat_of_nat)

lemma utf8_latin_char: "utf8_latin (utf8_char c @ bs) = map_option (Cons c) (utf8_latin bs)"
proof -
  define n where "n = (of_char c :: nat)"
  have n: "n < 256" by (simp add: n_def)
  have c: "char_of n = c" by (simp add: n_def)
  show ?thesis
  proof (cases "n < 128")
    case True
    then show ?thesis using c by (simp add: utf8_char_def Let_def unat_small_byte flip: n_def)
  next
    case False
    define h l where "h = n div 64" and "l = n mod 64"
    have hl: "(h = 2 \<or> h = 3) \<and> l < 64 \<and> h * 64 + l = n"
      using n False by (auto simp: h_def l_def)
    have u: "unat (of_nat (192 + h) :: byte) = 192 + h" "unat (of_nat (128 + l) :: byte) = 128 + l"
      by (rule unat_small_byte, use hl in linarith)+
    have e: "utf8_char c = [of_nat (192 + h), of_nat (128 + l)]"
      using False by (simp add: utf8_char_def Let_def h_def l_def flip: n_def)
    show ?thesis using hl u c by (auto simp: e simp del: of_nat_add)
  qed
qed

lemma utf8_latin_utf8 [simp]: "utf8_latin (utf8 s) = Some s"
  by (induction s) (simp_all add: utf8_latin_char)

lemma upper_hex_value [simp]: "d < 16 \<Longrightarrow> digit_value 16 (upper_hex d) = Some d"
  by (simp add: upper_hex_def digit_value_def)

lemma byte_nibbles: "of_nat (16 * (unat (b :: byte) div 16) + unat b mod 16) = b"
  by simp

lemma percent_bytes_plain: "c \<noteq> CHR ''%'' \<Longrightarrow> percent_bytes (c # s) = char_byte c # percent_bytes s"
  by (cases s; cases "tl s") auto

lemma percent_bytes_quote: "percent_bytes (quote_byte b @ s) = b # percent_bytes s"
proof (cases "unreserved (char_of (unat b))")
  case True
  have "unat b < 256" using byte_less [of b] by simp
  then have "char_byte (char_of (unat b)) = b" by (simp add: char_byte_def)
  moreover have "char_of (unat b) \<noteq> CHR ''%''"
    using True by (auto simp: unreserved_def is_upper_def is_lower_def is_digit_def)
  ultimately show ?thesis using True by (simp add: quote_byte_def Let_def percent_bytes_plain)
next
  case False
  have "unat b div 16 < 16" using byte_less [of b] by simp
  then show ?thesis using False by (simp add: quote_byte_def Let_def byte_nibbles)
qed

lemma percent_bytes_quotes: "percent_bytes (concat (map quote_byte bs)) = bs"
  by (induction bs) (simp_all add: percent_bytes_quote)

definition is_percent_text :: "string \<Rightarrow> bool" where
  "is_percent_text s = list_all (\<lambda>c. unreserved c \<or> c = CHR ''%'') s"

lemma unreserved_ascii: "unreserved c \<Longrightarrow> is_ascii c \<and> c \<noteq> CHR '';'' \<and> c \<noteq> CHR '','' \<and> \<not> is_space c"
  by (auto simp: unreserved_def is_ascii_def is_upper_def is_lower_def is_digit_def is_space_def less_eq_char_def Let_def)

lemma upper_hex_unreserved: "d < 16 \<Longrightarrow> unreserved (upper_hex d)"
  by (simp add: unreserved_def upper_hex_def is_upper_def is_digit_def less_eq_char_def)

lemma quote_byte_text: "c \<in> set (quote_byte b) \<Longrightarrow> unreserved c \<or> c = CHR ''%''"
  using byte_less [of b] by (auto simp: quote_byte_def Let_def upper_hex_unreserved split: if_splits)

lemma quote_text: "c \<in> set (quote s) \<Longrightarrow> is_ascii c \<and> c \<noteq> CHR '';'' \<and> c \<noteq> CHR '','' \<and> \<not> is_space c"
  using quote_byte_text unreserved_ascii by (fastforce simp: quote_def is_ascii_def is_space_def)

lemma unquote_ascii: "list_all is_ascii s \<Longrightarrow> unquote_runs s = utf8_latin (percent_bytes s)"
proof (cases s)
  case (Cons c cs)
  assume a: "list_all is_ascii s"
  then have t: "takeWhile is_ascii (c # cs) = c # cs" and d: "dropWhile is_ascii (c # cs) = []"
    using Cons by (simp_all only: list_all_iff takeWhile_eq_all_conv dropWhile_eq_Nil_conv)
  have "is_ascii c" using Cons a by simp
  then show ?thesis unfolding Cons unquote_runs.simps(2) [of c cs] t d by (simp split: option.split)
qed simp

lemma unquote_quote [simp]: "unquote wide (quote s) = s"
proof -
  have "unquote_runs (quote s) = Some s"
    using quote_text by (simp add: unquote_ascii list_all_iff) (simp add: quote_def percent_bytes_quotes)
  then show ?thesis by (simp add: unquote_def)
qed

lemma hex2_eq: "n < 256 \<Longrightarrow> hex2 n = [digit_char (n div 16), digit_char (n mod 16)]"
  by (simp add: hex2_def numeral_2_eq_2)

lemma digit_char_not_space: "d < 16 \<Longrightarrow> \<not> hex_space (digit_char d)"
  by (simp add: hex_space_def of_char_digit_char)

lemma bytes_fromhex_hex [simp]: "bytes_fromhex (bytes_hex bs) = Some bs"
proof (induction bs)
  case (Cons b bs)
  have "unat b div 16 < 16" using byte_less [of b] by simp
  then show ?case using Cons byte_less [of b]
    by (simp add: bytes_hex_def hex2_eq digit_char_not_space byte_nibbles)
qed (simp add: bytes_hex_def)

end
