(* ===== verification/Routing.thy ===== *)
theory Routing
  imports Urls
begin

text \<open>
  \<open>rheo_core/routing/\<close>: the topology object built from the sixteen \<open>routing.*\<close> settings
  (\<open>config.py\<close>) and the functions that name every URL from it (\<open>url_for.py\<close>).

  The theorems relate the two directions: a URL that \<open>url_for\<close> prints for the shell or the
  identity surface is split back into a host that \<open>is_application_host\<close> accepts, provided the
  operator's scheme and host names are plain ones (\<open>plain_host\<close>).
\<close>

section \<open>The configuration\<close>

datatype routing_mode = Path_Mode | Subdomain_Mode

definition routing_mode_value :: "routing_mode \<Rightarrow> string" where
  "routing_mode_value m = (case m of Path_Mode \<Rightarrow> ''path'' | Subdomain_Mode \<Rightarrow> ''subdomain'')"

definition routing_mode_of :: "string \<Rightarrow> routing_mode result" where
  "routing_mode_of s = (case find (\<lambda>m. routing_mode_value m = s) [Path_Mode, Subdomain_Mode] of
     Some m \<Rightarrow> Inr m | None \<Rightarrow> Inl (ValueError (py_repr s @ '' is not a valid RoutingMode'')))"

definition shell :: string where "shell = ''shell''"
definition identity :: string where "identity = ''identity''"
definition api :: string where "api = ''api''"
definition mcp :: string where "mcp = ''mcp''"
definition docs :: string where "docs = ''docs''"
definition integration :: string where "integration = ''integration''"

lemmas surface_names = shell_def identity_def api_def mcp_def docs_def integration_def

definition surface_key :: "string \<Rightarrow> string \<Rightarrow> string" where
  "surface_key surface field = ''routing.'' @ surface @ ''.'' @ field"

record surface_config =
  sf_host :: string
  sf_path :: string
  sf_external :: bool
  sf_reserved :: bool
  sf_fixed_path :: bool

record surfaces =
  sv_shell :: surface_config
  sv_identity :: surface_config
  sv_api :: surface_config
  sv_mcp :: surface_config
  sv_docs :: surface_config
  sv_integration :: surface_config
  sv_modules :: "(string \<times> surface_config) list"

definition named :: "surfaces \<Rightarrow> (string \<times> surface_config) list" where
  "named s = [(shell, sv_shell s), (identity, sv_identity s), (api, sv_api s), (mcp, sv_mcp s),
     (docs, sv_docs s), (integration, sv_integration s)]"

definition get_surface :: "surfaces \<Rightarrow> string \<Rightarrow> surface_config option" where
  "get_surface s name = (case map_of (named s) name of
     Some surface \<Rightarrow> Some surface | None \<Rightarrow> map_of (sv_modules s) name)"

record routing_config =
  rc_mode :: routing_mode
  rc_scheme :: string
  rc_base_host :: string
  rc_surfaces :: surfaces

text \<open>A surface with a host and a path key, and one that this application never links to.\<close>

definition served_surface :: "settings_registry \<Rightarrow> (string \<times> pyval) list \<Rightarrow> string \<Rightarrow> bool
    \<Rightarrow> surface_config result" where
  "served_surface r vals name fixed =
     rbind (get_str r vals (surface_key name ''host'')) (\<lambda>host.
     rbind (get_str r vals (surface_key name ''path'')) (\<lambda>path.
     Inr \<lparr>sf_host = host, sf_path = path, sf_external = False, sf_reserved = False, sf_fixed_path = fixed\<rparr>))"

definition unlinked_surface :: "settings_registry \<Rightarrow> (string \<times> pyval) list \<Rightarrow> string \<Rightarrow> bool
    \<Rightarrow> surface_config result" where
  "unlinked_surface r vals name may_reserve =
     rbind (get_str r vals (surface_key name ''host'')) (\<lambda>host.
     rbind (get_bool r vals (surface_key name ''external'')) (\<lambda>external.
     rbind (if may_reserve then get_bool r vals (surface_key name ''reserved'') else Inr False) (\<lambda>reserved.
     Inr \<lparr>sf_host = host, sf_path = [], sf_external = external, sf_reserved = reserved, sf_fixed_path = False\<rparr>)))"

definition from_settings :: "settings_registry \<Rightarrow> (string \<times> pyval) list \<Rightarrow> routing_config result" where
  "from_settings r vals =
     rbind (rbind (get_str r vals ''routing.mode'') routing_mode_of) (\<lambda>mode.
     rbind (get_str r vals ''routing.scheme'') (\<lambda>scheme.
     rbind (get_str r vals ''routing.base_host'') (\<lambda>base_host.
     rbind (served_surface r vals shell False) (\<lambda>s1.
     rbind (served_surface r vals identity True) (\<lambda>s2.
     rbind (served_surface r vals api False) (\<lambda>s3.
     rbind (served_surface r vals mcp False) (\<lambda>s4.
     rbind (unlinked_surface r vals docs False) (\<lambda>s5.
     rbind (unlinked_surface r vals integration True) (\<lambda>s6.
     Inr \<lparr>rc_mode = mode, rc_scheme = scheme, rc_base_host = base_host,
          rc_surfaces = \<lparr>sv_shell = s1, sv_identity = s2, sv_api = s3, sv_mcp = s4, sv_docs = s5,
            sv_integration = s6, sv_modules = []\<rparr>\<rparr>)))))))))"

text \<open>\<open>_routing_config()\<close> of the routes: resolved afresh on every request.\<close>

definition current_routing :: "surroundings \<Rightarrow> routing_config result" where
  "current_routing su =
     rbind (resolve (su_registry su) (su_layer su) None None None) (\<lambda>(vals, _).
     from_settings (su_registry su) vals)"

section \<open>Naming URLs\<close>

definition join_prefix :: "string \<Rightarrow> string \<Rightarrow> string" where
  "join_prefix pre path =
     (let p = (if startswith path ''/'' then path else ''/'' @ path)
      in if pre \<in> {'''', ''/''} then p else pre @ p)"

definition url_for :: "routing_config \<Rightarrow> string \<Rightarrow> string \<Rightarrow> string result" where
  "url_for config surface path = (case get_surface (rc_surfaces config) surface of
       None \<Rightarrow> Inl (ValueError (''unknown routing surface '' @ py_repr surface))
     | Some spec \<Rightarrow>
         ensure (\<not> (sf_external spec \<or> sf_reserved spec))
           (ValueError (''routing surface '' @ py_repr surface @ '' is not served by this application''))
         (case rc_mode config of
            Path_Mode \<Rightarrow> Inr (rc_scheme config @ ''://'' @ rc_base_host config @ join_prefix (sf_path spec) path)
          | Subdomain_Mode \<Rightarrow>
              (let pre = (if sf_fixed_path spec then sf_path spec else []);
                   host = sf_host spec @ ''.'' @ rc_base_host config
               in Inr (rc_scheme config @ ''://'' @ host @ join_prefix pre path))))"

definition identity_path :: "routing_config \<Rightarrow> string \<Rightarrow> string" where
  "identity_path config path = join_prefix (sf_path (sv_identity (rc_surfaces config))) path"

definition application_hosts :: "routing_config \<Rightarrow> string list" where
  "application_hosts config = (case rc_mode config of
       Path_Mode \<Rightarrow> [rc_base_host config]
     | Subdomain_Mode \<Rightarrow> (let s = rc_surfaces config in
         map (\<lambda>label. label @ ''.'' @ rc_base_host config)
           ([sf_host (sv_shell s), sf_host (sv_identity s)] @ map (\<lambda>(_, m). sf_host m) (sv_modules s))))"

definition is_application_host :: "routing_config \<Rightarrow> string \<Rightarrow> bool" where
  "is_application_host config host = (host \<in> set (application_hosts config))"

section \<open>A printed URL names its own host\<close>

definition plain_char :: "char \<Rightarrow> bool" where
  "plain_char c = (is_lower c \<or> is_digit c \<or> c \<in> set ''.-'')"

definition plain_host :: "string \<Rightarrow> bool" where
  "plain_host h = (h \<noteq> [] \<and> list_all plain_char h)"

lemma plain_char_props:
  assumes "plain_char c"
  shows "c \<notin> set ''/?#@[]:%'' \<and> \<not> is_space c \<and> lower_char c = c \<and> 32 < (of_char c :: nat)"
proof -
  have "(97 \<le> (of_char c :: nat) \<and> of_char c \<le> (122 :: nat)) \<or> (48 \<le> (of_char c :: nat) \<and> of_char c \<le> (57 :: nat))
      \<or> c = CHR ''.'' \<or> c = CHR ''-''"
    using assms by (auto simp: plain_char_def is_lower_def is_digit_def less_eq_char_def)
  then show ?thesis by (auto simp: is_space_def lower_char_def Let_def)
qed

lemma plain_host_char: "plain_host h \<Longrightarrow> c \<in> set h \<Longrightarrow> plain_char c"
  by (simp add: plain_host_def list_all_iff)

lemma plain_host_free: "plain_host h \<Longrightarrow> c \<in> set ''/?#@[]:%'' \<Longrightarrow> c \<notin> set h"
  using plain_host_char plain_char_props by blast

lemma plain_host_absent:
  assumes "plain_host h"
  shows "CHR ''@'' \<notin> set h" "CHR ''['' \<notin> set h" "CHR '']'' \<notin> set h" "CHR '':'' \<notin> set h" "CHR ''%'' \<notin> set h"
  using plain_host_free [OF assms] by simp_all

lemma lower_plain: "plain_host h \<Longrightarrow> lower h = h"
  unfolding lower_def using plain_host_char plain_char_props by (intro map_idI) blast

lemma strip_plain: "plain_host h \<Longrightarrow> strip h = h"
  unfolding strip_def using plain_host_char plain_char_props by (intro strip_by_none) blast

lemma plain_host_append: "plain_host a \<Longrightarrow> plain_host b \<Longrightarrow> plain_host (a @ ''.'' @ b)"
  by (simp add: plain_host_def plain_char_def)

lemma partition_at_absent:
  assumes "c \<notin> set s"
  shows "partition_at c s = (s, [], [])"
proof -
  have d: "dropWhile (\<lambda>x. x \<noteq> c) s = []" using assms by (auto simp: dropWhile_eq_Nil_conv)
  show ?thesis unfolding partition_at_def Let_def d by simp
qed

lemma host_info_plain:
  assumes "CHR ''@'' \<notin> set s"
  shows "host_info s = s"
proof -
  have t: "takeWhile (\<lambda>c. c \<noteq> CHR ''@'') (rev s) = rev s"
    using assms by (subst takeWhile_eq_all_conv) auto
  show ?thesis unfolding host_info_def t by simp
qed

lemma normalize_plain: "plain_host h \<Longrightarrow> normalize_host h = h"
  by (simp add: normalize_host_def before_last_colon_def plain_host_absent strip_plain lower_plain)

lemma hostname_plain: "plain_host (us_netloc u) \<Longrightarrow> hostname u = us_netloc u"
  by (simp add: hostname_def host_info_plain partition_at_absent plain_host_absent lower_plain)

lemma takeWhile_host:
  assumes "plain_host h"
  shows "takeWhile (\<lambda>c. c \<notin> set ''/?#'') (h @ CHR ''/'' # t) = h"
proof -
  have free: "c \<notin> set ''/?#''" if "c \<in> set h" for c
  proof
    assume "c \<in> set ''/?#''"
    then have "c \<in> set ''/?#@[]:%''" by auto
    then show False using plain_host_free [OF assms] that by blast
  qed
  have "takeWhile (\<lambda>c. c \<notin> set ''/?#'') (h @ CHR ''/'' # t) = h @ takeWhile (\<lambda>c. c \<notin> set ''/?#'') (CHR ''/'' # t)"
    by (rule takeWhile_append2) (rule free)
  then show ?thesis by simp
qed

lemma clean_absolute:
  assumes "plain_host h" and "scheme = ''http'' \<or> scheme = ''https''"
  shows "\<exists>t'. clean_url (scheme @ ''://'' @ h @ CHR ''/'' # t) = scheme @ CHR '':'' # ''//'' @ h @ CHR ''/'' # t'"
proof -
  let ?f = "filter (\<lambda>c. \<not> url_junk c)"
  have "\<not> url_junk c" if "c \<in> set h" for c
    using plain_char_props [OF plain_host_char [OF assms(1) that]] by (auto simp: url_junk_def Let_def)
  then have h: "?f h = h" by (simp add: filter_id_conv)
  have "dropWhile (\<lambda>c. (of_char c :: nat) \<le> 32) (scheme @ s) = scheme @ s" for s
    using assms(2) by auto
  moreover have "?f scheme = scheme" using assms(2) by (elim disjE) (simp_all add: url_junk_def)
  moreover have "?f ''://'' = ''://''" "?f ''/'' = ''/''" by (simp_all add: url_junk_def)
  ultimately have "clean_url (scheme @ ''://'' @ h @ ''/'' @ t) = scheme @ ''://'' @ h @ ''/'' @ ?f t"
    using h by (simp only: clean_url_def filter_append)
  then show ?thesis by simp
qed

lemma drop_absolute:
  assumes "scheme = ''http'' \<or> scheme = ''https''"
  shows "drop_scheme (scheme @ CHR '':'' # rest) = rest"
proof -
  have "partition_at (CHR '':'') (scheme @ CHR '':'' # rest) = (scheme, '':'', rest)"
    by (rule partition_at_append) (use assms in auto)
  then show ?thesis using assms
    by (auto simp: drop_scheme_def scheme_char_def is_upper_def is_lower_def less_eq_char_def)
qed

lemma split_absolute:
  assumes "plain_host h" and "scheme = ''http'' \<or> scheme = ''https''"
  shows "\<exists>u. urlsplit (scheme @ ''://'' @ h @ CHR ''/'' # t) = Inr u \<and> us_netloc u = h"
proof -
  obtain t' where c: "clean_url (scheme @ ''://'' @ h @ CHR ''/'' # t)
      = scheme @ CHR '':'' # ''//'' @ h @ CHR ''/'' # t'"
    using clean_absolute [OF assms] by blast
  have s: "fst (split_netloc (''//'' @ h @ CHR ''/'' # t')) = h"
    using takeWhile_host [OF assms(1)] by (simp add: split_netloc_def startswith_def)
  have ok: "netloc_ok h" using plain_host_absent [OF assms(1)] by (simp add: netloc_ok_def)
  show ?thesis
    unfolding urlsplit_def c drop_absolute [OF assms(2)] using s ok
    by (auto simp: Let_def split: prod.split)
qed

lemma return_host_absolute:
  assumes "plain_host h" and "scheme = ''http'' \<or> scheme = ''https''"
  shows "return_host (scheme @ ''://'' @ h @ CHR ''/'' # t) = Inr h"
  using split_absolute [OF assms, of t] assms(1)
  by (auto simp: return_host_def hostname_plain normalize_plain)

lemma get_named:
  "get_surface s shell = Some (sv_shell s)" "get_surface s identity = Some (sv_identity s)"
  "get_surface s api = Some (sv_api s)" "get_surface s mcp = Some (sv_mcp s)"
  by (simp_all add: get_surface_def named_def surface_names)

lemma url_for_served:
  "get_surface (rc_surfaces config) name = Some sf \<Longrightarrow> \<not> sf_external sf \<Longrightarrow> \<not> sf_reserved sf \<Longrightarrow>
     \<exists>url. url_for config name path = Inr url"
  by (cases "rc_mode config") (simp_all add: url_for_def Let_def)

text \<open>The operator's values are plain: what the shipped defaults are.\<close>

definition plain_surface :: "surface_config \<Rightarrow> bool" where
  "plain_surface sf = (plain_host (sf_host sf) \<and> (sf_path sf = [] \<or> startswith (sf_path sf) ''/''))"

definition plain_routing :: "routing_config \<Rightarrow> bool" where
  "plain_routing config = (plain_host (rc_base_host config) \<and> rc_scheme config \<in> {''http'', ''https''}
     \<and> plain_surface (sv_shell (rc_surfaces config)) \<and> plain_surface (sv_identity (rc_surfaces config)))"

definition surface_host :: "routing_config \<Rightarrow> surface_config \<Rightarrow> string" where
  "surface_host config sf = (case rc_mode config of Path_Mode \<Rightarrow> rc_base_host config
     | Subdomain_Mode \<Rightarrow> sf_host sf @ ''.'' @ rc_base_host config)"

lemma join_prefix_slash: "pre = [] \<or> startswith pre ''/'' \<Longrightarrow> \<exists>t. join_prefix pre path = CHR ''/'' # t"
  by (auto simp: join_prefix_def Let_def startswith_iff)

lemma surface_host_application:
  "sf \<in> {sv_shell (rc_surfaces config), sv_identity (rc_surfaces config)} \<Longrightarrow>
     is_application_host config (surface_host config sf)"
  by (auto simp: is_application_host_def application_hosts_def surface_host_def Let_def split: routing_mode.split)

lemma url_for_host:
  assumes "plain_routing config" and "get_surface (rc_surfaces config) name = Some sf"
    and "sf = sv_shell (rc_surfaces config) \<or> sf = sv_identity (rc_surfaces config)"
    and "url_for config name path = Inr url"
  shows "return_host url = Inr (surface_host config sf)"
proof -
  have sf: "plain_surface sf" and base: "plain_host (rc_base_host config)"
    and scheme: "rc_scheme config = ''http'' \<or> rc_scheme config = ''https''"
    using assms(1,3) by (auto simp: plain_routing_def)
  have host: "plain_host (surface_host config sf)"
    using sf base plain_host_append
    by (simp add: surface_host_def plain_surface_def split: routing_mode.split)
  obtain t where "url = rc_scheme config @ ''://'' @ surface_host config sf @ CHR ''/'' # t"
    using assms(2,4) join_prefix_slash [of "sf_path sf" path] join_prefix_slash [of "[]" path] sf
    by (auto simp: url_for_def surface_host_def plain_surface_def Let_def split: routing_mode.splits if_splits)
  then show ?thesis using return_host_absolute [OF host scheme] by simp
qed


section \<open>The settings always make a configuration\<close>

lemma get_str_fits:
  assumes "complete r vals" and "lookup r k = Some s" and "ks_type s = TStr"
  shows "\<exists>v. get_str r vals k = Inr v \<and> map_of vals k = Some (PStr v) \<and> fits s (PStr v)"
proof -
  obtain v where v: "map_of vals k = Some v" "fits s v" using complete_lookup [OF assms(1,2)] by blast
  then obtain t where "v = PStr t" using assms(3) by (cases v) (auto simp: fits_def)
  then show ?thesis using v assms by (simp add: get_str_def typed_item_def get_spec_def value_str_def)
qed

lemma get_bool_fits:
  assumes "complete r vals" and "lookup r k = Some s" and "ks_type s = TBool"
  shows "\<exists>b. get_bool r vals k = Inr b"
proof -
  obtain v where v: "map_of vals k = Some v" "fits s v" using complete_lookup [OF assms(1,2)] by blast
  then obtain b where "v = PBool b" using assms(3) by (cases v) (auto simp: fits_def)
  then show ?thesis using v assms by (simp add: get_bool_def typed_item_def get_spec_def)
qed

lemma routing_lookup:
  "s \<in> set routing_keys \<Longrightarrow> lookup core_registry (ks_key s) = Some s"
  by (rule lookup_core_production) (simp add: production_keys_def)

definition routing_key :: "string \<Rightarrow> value_type \<Rightarrow> bool" where
  "routing_key k ty = list_ex (\<lambda>s. ks_key s = k \<and> ks_type s = ty) routing_keys"

lemma routing_keys_typed:
  "list_all (\<lambda>name. routing_key (surface_key name ''host'') TStr) [shell, identity, api, mcp, docs, integration]"
  "list_all (\<lambda>name. routing_key (surface_key name ''path'') TStr) [shell, identity, api, mcp]"
  "list_all (\<lambda>name. routing_key (surface_key name ''external'') TBool) [docs, integration]"
  "routing_key (surface_key integration ''reserved'') TBool"
  "routing_key ''routing.base_host'' TStr"
  by (simp_all add: routing_key_def routing_keys_def surface_key_def surface_names key_spec.make_def)

lemma routing_str: "complete core_registry vals \<Longrightarrow> routing_key k TStr \<Longrightarrow> \<exists>v. get_str core_registry vals k = Inr v"
  using get_str_fits routing_lookup by (fastforce simp: routing_key_def list_ex_iff)

lemma routing_bool: "complete core_registry vals \<Longrightarrow> routing_key k TBool \<Longrightarrow> \<exists>v. get_bool core_registry vals k = Inr v"
  using get_bool_fits routing_lookup by (fastforce simp: routing_key_def list_ex_iff)

lemma served_fits:
  assumes "complete core_registry vals" and "name \<in> set [shell, identity, api, mcp]"
  shows "\<exists>sf. served_surface core_registry vals name fixed = Inr sf \<and> sf_fixed_path sf = fixed
     \<and> \<not> sf_external sf \<and> \<not> sf_reserved sf"
proof -
  have "routing_key (surface_key name ''host'') TStr" "routing_key (surface_key name ''path'') TStr"
    using routing_keys_typed assms(2) by (auto simp: list_all_iff)
  from routing_str [OF assms(1) this(1)] routing_str [OF assms(1) this(2)]
  show ?thesis by (auto simp: served_surface_def)
qed

lemma unlinked_fits:
  assumes "complete core_registry vals" and "name = docs \<and> \<not> reserve \<or> name = integration"
  shows "\<exists>sf. unlinked_surface core_registry vals name reserve = Inr sf"
proof -
  have "routing_key (surface_key name ''host'') TStr" "routing_key (surface_key name ''external'') TBool"
    using routing_keys_typed assms(2) by (auto simp: list_all_iff)
  from routing_str [OF assms(1) this(1)] routing_bool [OF assms(1) this(2)]
    routing_bool [OF assms(1) routing_keys_typed(4)] assms(2)
  show ?thesis by (auto simp: unlinked_surface_def)
qed

lemma chosen_fits:
  assumes "complete core_registry vals" and "s \<in> set routing_keys" and "ks_type s = TStr" and "ks_choices s = Some cs"
  shows "\<exists>v. get_str core_registry vals (ks_key s) = Inr v \<and> v \<in> set cs"
  using get_str_fits [OF assms(1) routing_lookup [OF assms(2)] assms(3)] assms(4)
  by (auto simp: fits_def in_choices_def)

lemma routing_choices:
  assumes "complete core_registry vals"
  shows "\<exists>v. get_str core_registry vals ''routing.mode'' = Inr v \<and> v \<in> set [''path'', ''subdomain'']"
    and "\<exists>v. get_str core_registry vals ''routing.scheme'' = Inr v \<and> v \<in> set [''https'', ''http'']"
  using chosen_fits [OF assms, of "routing_keys ! 0" "[''path'', ''subdomain'']"]
    chosen_fits [OF assms, of "routing_keys ! 1" "[''https'', ''http'']"]
  by (simp_all add: routing_keys_def key_spec.make_def)

lemma routing_surfaces:
  assumes c: "complete core_registry vals"
  obtains s1 s2 s3 s4 s5 s6 where "served_surface core_registry vals shell False = Inr s1"
    and "served_surface core_registry vals identity True = Inr s2" and "served_surface core_registry vals api False = Inr s3"
    and "served_surface core_registry vals mcp False = Inr s4" and "unlinked_surface core_registry vals docs False = Inr s5"
    and "unlinked_surface core_registry vals integration True = Inr s6"
    and "\<not> sf_fixed_path s1 \<and> sf_fixed_path s2 \<and> \<not> sf_fixed_path s3 \<and> \<not> sf_fixed_path s4"
    and "\<forall>sf \<in> {s1, s2, s3, s4}. \<not> sf_external sf \<and> \<not> sf_reserved sf"
  using served_fits [OF c, of shell False] served_fits [OF c, of identity True] served_fits [OF c, of api False]
    served_fits [OF c, of mcp False] unlinked_fits [OF c, of docs False] unlinked_fits [OF c, of integration True]
  by auto

text \<open>
  C40: reading the topology never fails. For every deployment layer that fits the registry (the
  loaders produce no other), the resolved settings make a routing configuration: its mode is
  one of the two, its scheme is \<open>http\<close> or \<open>https\<close>, the identity surface is the one with
  the fixed path, the four served surfaces are linkable, and there are no module surfaces.
\<close>

theorem routing_configuration_total:
  assumes "su_registry su = core_registry" and "su_layer su = Inr dep" and "layer_fits core_registry dep"
  shows "\<exists>config. current_routing su = Inr config \<and> rc_scheme config \<in> {''http'', ''https''}
     \<and> sv_modules (rc_surfaces config) = [] \<and> sf_fixed_path (sv_identity (rc_surfaces config))
     \<and> (\<forall>sf \<in> {sv_shell (rc_surfaces config), sv_api (rc_surfaces config), sv_mcp (rc_surfaces config)}.
          \<not> sf_fixed_path sf)
     \<and> (\<forall>name \<in> {shell, identity, api, mcp}. \<forall>path. \<exists>url. url_for config name path = Inr url)"
proof -
  define vals where "vals = dict_update (map (\<lambda>s. (ks_key s, ks_default s)) (specs None core_registry)) dep"
  have c: "complete core_registry vals"
    unfolding vals_def by (rule base_layer(1) [OF core_specs_ok assms(3)])
  have r: "current_routing su = from_settings core_registry vals"
    using assms(1,2) by (simp add: current_routing_def resolve_def Let_def vals_def)
  obtain m where m: "get_str core_registry vals ''routing.mode'' = Inr m" "m = ''path'' \<or> m = ''subdomain''"
    using routing_choices(1) [OF c] by auto
  obtain md where md: "routing_mode_of m = Inr md"
    using m(2) by (auto simp: routing_mode_of_def routing_mode_value_def)
  obtain scheme where scheme: "get_str core_registry vals ''routing.scheme'' = Inr scheme"
      "scheme \<in> {''http'', ''https''}"
    using routing_choices(2) [OF c] by auto
  obtain base where base: "get_str core_registry vals ''routing.base_host'' = Inr base"
    using routing_str [OF c routing_keys_typed(5)] by blast
  obtain s1 s2 s3 s4 s5 s6 where s: "served_surface core_registry vals shell False = Inr s1"
      "served_surface core_registry vals identity True = Inr s2" "served_surface core_registry vals api False = Inr s3"
      "served_surface core_registry vals mcp False = Inr s4" "unlinked_surface core_registry vals docs False = Inr s5"
      "unlinked_surface core_registry vals integration True = Inr s6"
    and fixed: "\<not> sf_fixed_path s1 \<and> sf_fixed_path s2 \<and> \<not> sf_fixed_path s3 \<and> \<not> sf_fixed_path s4"
    and own: "\<forall>sf \<in> {s1, s2, s3, s4}. \<not> sf_external sf \<and> \<not> sf_reserved sf"
    by (rule routing_surfaces [OF c])
  let ?config = "\<lparr>rc_mode = md, rc_scheme = scheme, rc_base_host = base,
      rc_surfaces = \<lparr>sv_shell = s1, sv_identity = s2, sv_api = s3, sv_mcp = s4, sv_docs = s5,
        sv_integration = s6, sv_modules = []\<rparr>\<rparr>"
  have "from_settings core_registry vals = Inr ?config"
    using m(1) md scheme(1) base s by (simp add: from_settings_def)
  moreover have "get_surface (rc_surfaces ?config) shell = Some s1"
      "get_surface (rc_surfaces ?config) identity = Some s2"
      "get_surface (rc_surfaces ?config) api = Some s3" "get_surface (rc_surfaces ?config) mcp = Some s4"
    by (simp_all only: get_named surfaces.simps routing_config.simps)
  then have "\<forall>name \<in> {shell, identity, api, mcp}. \<forall>path. \<exists>url. url_for ?config name path = Inr url"
    using own by (auto intro!: url_for_served)
  ultimately show ?thesis unfolding r using scheme(2) fixed
    by (intro exI [of _ ?config]) simp
qed

section \<open>Shipped topologies\<close>

text \<open>The package defaults, in path mode, and the same deployment in subdomain mode.\<close>

definition default_surfaces :: surfaces where
  "default_surfaces = (let sf = (\<lambda>h p fixed. \<lparr>sf_host = h, sf_path = p, sf_external = False,
       sf_reserved = False, sf_fixed_path = fixed\<rparr>) in
     \<lparr>sv_shell = sf ''circuit'' ''/'' False, sv_identity = sf ''auth'' ''/auth'' True,
      sv_api = sf ''api'' ''/api'' False, sv_mcp = sf ''mcp'' ''/mcp'' False,
      sv_docs = (sf ''docs'' [] False)\<lparr>sf_external := True\<rparr>,
      sv_integration = (sf ''tuttle'' [] False)\<lparr>sf_external := True, sf_reserved := True\<rparr>,
      sv_modules = []\<rparr>)"

definition default_routing :: "routing_mode \<Rightarrow> string \<Rightarrow> routing_config" where
  "default_routing mode base = \<lparr>rc_mode = mode, rc_scheme = ''https'', rc_base_host = base,
     rc_surfaces = default_surfaces\<rparr>"

lemma default_plain: "plain_host base \<Longrightarrow> plain_routing (default_routing mode base)"
  by (simp add: plain_routing_def default_routing_def default_surfaces_def Let_def plain_surface_def
      startswith_def) (simp add: plain_host_def plain_char_def is_lower_def less_eq_char_def)

lemma sample_base_plain: "plain_host ''example.test''"
  by (simp add: plain_host_def plain_char_def is_lower_def less_eq_char_def)

lemma sample_callback:
  "url_for (default_routing Subdomain_Mode ''example.test'') identity ''/callback''
     = Inr ''https://auth.example.test/auth/callback''"
  by (simp add: url_for_def get_named default_routing_def default_surfaces_def Let_def join_prefix_def
      startswith_def)


theorem routing_configuration_total_witness:
  "\<exists>config. current_routing \<lparr>su_registry = core_registry, su_layer = Inr [], su_now = 0, su_sha256 = id\<rparr> = Inr config
     \<and> rc_scheme config \<in> {''http'', ''https''}"
  using routing_configuration_total [of "\<lparr>su_registry = core_registry, su_layer = Inr [], su_now = 0, su_sha256 = id\<rparr>" "[]"]
  by (auto simp: layer_fits_def)

end
