(* ===== verification/Secrets.thy ===== *)
theory Secrets
  imports Urls
begin

text \<open>
  \<open>rheo_core/secrets/\<close>: the \<open>secret://<file|env>/<id>\<close> reference (\<open>refs.py\<close>), the scope that
  says which references a component may resolve (\<open>scope.py\<close>), the two backends
  (\<open>backends.py\<close>) and the store with its startup check (\<open>store.py\<close>).

  The file system is the parameter \<open>ss_files\<close>: what \<open>stat\<close> says of a path, and what reading it
  yields. A \<open>SecretValue\<close> is the bytes it wraps; its refusals to print, copy or serialise
  itself (\<open>value.py\<close>) are not modelled, nor are the sentinels against accidental construction
  of a scope.
\<close>

section \<open>References\<close>

definition secret_ref_malformed :: string where "secret_ref_malformed = ''secret_ref_malformed''"
definition secret_scope_denied :: string where "secret_scope_denied = ''secret_scope_denied''"
definition secret_missing :: string where "secret_missing = ''secret_missing''"
definition secret_permissions :: string where "secret_permissions = ''secret_permissions''"

definition scheme :: string where "scheme = ''secret://''"

datatype secret_backend = File_Backend | Env_Backend

definition backend_value :: "secret_backend \<Rightarrow> string" where
  "backend_value b = (case b of File_Backend \<Rightarrow> ''file'' | Env_Backend \<Rightarrow> ''env'')"

record secret_ref =
  sref_backend :: secret_backend
  sref_id :: string

text \<open>\<open>[a-z0-9]+(?:-[a-z0-9]+)*\<close>: words of lower case letters and digits between single hyphens.\<close>

definition file_segment :: "string \<Rightarrow> bool" where
  "file_segment s = list_all (\<lambda>w. w \<noteq> [] \<and> list_all (\<lambda>c. is_lower c \<or> is_digit c) w) (split_on (CHR ''-'') s)"

definition is_slug_path :: "string \<Rightarrow> bool" where
  "is_slug_path text = (text \<noteq> [] \<and> list_all file_segment (split_on (CHR ''/'') text))"

definition env_start :: "char \<Rightarrow> bool" where
  "env_start c = (is_upper c \<or> is_lower c \<or> c = CHR ''_'')"

fun is_env_name :: "string \<Rightarrow> bool" where
  "is_env_name [] = False"
| "is_env_name (c # cs) = (env_start c \<and> list_all (\<lambda>d. env_start d \<or> is_digit d) cs)"

definition malformed :: "string \<Rightarrow> py_exc" where
  "malformed reason = SecretRefusal secret_ref_malformed
     (''malformed secret reference ('' @ reason @ ''); expected secret://<file|env>/<id>'')"

definition make_secret_ref :: "secret_backend \<Rightarrow> string \<Rightarrow> secret_ref result" where
  "make_secret_ref b ident = (case b of
       File_Backend \<Rightarrow> ensure (is_slug_path ident) (malformed ''file id is not a slug path'')
         (Inr \<lparr>sref_backend = b, sref_id = ident\<rparr>)
     | Env_Backend \<Rightarrow> ensure (is_env_name ident) (malformed ''env id is not an environment-variable name'')
         (Inr \<lparr>sref_backend = b, sref_id = ident\<rparr>))"

definition parse_secret_ref :: "string \<Rightarrow> secret_ref result" where
  "parse_secret_ref text =
     ensure (startswith text scheme) (malformed ''missing secret:// scheme'')
     (case partition_at (CHR ''/'') (drop (length scheme) text) of (backend, separator, ident) \<Rightarrow>
       ensure (separator \<noteq> []) (malformed ''missing /<id>'')
       (case find (\<lambda>b. backend_value b = backend) [File_Backend, Env_Backend] of
          None \<Rightarrow> Inl (malformed ''unknown backend'')
        | Some kind \<Rightarrow> make_secret_ref kind ident))"

definition secret_ref_str :: "secret_ref \<Rightarrow> string" where
  "secret_ref_str r = scheme @ backend_value (sref_backend r) @ ''/'' @ sref_id r"

definition is_secret_reference :: "pyval \<Rightarrow> bool" where
  "is_secret_reference v = (case v of PStr s \<Rightarrow> startswith s scheme | _ \<Rightarrow> False)"

section \<open>Scopes\<close>

record secret_scope =
  sc_component :: string
  sc_prefixes :: "string list"

definition prefix_roots :: "string list" where
  "prefix_roots = map (\<lambda>b. scheme @ backend_value b @ ''/'') [File_Backend, Env_Backend]"

definition scope_for :: "string \<Rightarrow> string list \<Rightarrow> secret_scope result" where
  "scope_for component names =
     ensure (component \<noteq> []) (ValueError ''a secret scope needs a non-empty component name'')
     (ensure (names \<noteq> []) (ValueError (''scope for '' @ py_repr component @ '' names no reference prefix''))
     (ensure (list_all (\<lambda>p. list_ex (startswith p) prefix_roots) names)
       (ValueError (''scope for '' @ py_repr component @ '': a prefix must start with one of ''
         @ py_repr_list prefix_roots))
     (Inr \<lparr>sc_component = component, sc_prefixes = names\<rparr>)))"

definition permits :: "secret_scope \<Rightarrow> secret_ref \<Rightarrow> bool" where
  "permits sc ref = (let text = secret_ref_str ref in
     list_ex (\<lambda>p. text = p \<or> startswith text (if endswith p ''/'' then p else p @ ''/'')) (sc_prefixes sc))"

section \<open>Backends and the store\<close>

record file_info =
  fi_mode :: "16 word"
  fi_content :: "bytes result"

text \<open>\<open>Inr None\<close> is \<open>FileNotFoundError\<close>; another error of the system call is \<open>Inl\<close>.\<close>

record secret_store =
  ss_root :: string
  ss_files :: "string \<Rightarrow> file_info option result"
  ss_environ :: "(string \<times> string) list"

definition is_regular :: "16 word \<Rightarrow> bool" where
  "is_regular m = (Bit_Operations.and m 0xF000 = 0x8000)"

definition permission_bits :: "16 word \<Rightarrow> 16 word" where
  "permission_bits m = Bit_Operations.and m 0xFFF"

text \<open>\<open>0o177\<close>: every permission bit but the owner's read and write.\<close>

definition beyond_owner_rw :: "16 word" where "beyond_owner_rw = 0x7F"

definition octal4 :: "16 word \<Rightarrow> string" where
  "octal4 m = map digit_char (to_digits 8 4 (unat m))"

definition secret_path :: "secret_store \<Rightarrow> string \<Rightarrow> string" where
  "secret_path st ident = ss_root st @ ''/'' @ ident"

definition read_file :: "secret_store \<Rightarrow> string \<Rightarrow> bytes result" where
  "read_file st ref_id =
     ensure (is_slug_path ref_id)
       (SecretRefusal secret_ref_malformed ''file secret id is not a slug path, so it may not name a path'')
     (rbind (ss_files st (secret_path st ref_id)) (\<lambda>found. case found of
       None \<Rightarrow> Inl (SecretRefusal secret_missing (''secret file '' @ secret_path st ref_id @ '' does not exist''))
     | Some info \<Rightarrow>
         ensure (is_regular (fi_mode info))
           (SecretRefusal secret_missing (''secret file '' @ secret_path st ref_id @ '' is not a regular file''))
         (let mode = permission_bits (fi_mode info) in
          ensure (Bit_Operations.and mode beyond_owner_rw = 0)
            (SecretRefusal secret_permissions (''secret file '' @ secret_path st ref_id @ '' has mode ''
              @ octal4 mode @ ''; it must be 0600 or stricter''))
            (fi_content info))))"

definition read_env :: "secret_store \<Rightarrow> string \<Rightarrow> bytes result" where
  "read_env st name = (case map_of (ss_environ st) name of
       None \<Rightarrow> Inl (SecretRefusal secret_missing (''environment variable '' @ name @ '' is not set''))
     | Some v \<Rightarrow> Inr (utf8 v))"

definition resolve_secret :: "secret_store \<Rightarrow> secret_ref \<Rightarrow> secret_scope \<Rightarrow> bytes result" where
  "resolve_secret st ref sc =
     ensure (permits sc ref)
       (SecretRefusal secret_scope_denied
         (''scope '' @ py_repr (sc_component sc) @ '' may not resolve '' @ secret_ref_str ref))
     (case sref_backend ref of File_Backend \<Rightarrow> read_file st (sref_id ref) | Env_Backend \<Rightarrow> read_env st (sref_id ref))"

section \<open>The startup check\<close>

definition reference_step :: "string \<times> pyval \<Rightarrow> (string \<times> secret_ref) list \<Rightarrow> (string \<times> secret_ref) list result" where
  "reference_step = (\<lambda>(key, v) acc.
       if \<not> is_secret_reference v then Inr acc
       else (case parse_secret_ref (value_str v) of
           Inl (SecretRefusal st d) \<Rightarrow> Inl (SecretRefusal st (''setting '' @ key @ '': '' @ d))
         | Inl e \<Rightarrow> Inl e
         | Inr ref \<Rightarrow> Inr (if sref_backend ref = Env_Backend then dict_set key ref acc else acc)))"

definition env_references :: "(string \<times> pyval) list \<Rightarrow> (string \<times> secret_ref) list result" where
  "env_references settings = rfold reference_step settings []"

definition check_env_references :: "(string \<times> pyval) list \<Rightarrow> (string \<times> string) list \<Rightarrow> string list result" where
  "check_env_references settings environ =
     rbind (env_references settings) (\<lambda>refs.
     rbind (rfold (\<lambda>(key, ref) checked.
         ensure (map_of environ (sref_id ref) \<noteq> None)
           (SecretRefusal secret_missing (''environment variable '' @ sref_id ref @ '', named by setting ''
             @ key @ '', is not set''))
           (Inr (checked @ [sref_id ref]))) (sort_key fst refs) []) (\<lambda>checked.
     Inr (sorted_list_of_set (set checked))))"

section \<open>The reference is an exact code\<close>

definition secret_ref_ok :: "secret_ref \<Rightarrow> bool" where
  "secret_ref_ok r = (case sref_backend r of File_Backend \<Rightarrow> is_slug_path (sref_id r) | Env_Backend \<Rightarrow> is_env_name (sref_id r))"

lemma make_secret_ref_Inr:
  "make_secret_ref b i = Inr r \<longleftrightarrow> r = \<lparr>sref_backend = b, sref_id = i\<rparr> \<and> secret_ref_ok r"
  by (auto simp: make_secret_ref_def secret_ref_ok_def split: secret_backend.splits)

lemma backend_found:
  "find (\<lambda>b. backend_value b = s) [File_Backend, Env_Backend] = Some b \<longleftrightarrow> s = backend_value b"
  by (cases b) (auto simp: backend_value_def)

lemma backend_value_no_slash: "CHR ''/'' \<notin> set (backend_value b)"
  by (cases b) (auto simp: backend_value_def)

lemma parse_secret_ref_str: "secret_ref_ok r \<Longrightarrow> parse_secret_ref (secret_ref_str r) = Inr r"
  using backend_found [of "backend_value (sref_backend r)" "sref_backend r"]
  by (simp add: parse_secret_ref_def secret_ref_str_def backend_value_no_slash make_secret_ref_Inr
      del: find.simps)

lemma parse_secret_ref_Inr:
  assumes "parse_secret_ref s = Inr r"
  shows "secret_ref_ok r \<and> secret_ref_str r = s"
proof -
  obtain backend sep ident where p: "partition_at (CHR ''/'') (drop (length scheme) s) = (backend, sep, ident)"
    by (metis prod_cases3)
  have s: "startswith s scheme" "sep \<noteq> []"
    and "\<exists>kind. backend = backend_value kind \<and> make_secret_ref kind ident = Inr r"
    using assms p by (auto simp: parse_secret_ref_def backend_found simp del: find.simps split: option.splits)
  then obtain kind where k: "backend = backend_value kind" "make_secret_ref kind ident = Inr r" by blast
  have "drop (length scheme) s = backend @ CHR ''/'' # ident" using partition_at_Some [OF p s(2)] by blast
  moreover have "s = scheme @ drop (length scheme) s" using s(1) by (metis append_take_drop_id startswith_def)
  ultimately show ?thesis using k by (auto simp: make_secret_ref_Inr secret_ref_str_def)
qed

interpretation secret_refs: exact_text_codec parse_secret_ref secret_ref_str secret_ref_ok
  by unfold_locales (simp_all add: parse_secret_ref_str parse_secret_ref_Inr)

text \<open>
  A secret reference has exactly one text. A string parses to a reference if and only if it
  is the printed form of that reference and the reference is well formed; so two texts never
  name the same secret, and what \<open>permits\<close> compares is the reference itself.
\<close>

theorem secret_reference_exact: "parse_secret_ref s = Inr r \<longleftrightarrow> secret_ref_ok r \<and> secret_ref_str r = s"
  by (rule secret_refs.parse_iff)

section \<open>What a scope lets through\<close>

lemma split_on_append_any: "split_on c (s @ c # t) = split_on c s @ split_on c t"
  by (induction s) (auto split: list.splits)

lemma join_with_append:
  "xs \<noteq> [] \<Longrightarrow> ys \<noteq> [] \<Longrightarrow> join_with sep (xs @ ys) = join_with sep xs @ sep @ join_with sep ys"
  by (induction xs rule: induct_list012) (auto simp: neq_Nil_conv)

lemma extends_iff: "(\<exists>t. text = p @ c # t) \<longleftrightarrow> strict_prefix (split_on c p) (split_on c text)"
proof
  assume "\<exists>t. text = p @ c # t"
  then show "strict_prefix (split_on c p) (split_on c text)"
    by (auto simp: split_on_append_any strict_prefix_def)
next
  assume "strict_prefix (split_on c p) (split_on c text)"
  then obtain ys where "split_on c text = split_on c p @ ys" "ys \<noteq> []"
    by (auto simp: strict_prefix_def Sublist.prefix_def)
  then have "text = p @ [c] @ join_with [c] ys"
    using join_split_on [of c "text"] by (simp add: join_with_append del: join_split_on) simp
  then show "\<exists>t. text = p @ c # t" by auto
qed

lemma split_on_inject: "split_on c s = split_on c t \<longleftrightarrow> s = t"
  by (metis join_split_on)

text \<open>
  A scope is checked segment by segment. A prefix without a trailing slash covers the
  reference it is and everything whose path continues it at a \<open>/\<close>; a prefix with one covers
  only what lies beneath it. So \<open>secret://env/RHEO_CLUSTER_DSN\<close> does not cover
  \<open>secret://env/RHEO_CLUSTER_DSN_ADMIN\<close>, and no prefix covers a name it merely begins.
\<close>

theorem scope_is_segment_aligned:
  "permits sc ref \<longleftrightarrow> (\<exists>p \<in> set (sc_prefixes sc).
     if endswith p ''/''
     then strict_prefix (split_on (CHR ''/'') (butlast p)) (split_on (CHR ''/'') (secret_ref_str ref))
     else Sublist.prefix (split_on (CHR ''/'') p) (split_on (CHR ''/'') (secret_ref_str ref)))"
proof -
  let ?text = "secret_ref_str ref"
  have "(?text = p \<or> startswith ?text (if endswith p ''/'' then p else p @ ''/''))
     \<longleftrightarrow> (if endswith p ''/'' then strict_prefix (split_on (CHR ''/'') (butlast p)) (split_on (CHR ''/'') ?text)
          else Sublist.prefix (split_on (CHR ''/'') p) (split_on (CHR ''/'') ?text))" for p
  proof (cases "endswith p ''/''")
    case True
    then obtain q where q: "p = q @ ''/''"
      by (metis append_take_drop_id endswith_def)
    then have "(?text = p \<or> startswith ?text p) \<longleftrightarrow> (\<exists>t. ?text = q @ CHR ''/'' # t)"
      by (auto simp: startswith_iff)
    then show ?thesis using True q extends_iff by simp
  next
    case False
    have "(?text = p \<or> startswith ?text (p @ ''/'')) \<longleftrightarrow> ?text = p \<or> (\<exists>t. ?text = p @ CHR ''/'' # t)"
      by (auto simp: startswith_iff)
    then show ?thesis using False
      by (auto simp: extends_iff prefix_order.le_less split_on_inject)
  qed
  then show ?thesis by (simp add: permits_def Let_def list_ex_iff)
qed

lemma low_bits_clear:
  fixes m :: "16 word"
  assumes "Bit_Operations.and (permission_bits m) beyond_owner_rw = 0" and "n < 7"
  shows "\<not> bit m n"
proof -
  have "Bit_Operations.and (Bit_Operations.and m (mask 12)) (mask 7) = 0"
    using assms(1) by (simp add: permission_bits_def beyond_owner_rw_def mask_numeral)
  then have "\<not> bit (Bit_Operations.and (Bit_Operations.and m (mask 12)) (mask 7)) n" by simp
  then show ?thesis using assms(2) by (simp add: bit_and_iff bit_mask_iff)
qed

lemma file_segment_chars: "file_segment s \<Longrightarrow> s \<noteq> [] \<and> (\<forall>c \<in> set s. is_lower c \<or> is_digit c \<or> c = CHR ''-'')"
proof -
  assume a: "file_segment s"
  have "c \<in> set s \<Longrightarrow> c = d \<or> (\<exists>w \<in> set (split_on d s). c \<in> set w)" for c d
    by (induction s) (auto split: list.splits)
  then show ?thesis using a by (fastforce simp: file_segment_def list_all_iff)
qed

lemma slug_path_segments:
  "is_slug_path i \<Longrightarrow> seg \<in> set (split_on (CHR ''/'') i) \<Longrightarrow> seg \<noteq> [] \<and> CHR ''.'' \<notin> set seg"
proof -
  assume "is_slug_path i" "seg \<in> set (split_on (CHR ''/'') i)"
  then have "file_segment seg" by (simp add: is_slug_path_def list_all_iff)
  moreover have "\<not> (is_lower (CHR ''.'') \<or> is_digit (CHR ''.''))" by (simp add: is_lower_def is_digit_def)
  ultimately show ?thesis using file_segment_chars [of seg] by auto
qed

text \<open>
  C38: what the store ever hands out of the file system. A successful resolution of a file
  reference is the content of \<open><root>/<id>\<close> where every segment of the id is a non-empty name
  without a dot, so the path stays below the root; the scope permitted the reference, the path
  is a regular file, and none of its permission bits for the group, for others or for
  execution by the owner is set.
\<close>

theorem file_secret_is_confined:
  assumes "resolve_secret st ref sc = Inr raw" and "sref_backend ref = File_Backend"
  shows "\<exists>info. ss_files st (ss_root st @ ''/'' @ sref_id ref) = Inr (Some info) \<and> fi_content info = Inr raw
     \<and> permits sc ref \<and> is_regular (fi_mode info) \<and> (\<forall>n < 7. \<not> bit (fi_mode info) n)
     \<and> (\<forall>seg \<in> set (split_on (CHR ''/'') (sref_id ref)). seg \<noteq> [] \<and> CHR ''.'' \<notin> set seg)"
proof -
  have read: "read_file st (sref_id ref) = Inr raw" and p: "permits sc ref"
    using assms by (simp_all add: resolve_secret_def)
  then obtain info where "is_slug_path (sref_id ref)" "ss_files st (secret_path st (sref_id ref)) = Inr (Some info)"
      "is_regular (fi_mode info)" "Bit_Operations.and (permission_bits (fi_mode info)) beyond_owner_rw = 0"
      "fi_content info = Inr raw"
    by (auto simp: read_file_def Let_def split: option.splits)
  then show ?thesis using p low_bits_clear slug_path_segments by (auto simp: secret_path_def)
qed

section \<open>What the startup check guarantees\<close>

lemma reference_step_keeps: "reference_step kv acc = Inr acc' \<Longrightarrow> fst kv \<noteq> key \<Longrightarrow> map_of acc' key = map_of acc key"
  by (auto simp: reference_step_def split: if_splits sum.splits py_exc.splits prod.splits)

lemma reference_step_adds:
  assumes "reference_step (key, PStr t) acc = Inr acc'" and "parse_secret_ref t = Inr ref"
    and "sref_backend ref = Env_Backend"
  shows "map_of acc' key = Some ref"
proof -
  have "startswith t scheme" using assms(2) by (simp add: parse_secret_ref_def)
  then show ?thesis using assms by (auto simp: reference_step_def is_secret_reference_def value_str_def)
qed

lemma env_references_found:
  assumes "rfold reference_step settings acc = Inr out" and "distinct (map fst settings)"
    and "(key, PStr t) \<in> set settings" and "parse_secret_ref t = Inr ref" and "sref_backend ref = Env_Backend"
  shows "map_of out key = Some ref"
  using assms(1-3)
proof (induction settings arbitrary: acc)
  case (Cons kv settings)
  then obtain mid where mid: "reference_step kv acc = Inr mid" "rfold reference_step settings mid = Inr out" by auto
  show ?case
  proof (cases "kv = (key, PStr t)")
    case True
    then have "map_of mid key = Some ref" using reference_step_adds mid(1) assms(4,5) by blast
    moreover have other: "fst x \<noteq> key" if "x \<in> set settings" for x using Cons.prems(2) True that by force
    ultimately show ?thesis
      by (intro rfold_invariant [where P = "\<lambda>m. map_of m key = Some ref", OF mid(2)])
        (simp_all add: reference_step_keeps)
  next
    case False
    then show ?thesis using Cons.IH [OF mid(2)] Cons.prems by auto
  qed
qed simp

text \<open>
  Once the startup check has passed, no environment reference of the settings can go
  missing. Every setting whose value is a well-formed \<open>secret://env/\<close> reference names a variable
  that is set, and the store resolves it to that variable's UTF-8 bytes for every scope that
  permits it. The names returned are exactly those variables.
\<close>

theorem checked_references_resolve:
  assumes "check_env_references settings environ = Inr names" and "distinct (map fst settings)"
    and "(key, PStr t) \<in> set settings" and "parse_secret_ref t = Inr ref" and "sref_backend ref = Env_Backend"
  shows "\<exists>v. map_of environ (sref_id ref) = Some v \<and> sref_id ref \<in> set names
     \<and> (\<forall>st sc. ss_environ st = environ \<longrightarrow> permits sc ref \<longrightarrow> resolve_secret st ref sc = Inr (utf8 v))"
proof -
  let ?check = "\<lambda>(key, ref) checked. ensure (map_of environ (sref_id ref) \<noteq> None)
      (SecretRefusal secret_missing (''environment variable '' @ sref_id ref @ '', named by setting ''
        @ key @ '', is not set'')) (Inr (checked @ [sref_id ref]))"
  obtain refs checked where refs: "rfold reference_step settings [] = Inr refs"
    and c: "rfold ?check (sort_key fst refs) [] = Inr checked" "names = sorted_list_of_set (set checked)"
    using assms(1) by (auto simp: check_env_references_def env_references_def)
  have "(key, ref) \<in> set (sort_key fst refs)"
    using env_references_found [OF refs assms(2-5)] by (auto dest: map_of_SomeD)
  moreover have "rfold ?check xs acc = Inr out \<Longrightarrow>
      set out = set acc \<union> (\<lambda>x. sref_id (snd x)) ` set xs \<and> (\<forall>x \<in> set xs. map_of environ (sref_id (snd x)) \<noteq> None)"
    for xs acc out
    by (induction xs arbitrary: acc) (force split: prod.splits)+
  from this [OF c(1)] have "sref_id ref \<in> set checked \<and> map_of environ (sref_id ref) \<noteq> None"
    using calculation by force
  then show ?thesis using c(2) assms(5) by (auto simp: resolve_secret_def read_env_def)
qed

section \<open>Examples\<close>

definition sample_store :: secret_store where
  "sample_store = \<lparr>ss_root = ''/data/secrets'',
     ss_files = (\<lambda>p. Inr (if p = ''/data/secrets/cluster/dsn'' then Some \<lparr>fi_mode = 0x8180, fi_content = Inr [1, 2]\<rparr> else None)),
     ss_environ = [(''DSN'', ''x'')]\<rparr>"

theorem file_secret_is_confined_witness:
  "\<exists>info. ss_files sample_store ''/data/secrets/cluster/dsn'' = Inr (Some info) \<and> (\<forall>n < 7. \<not> bit (fi_mode info) n)"
proof -
  have "resolve_secret sample_store \<lparr>sref_backend = File_Backend, sref_id = ''cluster/dsn''\<rparr>
      \<lparr>sc_component = ''storage'', sc_prefixes = [''secret://file/cluster/'']\<rparr> = Inr [1, 2]" by code_simp
  from file_secret_is_confined [OF this] show ?thesis by (auto simp: sample_store_def)
qed

theorem checked_references_resolve_witness:
  "resolve_secret sample_store \<lparr>sref_backend = Env_Backend, sref_id = ''DSN''\<rparr>
     \<lparr>sc_component = ''storage'', sc_prefixes = [''secret://env/DSN'']\<rparr> = Inr [120]"
proof -
  let ?ref = "\<lparr>sref_backend = Env_Backend, sref_id = ''DSN''\<rparr>"
  have c: "check_env_references [(''storage.dsn_ref'', PStr ''secret://env/DSN'')] [(''DSN'', ''x'')] = Inr [''DSN'']"
    by code_simp
  have "parse_secret_ref ''secret://env/DSN'' = Inr ?ref" by code_simp
  from checked_references_resolve [OF c _ _ this] obtain v where v: "map_of [(''DSN'', ''x'')] ''DSN'' = Some v"
      "\<And>st sc. ss_environ st = [(''DSN'', ''x'')] \<Longrightarrow> permits sc ?ref \<Longrightarrow> resolve_secret st ?ref sc = Inr (utf8 v)"
    by auto
  have "permits \<lparr>sc_component = ''storage'', sc_prefixes = [''secret://env/DSN'']\<rparr> ?ref" by code_simp
  moreover have "ss_environ sample_store = [(''DSN'', ''x'')]" by (simp add: sample_store_def)
  moreover have "v = ''x''" using v(1) by simp
  moreover have "utf8 ''x'' = [120]" by code_simp
  ultimately show ?thesis using v(2) by metis
qed

end
