(* ===== verification/Identity.thy ===== *)
theory Identity
  imports Boundary Control_History
begin

text \<open>
  \<open>rheo_core/identity/\<close>: which account a provider's identity is (\<open>accounts.py\<close>) and the startup
  copy of the provider settings into the control plane (\<open>provider_config.py\<close>).

  \<open>resolve_or_create\<close> reads once without the lock and then runs one locked transaction, which
  looks again; \<open>create_under_lock\<close> is that transaction, so a state that changed in between is
  just the state it runs in. The two identifiers it may mint are arguments.
\<close>

record provider_identity =
  pi_provider_id :: string
  pi_subject :: string
  pi_email :: "string option"
  pi_email_verified :: bool
  pi_display_name :: string

definition settings_bool :: "surroundings \<Rightarrow> string \<Rightarrow> bool result" where
  "settings_bool su key =
     rbind (resolve (su_registry su) (su_layer su) None None None) (\<lambda>(vals, _).
     get_bool (su_registry su) vals key)"

definition known_account :: "provider_identity \<Rightarrow> control_db \<Rightarrow> account_row option result" where
  "known_account p db = (case get_identity (pi_provider_id p) (pi_subject p) db of
       None \<Rightarrow> Inr None
     | Some row \<Rightarrow> (case get_account (idn_account_id row) db of
           None \<Rightarrow> Inl (RuntimeError (''identity names account '' @ uuid_str (idn_account_id row)
             @ '', which has no row''))
         | Some account \<Rightarrow> Inr (Some account)))"

definition create_under_lock :: "surroundings \<Rightarrow> uuid \<Rightarrow> uuid \<Rightarrow> provider_identity \<Rightarrow> control_db
    \<Rightarrow> account_row refusable db_result" where
  "create_under_lock su account_id identity_id p db =
     rbind (known_account p db) (\<lambda>existing. case existing of
       Some account \<Rightarrow> Inr (Inr account, db)
     | None \<Rightarrow>
         rbind (if db_accounts db = [] then Inr True else settings_bool su ''identity.allow_signup'')
           (\<lambda>signup_open.
         if \<not> signup_open then Inr (refuse_with signup_closed None, db)
         else rbind (insert_account account_id (su_now su) (pi_display_name p) db) (\<lambda>(account, db1).
              rbind (insert_identity identity_id (su_now su) (acc_id account) (pi_provider_id p)
                (pi_subject p) (pi_email p) (pi_email_verified p) db1) (\<lambda>(_, db2).
              Inr (Inr account, db2)))))"

definition resolve_or_create :: "surroundings \<Rightarrow> uuid \<Rightarrow> uuid \<Rightarrow> provider_identity
    \<Rightarrow> (cluster, account_row refusable) action" where
  "resolve_or_create su account_id identity_id p c = (case known_account p (cl_control c) of
       Inl e \<Rightarrow> (Inl e, c)
     | Inr (Some account) \<Rightarrow> (Inr (Inr account), c)
     | Inr None \<Rightarrow> control_tx (create_under_lock su account_id identity_id p) c)"

definition github_provider_id :: string where "github_provider_id = ''github''"

definition sync_providers :: "settings_registry \<Rightarrow> (string \<times> pyval) list \<Rightarrow> control_db \<Rightarrow> control_db result" where
  "sync_providers r vals db =
     rbind (get_bool r vals ''identity.providers.github.enabled'') (\<lambda>enabled.
     rbind (get_str r vals ''identity.providers.github.client_id'') (\<lambda>client_id.
     if \<not> enabled \<or> client_id = [] then Inr db
     else rbind (get_str r vals ''identity.providers.github.client_secret_ref'') (\<lambda>client_secret_ref.
       Inr (snd (upsert_identity_provider github_provider_id enabled client_id client_secret_ref db)))))"

section \<open>Accounts and identities only accumulate\<close>

definition people_follow :: "control_db \<Rightarrow> control_db \<Rightarrow> bool" where
  "people_follow db db' = (set (db_accounts db) \<subseteq> set (db_accounts db')
     \<and> set (db_identities db) \<subseteq> set (db_identities db'))"

lemma people_follow_append:
  "db_accounts db' = db_accounts db @ xs \<Longrightarrow> db_identities db' = db_identities db @ ys \<Longrightarrow> people_follow db db'"
  by (simp add: people_follow_def)

lemmas people_same = people_follow_append [where xs = "[]" and ys = "[]", simplified]

lemma control_step_people: "control_step db db' \<Longrightarrow> people_follow db db'"
proof (induction rule: control_step.induct)
  case (step_account i now name db row db')
  then show ?case by (intro people_follow_append [where xs = "[row]" and ys = "[]"])
      (auto simp: insert_account_def put_account_def Let_def)
next
  case (step_identity i now a p subj email verified db row db')
  then show ?case by (intro people_follow_append [where xs = "[]" and ys = "[row]"])
      (auto dest!: insert_identity_InrD simp: put_identity_def)
next
  case step_workspace
  then show ?case by (intro people_same) (auto dest!: insert_workspace_InrD simp: put_workspace_def split: if_splits)
next
  case step_state
  then show ?case by (intro people_same) (auto dest!: set_workspace_state_InrD)
next
  case step_membership
  then show ?case by (intro people_same) (auto dest!: insert_membership_InrD simp: put_membership_def split: if_splits)
next
  case step_session
  then show ?case by (intro people_same) (auto simp: insert_session_def put_session_def Let_def)
next
  case step_touch
  then show ?case by (intro people_same) (auto simp: touch_session_def update_session_def)
next
  case step_revoke
  then show ?case by (intro people_same) (auto simp: revoke_session_def update_session_def)
next
  case step_active
  then show ?case by (intro people_same) (auto simp: set_active_workspace_def update_session_def)
next
  case step_secret
  then show ?case by (intro people_same) (auto dest!: insert_session_secret_InrD simp: put_secret_def)
next
  case step_grant
  then show ?case by (intro people_same) (auto dest!: insert_session_grant_InrD simp: put_grant_def)
next
  case step_consume
  then show ?case by (intro people_same) (auto simp: consume_session_grant_def Let_def)
next
  case step_provider
  then show ?case by (intro people_same) (auto simp: upsert_identity_provider_def put_provider_def Let_def)
next
  case step_token
  then show ?case by (intro people_same) (auto dest!: insert_access_token_InrD simp: put_token_def)
next
  case step_revoke_token
  then show ?case by (intro people_same) (auto simp: revoke_access_token_def update_token_def)
next
  case step_touch_token
  then show ?case by (intro people_same) (auto simp: touch_access_token_last_used_def update_token_def)
next
  case step_token_operations
  then show ?case
    by (intro people_same) (auto simp: insert_access_token_operations_def put_token_operations_def split: if_splits)
qed

lemma control_steps_people: "control_step\<^sup>*\<^sup>* db db' \<Longrightarrow> people_follow db db'"
proof (induction rule: rtranclp_induct)
  case (step y z)
  then show ?case using control_step_people [OF step.hyps(2)] by (auto simp: people_follow_def)
qed (simp add: people_follow_def)

lemma find_found: "find p xs = Some x \<Longrightarrow> x \<in> set xs \<and> p x"
  by (induction xs) (auto split: if_splits)

lemma known_account_stays:
  assumes "control_ok later" and "people_follow db later" and "known_account p db = Inr (Some account)"
  shows "known_account p later = Inr (Some account)"
proof -
  obtain row where row: "get_identity (pi_provider_id p) (pi_subject p) db = Some row"
      "get_account (idn_account_id row) db = Some account"
    using assms(3) by (auto simp: known_account_def split: option.splits)
  let ?key = "\<lambda>r. (idn_provider_id r, idn_provider_subject r)"
  have r: "row \<in> set (db_identities later)" "?key row = (pi_provider_id p, pi_subject p)"
    and a: "account \<in> set (db_accounts later)" "acc_id account = idn_account_id row"
    using row assms(2) by (auto simp: get_identity_def get_account_def people_follow_def dest!: find_found)
  have d: "distinct (map ?key (db_identities later))" "distinct (map acc_id (db_accounts later))"
    using assms(1) by (simp_all add: control_ok_def keys_ok_def)
  have "get_identity (pi_provider_id p) (pi_subject p) later = Some row"
    using find_unique [OF d(1) r(1)] r(2) by (simp add: get_identity_def)
  moreover have "get_account (idn_account_id row) later = Some account"
    using find_unique [OF d(2) a(1)] a(2) by (simp add: get_account_def)
  ultimately show ?thesis by (simp add: known_account_def)
qed

lemma create_under_lock_InrD:
  assumes "control_ok db" and "create_under_lock su i j p db = Inr (Inr account, db')"
  shows "control_step\<^sup>*\<^sup>* db db' \<and> known_account p db' = Inr (Some account)"
proof (cases "known_account p db = Inr (Some account)")
  case True
  then show ?thesis using assms(2) by (auto simp: create_under_lock_def)
next
  case False
  have none: "known_account p db = Inr None"
  proof (cases "known_account p db")
    case (Inr x)
    then show ?thesis using assms(2) False by (cases x) (auto simp: create_under_lock_def)
  qed (use assms(2) in \<open>simp add: create_under_lock_def\<close>)
  obtain db1 irow where acc: "insert_account i (su_now su) (pi_display_name p) db = Inr (account, db1)"
    and idn: "insert_identity j (su_now su) (acc_id account) (pi_provider_id p) (pi_subject p)
        (pi_email p) (pi_email_verified p) db1 = Inr (irow, db')"
    using assms(2) none by (auto simp: create_under_lock_def split: if_splits)
  have steps: "control_step db db1" "control_step db1 db'"
    using acc idn by (auto intro: control_step.step_account control_step.step_identity)
  then have reach: "control_step\<^sup>*\<^sup>* db db'" by (meson converse_rtranclp_into_rtranclp r_into_rtranclp)
  have ok: "control_ok db'" using control_steps_ok [OF reach assms(1)] .
  have "db_accounts db1 = db_accounts db @ [account]" "db_identities db1 = db_identities db"
    using acc by (auto simp: insert_account_def put_account_def Let_def)
  moreover have "db_accounts db' = db_accounts db1" "db_identities db' = db_identities db1 @ [irow]"
      "idn_provider_id irow = pi_provider_id p" "idn_provider_subject irow = pi_subject p"
      "idn_account_id irow = acc_id account"
    using idn by (auto simp: insert_identity_def put_identity_def Let_def split: sum.splits py_exc.splits violation.splits)
  moreover have "get_identity (pi_provider_id p) (pi_subject p) db = None"
    using none by (auto simp: known_account_def split: option.splits)
  moreover have "distinct (map acc_id (db_accounts db'))" using ok by (simp add: control_ok_def keys_ok_def)
  ultimately have "get_identity (pi_provider_id p) (pi_subject p) db' = Some irow"
      "get_account (idn_account_id irow) db' = Some account"
    using find_unique [of acc_id "db_accounts db'" account]
    by (simp_all add: get_identity_def get_account_def find_append)
  then show ?thesis using reach by (simp add: known_account_def)
qed

lemma resolve_or_create_InrD:
  assumes "control_ok (cl_control c)" and "resolve_or_create su i j p c = (Inr (Inr account), c')"
  shows "control_step\<^sup>*\<^sup>* (cl_control c) (cl_control c')" and "known_account p (cl_control c') = Inr (Some account)"
proof -
  have "control_step\<^sup>*\<^sup>* (cl_control c) (cl_control c') \<and> known_account p (cl_control c') = Inr (Some account)"
  proof (cases "known_account p (cl_control c)")
    case (Inr x)
    then show ?thesis
      using assms(2) create_under_lock_InrD [OF assms(1), of su i j p account]
      by (cases x) (auto simp: resolve_or_create_def control_tx_def split: sum.splits)
  qed (use assms(2) in \<open>simp add: resolve_or_create_def\<close>)
  then show "control_step\<^sup>*\<^sup>* (cl_control c) (cl_control c')" and "known_account p (cl_control c') = Inr (Some account)"
    by simp_all
qed

lemma known_account_row: "known_account p db = Inr (Some account) \<Longrightarrow> acc_id account \<in> account_ids db"
  by (auto simp: known_account_def get_account_def account_ids_def split: option.splits dest!: find_found)

text \<open>
  C37: a person is one account. When \<open>resolve_or_create\<close> returns an account for an identity, the
  control plane has moved by control-plane steps only and knows the identity under that account;
  and from every later state of the control plane, with whatever settings, clock and fresh
  identifiers, before or after the lock is taken, the same identity resolves to the same
  account and nothing is written. So a second login that raced the first one for the lock finds
  the first one's account instead of creating another.
\<close>

theorem one_account_per_identity:
  assumes "control_ok (cl_control c)" and "resolve_or_create su i j p c = (Inr (Inr account), c')"
    and "control_step\<^sup>*\<^sup>* (cl_control c') (cl_control later)"
  shows "control_step\<^sup>*\<^sup>* (cl_control c) (cl_control c')
     \<and> resolve_or_create su' i' j' p later = (Inr (Inr account), later)
     \<and> create_under_lock su' i' j' p (cl_control later) = Inr (Inr account, cl_control later)"
proof -
  note first = resolve_or_create_InrD [OF assms(1,2)]
  have "control_ok (cl_control later)"
    using first control_steps_ok assms(1,3) by blast
  then have known: "known_account p (cl_control later) = Inr (Some account)"
    using known_account_stays [OF _ control_steps_people [OF assms(3)] first(2)] by blast
  then show ?thesis using first by (simp add: resolve_or_create_def create_under_lock_def)
qed

text \<open>
  While signup is closed only the first account is ever made. With
  \<open>identity.allow_signup\<close> false and an account already present, no sign-in changes the control
  plane or a workspace database: a known identity gets its account, an unknown one is refused
  \<open>signup_closed\<close>, and the locked transaction decides the same way.
\<close>

theorem closed_signup_creates_nothing:
  assumes "settings_bool su ''identity.allow_signup'' = Inr False" and "db_accounts (cl_control c) \<noteq> []"
  shows "snd (resolve_or_create su i j p c) = c \<and>
     (fst (resolve_or_create su i j p c) =
       (case known_account p (cl_control c) of
          Inl e \<Rightarrow> Inl e
        | Inr (Some account) \<Rightarrow> Inr (Inr account)
        | Inr None \<Rightarrow> Inr (refuse_with signup_closed None)))"
  using assms
  by (auto simp: resolve_or_create_def control_tx_def create_under_lock_def split: sum.splits option.splits)

text \<open>
  A display name of blanks, which a provider profile may carry, is not caught on the way: the
  first sign-in raises \<open>ValueError\<close> out of \<open>resolve_or_create\<close>.
\<close>

lemma blank_display_name_raises:
  assumes "known_account p (cl_control c) = Inr None" and "db_accounts (cl_control c) = []"
    and "strip (pi_display_name p) = []"
  shows "resolve_or_create su i j p c = (Inl (ValueError ''an account needs a non-empty display name''), c)"
  using assms by (simp add: resolve_or_create_def control_tx_def create_under_lock_def insert_account_def)

section \<open>Examples\<close>

definition octocat :: provider_identity where
  "octocat = \<lparr>pi_provider_id = github_provider_id, pi_subject = ''583231'', pi_email = None,
     pi_email_verified = False, pi_display_name = ''Octocat''\<rparr>"

definition empty_cluster :: cluster where
  "empty_cluster = \<lparr>cl_control = empty_control_db, cl_databases = []\<rparr>"

definition octocat_account :: account_row where
  "octocat_account = \<lparr>acc_id = 7, acc_display_name = ''Octocat'', acc_created_at = 0, acc_disabled_at = None\<rparr>"

definition plain_surroundings :: surroundings where
  "plain_surroundings = \<lparr>su_registry = core_registry, su_layer = Inr [], su_now = 0, su_sha256 = id\<rparr>"

lemma sample_first_login:
  "fst (resolve_or_create plain_surroundings 7 8 octocat empty_cluster) = Inr (Inr octocat_account)"
  by code_simp

theorem one_account_per_identity_witness:
  "resolve_or_create plain_surroundings 1 2 octocat (snd (resolve_or_create plain_surroundings 7 8 octocat empty_cluster))
     = (Inr (Inr octocat_account), snd (resolve_or_create plain_surroundings 7 8 octocat empty_cluster))"
proof -
  have "resolve_or_create plain_surroundings 7 8 octocat empty_cluster = (Inr (Inr octocat_account),
      snd (resolve_or_create plain_surroundings 7 8 octocat empty_cluster))"
    using sample_first_login by (metis prod.collapse)
  from one_account_per_identity [OF _ this rtranclp.rtrancl_refl] show ?thesis
    using control_ok_empty by (simp add: empty_cluster_def)
qed

theorem closed_signup_creates_nothing_witness:
  "snd (resolve_or_create plain_surroundings 1 2 octocat
      \<lparr>cl_control = empty_control_db\<lparr>db_accounts := [octocat_account]\<rparr>, cl_databases = []\<rparr>)
     = \<lparr>cl_control = empty_control_db\<lparr>db_accounts := [octocat_account]\<rparr>, cl_databases = []\<rparr>"
proof -
  have "settings_bool plain_surroundings ''identity.allow_signup'' = Inr False" by code_simp
  from closed_signup_creates_nothing [OF this] show ?thesis by simp
qed

end
