(* ===== verification/Github_Provider.thy ===== *)
theory Github_Provider
  imports Secrets Identity
begin

text \<open>
  The identity-provider boundary (\<open>identity/boundary.py\<close>) and its GitHub implementation
  (\<open>identity/providers/github.py\<close>). The HTTP client is the parameter \<open>gh_client\<close>: what the token
  exchange, the user and the e-mail request return, each possibly an exception.
\<close>

record provider =
  pr_begin :: "string \<Rightarrow> string \<Rightarrow> string result"
  pr_complete :: "(string \<times> string) list \<Rightarrow> string \<Rightarrow> provider_identity result"

record github_user =
  gu_id :: string
  gu_name :: "string option"
  gu_login :: "string option"

record github_email =
  ge_email :: "string option"
  ge_primary :: bool
  ge_verified :: bool

text \<open>
  \<open>gc_token\<close> takes the client id, the client secret and the code; a secret that is not UTF-8 is
  among its failures.
\<close>

record github_client =
  gc_token :: "string \<Rightarrow> bytes \<Rightarrow> string \<Rightarrow> string result"
  gc_user :: "string \<Rightarrow> github_user result"
  gc_emails :: "string \<Rightarrow> github_email list result"

definition authorize_url :: string where
  "authorize_url = ''https://github.com/login/oauth/authorize''"

definition oauth_scope :: string where "oauth_scope = ''read:user user:email''"

definition github_scope :: "secret_scope result" where
  "github_scope = scope_for ''identity.github''
     [''secret://file/identity/github/'', ''secret://env/RHEO_GITHUB_CLIENT_SECRET'']"

definition github_begin :: "string \<Rightarrow> string \<Rightarrow> string \<Rightarrow> string result" where
  "github_begin client_id state callback_url = Inr (authorize_url @ ''?'' @ urlencode
     [(''client_id'', client_id), (''redirect_uri'', callback_url), (''scope'', oauth_scope), (''state'', state)])"

text \<open>Python's \<open>or\<close> on an optional string.\<close>

definition or_else :: "string option \<Rightarrow> string \<Rightarrow> string" where
  "or_else x d = (case x of None \<Rightarrow> d | Some s \<Rightarrow> if s = [] then d else s)"

definition github_complete :: "secret_store \<Rightarrow> github_client \<Rightarrow> string \<Rightarrow> secret_ref \<Rightarrow> secret_scope
    \<Rightarrow> (string \<times> string) list \<Rightarrow> string \<Rightarrow> provider_identity result" where
  "github_complete store client client_id ref sc params state =
     (let code = or_else (map_of params ''code'') [] in
      ensure (code \<noteq> []) (ValueError ''github callback carries no code'')
      (rbind (resolve_secret store ref sc) (\<lambda>secret.
       rbind (gc_token client client_id secret code) (\<lambda>access_token.
       rbind (gc_user client access_token) (\<lambda>user.
       rbind (gc_emails client access_token) (\<lambda>rows.
       let primary = find (\<lambda>r. ge_primary r \<and> ge_verified r) rows in
       Inr \<lparr>pi_provider_id = github_provider_id, pi_subject = gu_id user,
            pi_email = (case primary of None \<Rightarrow> None | Some r \<Rightarrow> ge_email r),
            pi_email_verified = (primary \<noteq> None),
            pi_display_name = or_else (gu_name user) (or_else (gu_login user) (gu_id user))\<rparr>))))))"

text \<open>The constructor: it parses the reference, so a malformed one raises here.\<close>

definition github_provider :: "secret_store \<Rightarrow> github_client \<Rightarrow> string \<Rightarrow> string \<Rightarrow> provider result" where
  "github_provider store client client_id client_secret_ref =
     rbind (parse_secret_ref client_secret_ref) (\<lambda>ref.
     rbind github_scope (\<lambda>sc.
     Inr \<lparr>pr_begin = github_begin client_id, pr_complete = github_complete store client client_id ref sc\<rparr>))"

text \<open>\<open>resolve_identity_provider\<close>, the dependency of the login and callback routes.\<close>

definition resolve_identity_provider :: "surroundings \<Rightarrow> secret_store \<Rightarrow> github_client \<Rightarrow> provider result" where
  "resolve_identity_provider su store client =
     rbind (settings_bool su ''identity.providers.github.enabled'') (\<lambda>enabled.
     ensure enabled (RuntimeError (''no identity provider is configured: ''
         @ ''identity.providers.github.enabled is false''))
     (rbind (settings_str su ''identity.providers.github.client_id'') (\<lambda>client_id.
      rbind (settings_str su ''identity.providers.github.client_secret_ref'') (\<lambda>ref.
      github_provider store client client_id ref))))"

section \<open>The secret stays with the provider\<close>

lemma github_scope_eq:
  "github_scope = Inr \<lparr>sc_component = ''identity.github'',
     sc_prefixes = [''secret://file/identity/github/'', ''secret://env/RHEO_GITHUB_CLIENT_SECRET'']\<rparr>"
  by (simp add: github_scope_def scope_for_def prefix_roots_def startswith_def scheme_def backend_value_def)

lemma find_present: "find p xs \<noteq> None \<longleftrightarrow> (\<exists>x \<in> set xs. p x)"
  by (induction xs) auto

text \<open>
  A provider built from the settings reads its client secret only through a reference its own
  scope permits, and calls an e-mail address verified only when GitHub marks that very row
  primary and verified.
\<close>

lemma github_identity_sound:
  assumes "github_provider store client client_id text_ref = Inr p" and "pr_complete p params state = Inr person"
  shows "\<exists>ref sc secret token. parse_secret_ref text_ref = Inr ref \<and> github_scope = Inr sc \<and> permits sc ref
     \<and> resolve_secret store ref sc = Inr secret
     \<and> gc_token client client_id secret (or_else (map_of params ''code'') []) = Inr token
     \<and> pi_provider_id person = github_provider_id
     \<and> (\<exists>rows. gc_emails client token = Inr rows
        \<and> (pi_email_verified person \<longleftrightarrow> (\<exists>r \<in> set rows. ge_primary r \<and> ge_verified r))
        \<and> (\<forall>e. pi_email person = Some e \<longrightarrow>
             (\<exists>r \<in> set rows. ge_primary r \<and> ge_verified r \<and> ge_email r = Some e)))"
proof -
  obtain ref sc where p: "parse_secret_ref text_ref = Inr ref" "github_scope = Inr sc"
    "p = \<lparr>pr_begin = github_begin client_id, pr_complete = github_complete store client client_id ref sc\<rparr>"
    using assms(1) by (auto simp: github_provider_def)
  obtain secret token rows where r: "resolve_secret store ref sc = Inr secret"
      "gc_token client client_id secret (or_else (map_of params ''code'') []) = Inr token"
      "gc_emails client token = Inr rows"
    and person: "pi_provider_id person = github_provider_id"
      "pi_email person = (case find (\<lambda>r. ge_primary r \<and> ge_verified r) rows of None \<Rightarrow> None | Some r \<Rightarrow> ge_email r)"
      "pi_email_verified person = (find (\<lambda>r. ge_primary r \<and> ge_verified r) rows \<noteq> None)"
    using assms(2) p(3) by (auto simp: github_complete_def Let_def simp del: not_None_eq)
  have "permits sc ref" using r(1) by (simp add: resolve_secret_def)
  moreover have "pi_email_verified person \<longleftrightarrow> (\<exists>r \<in> set rows. ge_primary r \<and> ge_verified r)"
    by (simp add: person find_present del: not_None_eq)
  moreover have "\<exists>r \<in> set rows. ge_primary r \<and> ge_verified r \<and> ge_email r = Some e" if "pi_email person = Some e" for e
    using that by (auto simp: person split: option.splits dest!: find_found)
  ultimately show ?thesis using p r person by auto
qed

lemma github_empty_code: "map_of params ''code'' \<in> {None, Some []} \<Longrightarrow>
    github_complete store client client_id ref sc params state = Inl (ValueError ''github callback carries no code'')"
  by (auto simp: github_complete_def or_else_def)

end
