(* ===== verification/Auth_Routes.thy ===== *)
theory Auth_Routes
  imports Routing Github_Provider Factories
begin

text \<open>
  \<open>apps/core/src/rheo_app_core/auth_routes.py\<close>: the \<open>/auth/*\<close> routes. A request is what the
  handlers read of it and a response what they set; the framework's own parsing (headers,
  cookies, query parameters, the \<open>422\<close> for a missing parameter) and its percent-encoding of the
  redirect target are outside. Each control-plane call is one committed transaction, so a
  handler that raises half-way leaves what it committed. Fresh random bytes and identifiers are
  the record \<open>draws\<close>.
\<close>

section \<open>Requests and responses\<close>

record request =
  rq_host :: "string option"
  rq_url_host :: "string option"
  rq_origin :: "string option"
  rq_cookies :: "(string \<times> string) list"
  rq_query :: "(string \<times> string) list"

record response =
  rs_status :: nat
  rs_body :: "(string \<times> string) list"
  rs_location :: "string option"
  rs_set_cookies :: "string list"

record draws =
  dr_state :: bytes
  dr_secret :: bytes
  dr_code :: bytes
  dr_session :: uuid
  dr_account :: uuid
  dr_identity :: uuid

definition refused :: "string \<Rightarrow> nat \<Rightarrow> response" where
  "refused st status = \<lparr>rs_status = status, rs_body = [(''state'', st)], rs_location = None, rs_set_cookies = []\<rparr>"

definition redirect :: "string \<Rightarrow> string list \<Rightarrow> response" where
  "redirect url cookies = \<lparr>rs_status = 302, rs_body = [], rs_location = Some url, rs_set_cookies = cookies\<rparr>"

definition origin_not_allowed :: string where "origin_not_allowed = ''origin_not_allowed''"

definition current_host :: "request \<Rightarrow> string" where
  "current_host rq = normalize_host (or_else (rq_host rq) (or_else (rq_url_host rq) []))"

definition identity_host :: "routing_config \<Rightarrow> string" where
  "identity_host config = (case rc_mode config of
       Path_Mode \<Rightarrow> rc_base_host config
     | Subdomain_Mode \<Rightarrow> sf_host (sv_identity (rc_surfaces config)) @ ''.'' @ rc_base_host config)"

definition clear :: "surroundings \<Rightarrow> string \<Rightarrow> routing_config \<Rightarrow> string result" where
  "clear su name config = build_cookie su name [] (rc_scheme config)"

definition session_row_from_cookie :: "surroundings \<Rightarrow> request \<Rightarrow> string \<Rightarrow> control_db \<Rightarrow> session_row option" where
  "session_row_from_cookie su rq host db =
     (let secret_hex = or_else (map_of (rq_cookies rq) session_cookie) [] in
      if secret_hex = [] then None
      else (case bytes_fromhex secret_hex of
          None \<Rightarrow> None
        | Some secret \<Rightarrow> (case get_session_by_secret_hash (su_sha256 su secret) host db of
            None \<Rightarrow> None
          | Some row \<Rightarrow> if ses_expires_at row \<le> su_now su \<or> ses_revoked_at row \<noteq> None then None else Some row)))"

text \<open>\<open>_check_origin\<close>: \<open>None\<close> lets the request through.\<close>

definition check_request_origin :: "request \<Rightarrow> routing_config \<Rightarrow> response option result" where
  "check_request_origin rq config =
     rbind (case rq_origin rq of
         None \<Rightarrow> Inr []
       | Some origin \<Rightarrow> if origin = [] then Inr []
           else rbind (urlsplit origin) (\<lambda>u. Inr (normalize_host (hostname u)))) (\<lambda>host.
     Inr (if host = [] \<or> \<not> is_application_host config host
          then Some (refused origin_not_allowed 403) else None))"

section \<open>GET /auth/login\<close>

definition login :: "surroundings \<Rightarrow> draws \<Rightarrow> provider \<Rightarrow> string option \<Rightarrow> response result" where
  "login su dr provider return_target =
     rbind (current_routing su) (\<lambda>config.
     rbind (if or_else return_target [] = [] then url_for config shell ''/''
            else Inr (or_else return_target [])) (\<lambda>target.
     rbind (return_host target) (\<lambda>host.
     if \<not> is_application_host config host then Inr (refused invalid_return 400)
     else
       let state = token_urlsafe (dr_state dr) in
       rbind (url_for config identity ''/callback'') (\<lambda>callback_url.
       rbind (pr_begin provider state callback_url) (\<lambda>redirect_target.
       rbind (build_cookie su oauth_state_cookie (state @ ''.'' @ quote target) (rc_scheme config)) (\<lambda>cookie.
       Inr (redirect redirect_target [cookie])))))))"

section \<open>GET /auth/callback\<close>

text \<open>\<open>secrets.compare_digest\<close> of two strings.\<close>

definition compare_digest :: "string \<Rightarrow> string \<Rightarrow> bool result" where
  "compare_digest a b = ensure (list_all is_ascii a \<and> list_all is_ascii b)
     (TypeError ''comparing strings with non-ASCII characters is not supported'') (Inr (a = b))"

text \<open>Where the callback returns to: the cookie's target when it names an application host.\<close>

definition callback_target :: "routing_config \<Rightarrow> (string \<Rightarrow> string) \<Rightarrow> string \<Rightarrow> string result" where
  "callback_target config wide encoded_return =
     (let return_target = unquote wide encoded_return in
      if return_target = [] then url_for config shell ''/''
      else rbind (return_host return_target) (\<lambda>host.
        if is_application_host config host then Inr return_target else url_for config shell ''/''))"

text \<open>What follows the provider's answer: the account, its session and this host's secret.\<close>

definition sign_in :: "surroundings \<Rightarrow> draws \<Rightarrow> routing_config \<Rightarrow> request \<Rightarrow> provider_identity \<Rightarrow> string
    \<Rightarrow> (cluster, response) action" where
  "sign_in su dr config rq person return_target =
     act_bind (resolve_or_create su (dr_account dr) (dr_identity dr) person) (\<lambda>account.
     case account of
       Inl refusal \<Rightarrow>
         act_bind (lift_result (clear su oauth_state_cookie config)) (\<lambda>cleared.
         act_return ((refused (rf_state refusal) 403)\<lparr>rs_set_cookies := [cleared]\<rparr>))
     | Inr row \<Rightarrow>
         act_bind (control_tx (create_session su (dr_session dr) (acc_id row))) (\<lambda>session.
         act_bind (control_tx (mint_host_secret su (dr_secret dr) (ses_id session) (current_host rq))) (\<lambda>secret.
         act_bind (lift_result (build_cookie su session_cookie (bytes_hex secret) (rc_scheme config))) (\<lambda>cookie.
         act_bind (lift_result (clear su oauth_state_cookie config)) (\<lambda>cleared.
         act_return (redirect return_target [cookie, cleared]))))))"

definition callback :: "surroundings \<Rightarrow> draws \<Rightarrow> (string \<Rightarrow> string) \<Rightarrow> provider \<Rightarrow> request
    \<Rightarrow> (cluster, response) action" where
  "callback su dr wide provider rq =
     act_bind (lift_result (current_routing su)) (\<lambda>config.
     let cookie_value = or_else (map_of (rq_cookies rq) oauth_state_cookie) [];
         state = or_else (map_of (rq_query rq) ''state'') [] in
     if state = [] \<or> cookie_value = [] then act_return (refused invalid_state 400)
     else
       let (cookie_state, _, encoded_return) = partition_at (CHR ''.'') cookie_value in
       act_bind (lift_result (compare_digest cookie_state state)) (\<lambda>same.
       if \<not> same then act_return (refused invalid_state 400)
       else
         act_bind (lift_result (callback_target config wide encoded_return)) (\<lambda>return_target.
         act_bind (lift_result (pr_complete provider (rq_query rq) state)) (\<lambda>person.
         sign_in su dr config rq person return_target))))"

section \<open>GET /auth/continue\<close>

definition continue_on_identity_host :: "surroundings \<Rightarrow> draws \<Rightarrow> routing_config \<Rightarrow> request \<Rightarrow> string
    \<Rightarrow> string \<Rightarrow> string \<Rightarrow> (cluster, response) action" where
  "continue_on_identity_host su dr config rq return_target ret_host nonce c =
     (case session_row_from_cookie su rq (current_host rq) (cl_control c) of
        None \<Rightarrow> (Inr (redirect (identity_path config ''/login'' @ ''?''
            @ urlencode [(''return'', return_target)]) []), c)
      | Some row \<Rightarrow>
          if ret_host = current_host rq
          then act_bind (lift_result (path_and_query return_target)) (\<lambda>t. act_return (redirect t [])) c
          else if nonce = [] then (Inr (refused invalid_grant 400), c)
          else act_bind (control_tx (write_grant su (dr_code dr) (ses_id row) ret_host (utf8 nonce)))
            (\<lambda>code. act_return (redirect (rc_scheme config @ ''://'' @ ret_host
              @ identity_path config ''/continue'' @ ''?''
              @ urlencode [(''code'', code), (''return'', return_target)]) [])) c)"

definition continue_on_application_host :: "surroundings \<Rightarrow> draws \<Rightarrow> routing_config \<Rightarrow> request \<Rightarrow> string
    \<Rightarrow> string \<Rightarrow> (cluster, response) action" where
  "continue_on_application_host su dr config rq return_target code =
     (let nonce = or_else (map_of (rq_cookies rq) continue_cookie) []; host = current_host rq in
      if code = [] \<or> nonce = [] then act_return (refused invalid_grant 400)
      else
        act_bind (control_tx (consume_grant su code host (utf8 nonce))) (\<lambda>granted.
        case granted of
          Inl refusal \<Rightarrow> act_return (refused (rf_state refusal) 400)
        | Inr grant \<Rightarrow>
            act_bind (control_tx (mint_host_secret su (dr_secret dr) (gr_session_id grant) host)) (\<lambda>secret.
            act_bind (lift_result (path_and_query return_target)) (\<lambda>target.
            act_bind (lift_result (build_cookie su session_cookie (bytes_hex secret) (rc_scheme config))) (\<lambda>cookie.
            act_bind (lift_result (clear su continue_cookie config)) (\<lambda>cleared.
            act_return (redirect target [cookie, cleared])))))))"

definition continue_flow :: "surroundings \<Rightarrow> draws \<Rightarrow> request \<Rightarrow> string \<Rightarrow> string option \<Rightarrow> string option
    \<Rightarrow> (cluster, response) action" where
  "continue_flow su dr rq return_target nonce code =
     act_bind (lift_result (current_routing su)) (\<lambda>config.
     act_bind (lift_result (return_host return_target)) (\<lambda>ret_host.
     if ret_host = [] \<or> \<not> is_application_host config ret_host
     then act_return (refused invalid_return 400)
     else if current_host rq = identity_host config
     then continue_on_identity_host su dr config rq return_target ret_host (or_else nonce [])
     else continue_on_application_host su dr config rq return_target (or_else code [])))"

section \<open>POST /auth/logout and POST /auth/session/workspace\<close>

definition logout :: "surroundings \<Rightarrow> request \<Rightarrow> (cluster, response) action" where
  "logout su rq =
     act_bind (lift_result (current_routing su)) (\<lambda>config.
     act_bind (lift_result (check_request_origin rq config)) (\<lambda>refusal.
     case refusal of
       Some r \<Rightarrow> act_return r
     | None \<Rightarrow>
         act_bind (\<lambda>c. case session_row_from_cookie su rq (current_host rq) (cl_control c) of
             None \<Rightarrow> act_return () c
           | Some row \<Rightarrow> control_tx (revoke su (ses_id row)) c) (\<lambda>_.
         act_bind (lift_result (url_for config shell ''/login'')) (\<lambda>target.
         act_bind (lift_result (clear su session_cookie config)) (\<lambda>cleared.
         act_return (redirect target [cleared]))))))"

definition session_workspace :: "surroundings \<Rightarrow> request \<Rightarrow> uuid \<Rightarrow> (cluster, response) action" where
  "session_workspace su rq target_workspace_id =
     act_bind (lift_result (current_routing su)) (\<lambda>config.
     act_bind (lift_result (check_request_origin rq config)) (\<lambda>refusal.
     case refusal of
       Some r \<Rightarrow> act_return r
     | None \<Rightarrow> (\<lambda>c. case session_row_from_cookie su rq (current_host rq) (cl_control c) of
           None \<Rightarrow> act_return (refused session_missing 401) c
         | Some row \<Rightarrow>
             act_bind (control_tx (switch_workspace su (ses_id row) target_workspace_id)) (\<lambda>outcome.
             case outcome of
               Some r \<Rightarrow> act_bind (act_ensure (rf_state r = not_a_member) AssertionError) (\<lambda>_.
                 act_return (refused (rf_state r) 403))
             | None \<Rightarrow> act_return \<lparr>rs_status = 200, rs_body = [(''state'', ''ok''),
                 (''active_workspace_id'', uuid_str target_workspace_id)], rs_location = None,
                 rs_set_cookies = []\<rparr>) c)))"

section \<open>Text that travels in cookies and queries\<close>

lemma b64_encode_chars: "c \<in> set (b64_encode bs) \<Longrightarrow> is_b64 c \<or> c = CHR ''=''"
  by (induction bs rule: b64_encode.induct) (auto simp: pad_def sextets)

lemma b64_encode_hd: "bs \<noteq> [] \<Longrightarrow> b64_encode bs \<noteq> [] \<and> hd (b64_encode bs) \<noteq> CHR ''=''"
  by (cases bs rule: b64_encode.cases) (auto simp: sextets)

lemma token_urlsafe_chars: "c \<in> set (token_urlsafe bs) \<Longrightarrow> is_b64 c \<or> c = CHR ''=''"
  using b64_encode_chars [of c bs] by (auto simp: token_urlsafe_def rstrip_pad_def dest!: set_dropWhileD)

lemma token_urlsafe_ascii: "c \<in> set (token_urlsafe bs) \<Longrightarrow> is_ascii c \<and> c \<noteq> CHR ''.''"
  using token_urlsafe_chars [of c bs]
  by (auto simp: is_b64_def is_ascii_def is_upper_def is_lower_def is_digit_def less_eq_char_def)

lemma token_urlsafe_nonempty: "bs \<noteq> [] \<Longrightarrow> token_urlsafe bs \<noteq> []"
proof -
  assume "bs \<noteq> []"
  then obtain c cs where c: "b64_encode bs = c # cs" "c \<noteq> CHR ''=''"
    using b64_encode_hd [of bs] by (cases "b64_encode bs") auto
  then show ?thesis by (auto simp: token_urlsafe_def rstrip_pad_def dropWhile_eq_Nil_conv pad_def)
qed

lemma encode_token: "encode_ascii (token_urlsafe bs) = Inr (map char_byte (token_urlsafe bs))"
  using token_urlsafe_ascii by (auto simp: encode_ascii_def ensure_def list_all_iff is_ascii_def)

section \<open>The two legs of a sign-in on another host\<close>

text \<open>The grant the identity host writes, and the state of the control plane after each leg.\<close>

definition hop_grant :: "surroundings \<Rightarrow> draws \<Rightarrow> uuid \<Rightarrow> string \<Rightarrow> string \<Rightarrow> session_grant_row" where
  "hop_grant su dr session host nonce = \<lparr>gr_code_hash = su_sha256 su (map char_byte (token_urlsafe (dr_code dr))),
     gr_session_id = session, gr_target_host = host, gr_nonce_hash = su_sha256 su (utf8 nonce),
     gr_expires_at = su_now su + seconds grant_expiry_seconds, gr_used_at = None\<rparr>"

definition with_grant :: "session_grant_row \<Rightarrow> control_db \<Rightarrow> control_db" where
  "with_grant g db = db\<lparr>db_grants := db_grants db @ [g]\<rparr>"

lemma write_grant_eq:
  assumes "gr_code_hash g \<notin> set (map gr_code_hash (db_grants db))" and "session \<in> session_ids db"
    and "g = hop_grant su dr session host nonce"
  shows "write_grant su (dr_code dr) session host (utf8 nonce) db = Inr (token_urlsafe (dr_code dr), with_grant g db)"
  using assms
  by (simp add: write_grant_def encode_token insert_session_grant_def Let_def put_grant_def
      check_constraints.simps hop_grant_def with_grant_def)

lemma live_cookie:
  "session_row_from_cookie su rq host db = Some row \<Longrightarrow>
     get_session (ses_id row) db = Some row \<and> ses_id row \<in> session_ids db
     \<and> su_now su < ses_expires_at row \<and> ses_revoked_at row = None"
proof -
  assume a: "session_row_from_cookie su rq host db = Some row"
  then obtain h where "get_session_by_secret_hash h host db = Some row"
    and live: "su_now su < ses_expires_at row \<and> ses_revoked_at row = None"
    by (auto simp: session_row_from_cookie_def Let_def split: if_splits option.splits)
  then obtain i where "get_session i db = Some row" using get_session_by_secret_hash_InrD by blast
  then show ?thesis using live get_session_id [of i db row] by (auto simp: id_defs)
qed

lemma lift_result_Inr: "r = Inr x \<Longrightarrow> lift_result r c = (Inr x, c)"
  by (simp add: lift_result_def)

lemma control_tx_Inr: "f (cl_control c) = Inr (x, db) \<Longrightarrow> control_tx f c = (Inr x, c\<lparr>cl_control := db\<rparr>)"
  by (simp add: control_tx_def)

lemma continue_flow_app:
  assumes "current_routing su = Inr config" and "return_host target = Inr host"
    and "host \<noteq> []" "is_application_host config host"
  shows "continue_flow su dr rq target nonce code c =
     (if current_host rq = identity_host config
      then continue_on_identity_host su dr config rq target host (or_else nonce []) c
      else continue_on_application_host su dr config rq target (or_else code []) c)"
  unfolding continue_flow_def using assms
  by (simp add: lift_result_Inr [OF assms(1)] lift_result_Inr [OF assms(2)])

lemma identity_leg:
  assumes "current_routing su = Inr config" and "return_host target = Inr host"
    and "host \<noteq> []" "is_application_host config host" "host \<noteq> identity_host config"
    and "current_host rq = identity_host config" and "nonce \<noteq> []"
    and "session_row_from_cookie su rq (identity_host config) (cl_control c) = Some row"
    and "gr_code_hash (hop_grant su dr (ses_id row) host nonce) \<notin> set (map gr_code_hash (db_grants (cl_control c)))"
  shows "continue_flow su dr rq target (Some nonce) code c =
     (Inr (redirect (rc_scheme config @ ''://'' @ host @ identity_path config ''/continue'' @ ''?''
        @ urlencode [(''code'', token_urlsafe (dr_code dr)), (''return'', target)]) []),
      c\<lparr>cl_control := with_grant (hop_grant su dr (ses_id row) host nonce) (cl_control c)\<rparr>)"
proof -
  have "write_grant su (dr_code dr) (ses_id row) host (utf8 nonce) (cl_control c) =
      Inr (token_urlsafe (dr_code dr), with_grant (hop_grant su dr (ses_id row) host nonce) (cl_control c))"
    using write_grant_eq [OF assms(9) _ refl] live_cookie [OF assms(8)] by blast
  from control_tx_Inr [of "write_grant su (dr_code dr) (ses_id row) host (utf8 nonce)", OF this]
  show ?thesis using assms(3-8)
    by (simp add: continue_flow_app [OF assms(1,2)] continue_on_identity_host_def or_else_def)
qed

lemma consume_grant_eq:
  assumes "g = hop_grant su dr session host nonce" and "gr_code_hash g \<notin> set (map gr_code_hash (db_grants db))"
    and "su_sha256 su' = su_sha256 su" and "su_now su' < su_now su + seconds grant_expiry_seconds"
  shows "consume_grant su' (token_urlsafe (dr_code dr)) host (utf8 nonce) (with_grant g db) =
     Inr (Inr (g\<lparr>gr_used_at := Some (su_now su')\<rparr>), with_grant (g\<lparr>gr_used_at := Some (su_now su')\<rparr>) db)"
proof -
  let ?p = "\<lambda>r. gr_code_hash r = gr_code_hash g \<and> gr_used_at r = None \<and> gr_expires_at r > su_now su'
      \<and> gr_target_host r = host \<and> gr_nonce_hash r = gr_nonce_hash g"
  let ?f = "\<lambda>r::session_grant_row. r\<lparr>gr_used_at := Some (su_now su')\<rparr>"
  have other: "\<not> ?p r" if "r \<in> set (db_grants db)" for r using assms(2) that by (force simp: image_iff)
  have "find ?p (db_grants db) = None" using other by (simp add: find_None_iff)
  moreover have "update_where ?p ?f (db_grants db) = db_grants db"
    unfolding update_where_def using other by (intro map_idI if_not_P) blast
  moreover have "?p g" using assms(1,4) by (simp add: hop_grant_def)
  ultimately have "consume_session_grant (su_now su') (gr_code_hash g) host (gr_nonce_hash g) (with_grant g db) =
      (Some (?f g), with_grant (?f g) db)"
    by (simp add: consume_session_grant_def with_grant_def Let_def find_append update_where_def)
  then show ?thesis using assms(1,3) by (simp add: consume_grant_def encode_token hop_grant_def)
qed

text \<open>The secret a host holds, and the control plane that has it.\<close>

definition with_secret :: "surroundings \<Rightarrow> bytes \<Rightarrow> uuid \<Rightarrow> string \<Rightarrow> control_db \<Rightarrow> control_db" where
  "with_secret su secret session host db = db\<lparr>db_secrets := db_secrets db @
     [\<lparr>sec_secret_hash = su_sha256 su secret, sec_session_id = session, sec_host = host,
       sec_created_at = su_now su\<rparr>]\<rparr>"

definition secret_is_new :: "surroundings \<Rightarrow> bytes \<Rightarrow> uuid \<Rightarrow> string \<Rightarrow> control_db \<Rightarrow> bool" where
  "secret_is_new su secret session host db =
     (su_sha256 su secret \<notin> set (map sec_secret_hash (db_secrets db))
      \<and> (session, host) \<notin> set (map (\<lambda>r. (sec_session_id r, sec_host r)) (db_secrets db)))"

lemma mint_eq:
  assumes "secret_is_new su secret session host db" and "session \<in> session_ids db"
  shows "mint_host_secret su secret session host db = Inr (secret, with_secret su secret session host db)"
  using assms
  by (auto simp: mint_host_secret_def insert_session_secret_def put_secret_def check_constraints.simps
      secret_is_new_def with_secret_def)

lemma cookie_of_minted:
  assumes "secret_is_new su secret (ses_id row) host db"
    and "get_session (ses_id row) db = Some row" and "secret \<noteq> []"
    and "su_sha256 su' = su_sha256 su" and "su_now su' < ses_expires_at row" and "ses_revoked_at row = None"
    and "map_of (rq_cookies rq) session_cookie = Some (bytes_hex secret)"
  shows "session_row_from_cookie su' rq host (with_secret su secret (ses_id row) host db) = Some row"
proof -
  have "find (\<lambda>r. sec_secret_hash r = su_sha256 su secret \<and> sec_host r = host) (db_secrets db) = None"
    using assms(1) by (force simp: find_None_iff secret_is_new_def image_iff)
  then have "get_session_by_secret_hash (su_sha256 su secret) host (with_secret su secret (ses_id row) host db) = Some row"
    using assms(2) by (simp add: get_session_by_secret_hash_def with_secret_def find_append get_session_def)
  moreover have "bytes_hex secret \<noteq> []" using assms(3) by (cases secret) (simp_all add: bytes_hex_def hex2_def numeral_2_eq_2)
  ultimately show ?thesis using assms by (simp add: session_row_from_cookie_def or_else_def Let_def)
qed

definition can_set_cookies :: "surroundings \<Rightarrow> routing_config \<Rightarrow> bool" where
  "can_set_cookies su config = (rc_scheme config \<noteq> ''http'' \<or> (\<exists>p. profile su = Inr p))"

lemma cookies_built:
  assumes "can_set_cookies su config" and "name \<in> {session_cookie, oauth_state_cookie, continue_cookie}"
  shows "\<exists>cookie. build_cookie su name v (rc_scheme config) = Inr cookie"
proof -
  have "map_of max_age_by_name name \<noteq> None"
    using assms(2) by (auto simp: max_age_by_name_def map_of_eq_None_iff)
  then obtain age where "map_of max_age_by_name name = Some age" by blast
  then show ?thesis using assms(1) by (cases "rc_scheme config = ''http''") (auto simp: build_cookie_def can_set_cookies_def)
qed

lemma application_leg:
  assumes "current_routing su' = Inr config" and "return_host target = Inr host" and "path_and_query target = Inr tail"
    and "host \<noteq> []" "is_application_host config host" "host \<noteq> identity_host config"
    and "current_host rq = host" and "map_of (rq_cookies rq) continue_cookie = Some nonce" and "nonce \<noteq> []"
    and "dr_code dr \<noteq> []" and "can_set_cookies su' config"
    and "su_sha256 su' = su_sha256 su" and "su_now su' < su_now su + seconds grant_expiry_seconds"
    and "cl_control c = with_grant g db" and "g = hop_grant su dr session host nonce"
    and "gr_code_hash g \<notin> set (map gr_code_hash (db_grants db))"
    and "secret_is_new su' (dr_secret dr') session host db" and "session \<in> session_ids db"
  shows "\<exists>cookie cleared. build_cookie su' session_cookie (bytes_hex (dr_secret dr')) (rc_scheme config) = Inr cookie
     \<and> continue_flow su' dr' rq target n (Some (token_urlsafe (dr_code dr))) c =
       (Inr (redirect tail [cookie, cleared]),
        c\<lparr>cl_control := with_secret su' (dr_secret dr') session host
            (with_grant (g\<lparr>gr_used_at := Some (su_now su')\<rparr>) db)\<rparr>)"
proof -
  let ?used = "with_grant (g\<lparr>gr_used_at := Some (su_now su')\<rparr>) db"
  obtain cookie cleared where cookies:
      "build_cookie su' session_cookie (bytes_hex (dr_secret dr')) (rc_scheme config) = Inr cookie"
      "clear su' continue_cookie config = Inr cleared"
    using cookies_built [OF assms(11)] by (metis clear_def insertCI)
  have "consume_grant su' (token_urlsafe (dr_code dr)) host (utf8 nonce) (cl_control c) =
      Inr (Inr (g\<lparr>gr_used_at := Some (su_now su')\<rparr>), ?used)"
    using consume_grant_eq [OF assms(15,16,12,13)] assms(14) by simp
  note consumed = control_tx_Inr [of "consume_grant su' (token_urlsafe (dr_code dr)) host (utf8 nonce)", OF this]
  have session: "gr_session_id g = session" using assms(15) by (simp add: hop_grant_def)
  have "mint_host_secret su' (dr_secret dr') (gr_session_id g) host (cl_control (c\<lparr>cl_control := ?used\<rparr>)) =
      Inr (dr_secret dr', with_secret su' (dr_secret dr') session host ?used)"
    using assms(17,18) mint_eq [of su' "dr_secret dr'" session host ?used]
    by (simp add: session secret_is_new_def with_grant_def id_defs)
  from control_tx_Inr [of "mint_host_secret su' (dr_secret dr') (gr_session_id g) host", OF this]
  have minted: "control_tx (mint_host_secret su' (dr_secret dr') (gr_session_id g) host) (c\<lparr>cl_control := ?used\<rparr>)
      = (Inr (dr_secret dr'), c\<lparr>cl_control := with_secret su' (dr_secret dr') session host ?used\<rparr>)" by simp
  have "token_urlsafe (dr_code dr) \<noteq> []" using assms(10) by (rule token_urlsafe_nonempty)
  then show ?thesis using assms(4-9)
    by (intro exI [of _ cookie] exI [of _ cleared])
      (simp add: cookies(1) continue_flow_app [OF assms(1,2)] continue_on_application_host_def or_else_def Let_def
        consumed minted lift_result_Inr [OF assms(3)]
        lift_result_Inr [OF cookies(1)] lift_result_Inr [OF cookies(2)])
qed

lemma spent_grant_refused:
  assumes "current_routing su = Inr config" and "return_host target = Inr host"
    and "host \<noteq> []" "is_application_host config host" "host \<noteq> identity_host config" and "current_host rq = host"
    and "\<forall>r \<in> set (db_grants (cl_control c)).
      gr_code_hash r = su_sha256 su (map char_byte (token_urlsafe raw)) \<longrightarrow> gr_used_at r \<noteq> None"
  shows "continue_flow su dr rq target n (Some (token_urlsafe raw)) c = (Inr (refused invalid_grant 400), c)"
proof -
  have "consume_grant su (token_urlsafe raw) host nonce (cl_control c) = Inr (refuse_with invalid_grant None, cl_control c)"
    for nonce
    using consume_nothing [of "cl_control c"] assms(7) by (simp add: consume_grant_def encode_token)
  from control_tx_Inr [of "consume_grant su (token_urlsafe raw) host n" for n, OF this]
  show ?thesis using assms(3-6)
    by (simp add: continue_flow_app [OF assms(1,2)] continue_on_application_host_def or_else_def Let_def refuse_with_def)
qed

text \<open>Both legs, whatever the scheme of the return target: the code does not look at it.\<close>

lemma cross_host_hop:
  assumes "current_routing su = Inr config" and "return_host target = Inr host" and "path_and_query target = Inr tail"
    and "host \<noteq> []" "is_application_host config host" "host \<noteq> identity_host config"
    and "current_host rq = identity_host config" and "nonce \<noteq> []"
    and "session_row_from_cookie su rq (identity_host config) (cl_control c) = Some row"
    and "dr_code dr \<noteq> []" "gr_code_hash (hop_grant su dr (ses_id row) host nonce)
      \<notin> set (map gr_code_hash (db_grants (cl_control c)))"
    and "current_routing su' = Inr config" "su_sha256 su' = su_sha256 su" "can_set_cookies su' config"
    and "su_now su' < su_now su + seconds grant_expiry_seconds"
    and "current_host rq' = host" "map_of (rq_cookies rq') continue_cookie = Some nonce"
    and "dr_secret dr' \<noteq> []" "secret_is_new su' (dr_secret dr') (ses_id row) host (cl_control c)"
  shows "\<exists>c1 c2 cookie cleared.
     continue_flow su dr rq target (Some nonce) code c =
       (Inr (redirect (rc_scheme config @ ''://'' @ host @ identity_path config ''/continue'' @ ''?''
         @ urlencode [(''code'', token_urlsafe (dr_code dr)), (''return'', target)]) []), c1)
     \<and> continue_flow su' dr' rq' target n (Some (token_urlsafe (dr_code dr))) c1 = (Inr (redirect tail [cookie, cleared]), c2)
     \<and> build_cookie su' session_cookie (bytes_hex (dr_secret dr')) (rc_scheme config) = Inr cookie
     \<and> (\<forall>su2 rq2. su_sha256 su2 = su_sha256 su \<and> su_now su2 < ses_expires_at row
          \<and> map_of (rq_cookies rq2) session_cookie = Some (bytes_hex (dr_secret dr'))
          \<longrightarrow> session_row_from_cookie su2 rq2 host (cl_control c2) = Some row)
     \<and> (\<forall>dr2. continue_flow su' dr2 rq' target n (Some (token_urlsafe (dr_code dr))) c2 =
          (Inr (refused invalid_grant 400), c2))"
proof -
  let ?db = "cl_control c"
  define g where "g = hop_grant su dr (ses_id row) host nonce"
  define used where "used = g\<lparr>gr_used_at := Some (su_now su')\<rparr>"
  let ?c1 = "c\<lparr>cl_control := with_grant g ?db\<rparr>"
  define c2 where "c2 = ?c1\<lparr>cl_control := with_secret su' (dr_secret dr') (ses_id row) host (with_grant used ?db)\<rparr>"
  have live: "get_session (ses_id row) ?db = Some row" "ses_id row \<in> session_ids ?db" "ses_revoked_at row = None"
    using live_cookie [OF assms(9)] by auto
  have first: "continue_flow su dr rq target (Some nonce) code c =
       (Inr (redirect (rc_scheme config @ ''://'' @ host @ identity_path config ''/continue'' @ ''?''
         @ urlencode [(''code'', token_urlsafe (dr_code dr)), (''return'', target)]) []), ?c1)"
    unfolding g_def by (rule identity_leg [OF assms(1,2,4-9,11)])
  obtain cookie cleared where second:
      "build_cookie su' session_cookie (bytes_hex (dr_secret dr')) (rc_scheme config) = Inr cookie"
      "continue_flow su' dr' rq' target n (Some (token_urlsafe (dr_code dr))) ?c1 = (Inr (redirect tail [cookie, cleared]), c2)"
    using application_leg [OF assms(12,2,3-6,16,17,8,10,14,13,15) _ g_def _ assms(19) live(2),
        where c = ?c1 and n = n] assms(11)
    by (auto simp: g_def c2_def used_def)
  have new: "secret_is_new su' (dr_secret dr') (ses_id row) host (with_grant used ?db)"
    using assms(19) by (simp add: secret_is_new_def with_grant_def)
  have "get_session (ses_id row) (with_grant used ?db) = Some row"
    using live(1) by (simp add: get_session_def with_grant_def)
  then have third: "session_row_from_cookie su2 rq2 host (cl_control c2) = Some row"
    if "su_sha256 su2 = su_sha256 su" "su_now su2 < ses_expires_at row"
      "map_of (rq_cookies rq2) session_cookie = Some (bytes_hex (dr_secret dr'))" for su2 rq2
    using cookie_of_minted [OF new _ assms(18) _ that(2) live(3) that(3)] that(1) assms(13) by (simp add: c2_def)
  have "\<forall>r \<in> set (db_grants (cl_control c2)).
      gr_code_hash r = su_sha256 su' (map char_byte (token_urlsafe (dr_code dr))) \<longrightarrow> gr_used_at r \<noteq> None"
    using assms(11,13)
    by (force simp: c2_def with_secret_def with_grant_def used_def g_def hop_grant_def image_iff)
  from spent_grant_refused [OF assms(12,2,4-6,16) this] have
    "continue_flow su' dr2 rq' target n (Some (token_urlsafe (dr_code dr))) c2 = (Inr (refused invalid_grant 400), c2)" for dr2
    by blast
  then show ?thesis using first second third by blast
qed

text \<open>
  C5: signing in on another application host works, once. From a live session on the identity
  host, and for a return target of the configured scheme, \<open>/auth/continue\<close> there answers with a
  redirect to the other host that carries a fresh code. The same request on that host within a
  minute, with the nonce cookie the code was bound to, sets a session cookie, provided the host
  holds no secret of this session yet (\<open>secret_is_new\<close>; where it does, the route raises, see
  \<open>repeated_hop_raises\<close>). The cookie's value is then recognised on that host as the very session
  that was live, until its deadline; and presenting the code again is refused and changes
  nothing.
\<close>

theorem cross_host_sign_in:
  assumes "current_routing su = Inr config" and "startswith target (rc_scheme config @ ''://'')"
    and "return_host target = Inr host" and "path_and_query target = Inr tail"
    and "host \<noteq> []" "is_application_host config host" "host \<noteq> identity_host config"
    and "current_host rq = identity_host config" and "nonce \<noteq> []"
    and "session_row_from_cookie su rq (identity_host config) (cl_control c) = Some row"
    and "dr_code dr \<noteq> []" "gr_code_hash (hop_grant su dr (ses_id row) host nonce)
      \<notin> set (map gr_code_hash (db_grants (cl_control c)))"
    and "current_routing su' = Inr config" "su_sha256 su' = su_sha256 su" "can_set_cookies su' config"
    and "su_now su' < su_now su + seconds grant_expiry_seconds"
    and "current_host rq' = host" "map_of (rq_cookies rq') continue_cookie = Some nonce"
    and "dr_secret dr' \<noteq> []" "secret_is_new su' (dr_secret dr') (ses_id row) host (cl_control c)"
  shows "\<exists>c1 c2 cookie cleared.
     continue_flow su dr rq target (Some nonce) code c =
       (Inr (redirect (rc_scheme config @ ''://'' @ host @ identity_path config ''/continue'' @ ''?''
         @ urlencode [(''code'', token_urlsafe (dr_code dr)), (''return'', target)]) []), c1)
     \<and> continue_flow su' dr' rq' target n (Some (token_urlsafe (dr_code dr))) c1 = (Inr (redirect tail [cookie, cleared]), c2)
     \<and> build_cookie su' session_cookie (bytes_hex (dr_secret dr')) (rc_scheme config) = Inr cookie
     \<and> (\<forall>su2 rq2. su_sha256 su2 = su_sha256 su \<and> su_now su2 < ses_expires_at row
          \<and> map_of (rq_cookies rq2) session_cookie = Some (bytes_hex (dr_secret dr'))
          \<longrightarrow> session_row_from_cookie su2 rq2 host (cl_control c2) = Some row)
     \<and> (\<forall>dr2. continue_flow su' dr2 rq' target n (Some (token_urlsafe (dr_code dr))) c2 =
          (Inr (refused invalid_grant 400), c2))"
  by (rule cross_host_hop) (fact assms)+

section \<open>The login round trip\<close>

lemma sign_in_location:
  "sign_in su dr config rq person target c = (Inr r, c') \<Longrightarrow> rs_status r = 302 \<Longrightarrow> rs_location r = Some target"
proof -
  assume a: "sign_in su dr config rq person target c = (Inr r, c')" "rs_status r = 302"
  then obtain account t where "resolve_or_create su (dr_account dr) (dr_identity dr) person c = (Inr account, t)"
    by (auto simp: sign_in_def act_bind_Inr)
  then show ?thesis using a
    by (cases account) (auto simp: sign_in_def act_bind_Inr redirect_def refused_def)
qed

lemma login_redirects:
  assumes "login su dr provider (Some target) = Inr r" and "rs_status r = 302" and "target \<noteq> []"
  shows "\<exists>config host cookie. current_routing su = Inr config \<and> return_host target = Inr host
     \<and> is_application_host config host \<and> rs_set_cookies r = [cookie]
     \<and> build_cookie su oauth_state_cookie (token_urlsafe (dr_state dr) @ ''.'' @ quote target) (rc_scheme config) = Inr cookie"
  using assms by (auto simp: login_def or_else_def Let_def refused_def redirect_def split: if_splits)

text \<open>The value \<open>login\<close> puts in the state cookie, and what \<open>callback\<close> reads back from it.\<close>

lemma state_cookie_parts:
  "partition_at (CHR ''.'') (token_urlsafe raw @ ''.'' @ quote target) = (token_urlsafe raw, ''.'', quote target)"
proof -
  have "CHR ''.'' \<notin> set (token_urlsafe raw)" using token_urlsafe_ascii by blast
  then show ?thesis using partition_at_append [of "CHR ''.''" "token_urlsafe raw" "quote target"] by simp
qed

lemma callback_target_own:
  "target \<noteq> [] \<Longrightarrow> return_host target = Inr host \<Longrightarrow> is_application_host config host \<Longrightarrow>
     callback_target config wide (quote target) = Inr target"
  by (simp add: callback_target_def Let_def)

lemma callback_own_state:
  assumes "current_routing su = Inr config" and "return_host target = Inr host" "is_application_host config host"
    and "target \<noteq> []" "raw \<noteq> []"
    and "map_of (rq_cookies rq) oauth_state_cookie = Some (token_urlsafe raw @ ''.'' @ quote target)"
    and "map_of (rq_query rq) ''state'' = Some (token_urlsafe raw)"
    and "pr_complete provider (rq_query rq) (token_urlsafe raw) = Inr person"
  shows "callback su dr wide provider rq c = sign_in su dr config rq person target c"
proof -
  have "compare_digest (token_urlsafe raw) (token_urlsafe raw) = Inr True"
    using token_urlsafe_ascii by (auto simp: compare_digest_def list_all_iff)
  then show ?thesis
    using assms token_urlsafe_nonempty [of raw] callback_target_own [of target host config wide]
    by (simp add: callback_def lift_result_def or_else_def state_cookie_parts Let_def act_bind_def
        del: append_Cons append_Nil)
qed

lemma non_ascii_state_raises:
  assumes "current_routing su = Inr config" and "raw \<noteq> []"
    and "map_of (rq_cookies rq) oauth_state_cookie = Some (token_urlsafe raw @ ''.'' @ quote target)"
    and "or_else (map_of (rq_query rq) ''state'') [] = state" and "\<not> list_all is_ascii state"
  shows "callback su dr wide provider rq c =
     (Inl (TypeError ''comparing strings with non-ASCII characters is not supported''), c)"
proof -
  have "state \<noteq> []" using assms(5) by auto
  moreover have "compare_digest (token_urlsafe raw) state
      = Inl (TypeError ''comparing strings with non-ASCII characters is not supported'')"
    using assms(5) by (simp add: compare_digest_def ensure_def)
  ultimately show ?thesis
    using assms token_urlsafe_nonempty [of raw]
    by (simp add: callback_def lift_result_def or_else_def [of "Some _"] state_cookie_parts Let_def act_bind_def
        del: append_Cons append_Nil)
qed

lemma session_made:
  assumes "control_ok db" and "a \<in> account_ids db" and "i \<notin> session_ids db"
    and "compute_expiry su (su_now su) (su_now su) = Inr e"
  shows "\<exists>row db'. create_session su i a db = Inr (row, db') \<and> db_secrets db' = db_secrets db"
proof -
  let ?row = "\<lparr>ses_id = i, ses_account_id = a, ses_active_workspace_id = None, ses_active_workspace_changed_at = None,
      ses_created_at = su_now su, ses_last_seen_at = su_now su, ses_expires_at = su_now su, ses_revoked_at = None\<rparr>"
  let ?db1 = "db\<lparr>db_sessions := db_sessions db @ [?row]\<rparr>"
  have p: "put_session ?row db = Inr ?db1" using assms(2,3) by (simp add: put_session_def check_constraints.simps)
  have "get_session i ?db1 \<noteq> None" by (simp add: get_session_def find_append split: option.splits)
  then show ?thesis
    using p assms(4) touch_session_eq [OF put_session_ok [OF assms(1) p], of i "su_now su" e]
    by (auto simp: create_session_def insert_session_def Let_def)
qed

text \<open>
  With a resolved account, a fresh session identifier and a fresh secret, \<open>sign_in\<close> ends in the
  redirect, and the cookie it sets is that of a session of this account.
\<close>

lemma signed_in:
  assumes "control_ok (cl_control c)" and "resolve_or_create su (dr_account dr) (dr_identity dr) person c = (Inr (Inr account), c0)"
    and "compute_expiry su (su_now su) (su_now su) = Inr e" and "dr_session dr \<notin> session_ids (cl_control c0)"
    and "su_sha256 su (dr_secret dr) \<notin> set (map sec_secret_hash (db_secrets (cl_control c0)))" and "dr_secret dr \<noteq> []"
    and "can_set_cookies su config"
  shows "\<exists>row cookie cleared c'. sign_in su dr config rq person target c = (Inr (redirect target [cookie, cleared]), c')
     \<and> build_cookie su session_cookie (bytes_hex (dr_secret dr)) (rc_scheme config) = Inr cookie
     \<and> clear su oauth_state_cookie config = Inr cleared
     \<and> ses_id row = dr_session dr \<and> ses_account_id row = acc_id account \<and> ses_expires_at row = e
     \<and> (\<forall>su2 rq2. su_sha256 su2 = su_sha256 su \<and> su_now su2 < e
          \<and> map_of (rq_cookies rq2) session_cookie = Some (bytes_hex (dr_secret dr))
          \<longrightarrow> session_row_from_cookie su2 rq2 (current_host rq) (cl_control c') = Some row)"
proof -
  note res = resolve_or_create_InrD [OF assms(1,2)]
  have ok: "control_ok (cl_control c0)" using control_steps_ok [OF res(1) assms(1)] .
  obtain row db1 where made: "create_session su (dr_session dr) (acc_id account) (cl_control c0) = Inr (row, db1)"
      "db_secrets db1 = db_secrets (cl_control c0)"
    using session_made [OF ok known_account_row [OF res(2)] assms(4,3)] by blast
  note row = create_session_InrD [OF ok made(1)]
  have e: "ses_expires_at row = e" using row(7) assms(3) by simp
  have "sec_session_id r \<in> session_ids (cl_control c0)" if "r \<in> set (db_secrets (cl_control c0))" for r
    using ok that by (auto simp: control_ok_def references_ok_def references_def list_all_iff)
  then have new: "secret_is_new su (dr_secret dr) (ses_id row) (current_host rq) db1"
    using assms(4,5) made(2) row(5) by (auto simp: secret_is_new_def)
  have sid: "ses_id row \<in> session_ids db1" using get_session_id [OF row(2)] row(5) by (force simp: id_defs)
  obtain cookie cleared where cookies:
      "build_cookie su session_cookie (bytes_hex (dr_secret dr)) (rc_scheme config) = Inr cookie"
      "clear su oauth_state_cookie config = Inr cleared"
    using cookies_built [OF assms(7)] by (metis clear_def insertCI)
  let ?c1 = "c0\<lparr>cl_control := db1\<rparr>"
  let ?db2 = "with_secret su (dr_secret dr) (ses_id row) (current_host rq) db1"
  note made1 = control_tx_Inr [of "create_session su (dr_session dr) (acc_id account)", OF made(1)]
  have "mint_host_secret su (dr_secret dr) (ses_id row) (current_host rq) (cl_control ?c1) = Inr (dr_secret dr, ?db2)"
    using mint_eq [OF new sid] by simp
  note minted = control_tx_Inr [of "mint_host_secret su (dr_secret dr) (ses_id row) (current_host rq)", OF this]
  have "sign_in su dr config rq person target c = (Inr (redirect target [cookie, cleared]), c0\<lparr>cl_control := ?db2\<rparr>)"
    using assms(2) by (simp add: sign_in_def made1 minted lift_result_Inr [OF cookies(1)] lift_result_Inr [OF cookies(2)])
  moreover have "session_row_from_cookie su2 rq2 (current_host rq) ?db2 = Some row"
    if "su_sha256 su2 = su_sha256 su" "su_now su2 < e" "map_of (rq_cookies rq2) session_cookie = Some (bytes_hex (dr_secret dr))"
    for su2 rq2
    using cookie_of_minted [OF new _ assms(6) that(1) _ row(6) that(3)] row(2,5) that(2) e by simp
  ultimately show ?thesis using cookies row(4,5) e
    by (intro exI [of _ row] exI [of _ cookie] exI [of _ cleared] exI [of _ "c0\<lparr>cl_control := ?db2\<rparr>"]) simp
qed

lemma callback_other_state:
  assumes "current_routing su = Inr config" and "raw \<noteq> []"
    and "map_of (rq_cookies rq) oauth_state_cookie = Some (token_urlsafe raw @ ''.'' @ quote target)"
    and "or_else (map_of (rq_query rq) ''state'') [] = state" and "list_all is_ascii state" and "state \<noteq> token_urlsafe raw"
  shows "callback su dr wide provider rq c = (Inr (refused invalid_state 400), c)"
proof (cases "state = []")
  case False
  have "compare_digest (token_urlsafe raw) state = Inr False"
    using token_urlsafe_ascii assms(5,6) by (auto simp: compare_digest_def list_all_iff)
  then show ?thesis
    using assms False token_urlsafe_nonempty [of raw]
    by (simp add: callback_def lift_result_def or_else_def [of "Some _"] state_cookie_parts Let_def act_bind_def
        del: append_Cons append_Nil)
qed (use assms in \<open>simp add: callback_def lift_result_def act_bind_def Let_def\<close>)

text \<open>
  C11: the login round trip keeps its promise and its guard. When \<open>login\<close> accepts a return target
  and sends the browser to the provider, the one cookie it sets carries the state and the
  target such that the callback, presented with that cookie and that state, goes on to sign the
  person in and, when it answers with a redirect, redirects to exactly that target, whatever
  characters it is made of. It does answer so once the person's account is resolved, if the
  fresh identifier and secret are unused: the session cookie it sets is from then on
  recognised on this host as a session of that account, until its deadline. With that cookie
  and no state or another one of ASCII characters the callback answers \<open>invalid_state\<close>, with
  one beyond ASCII it raises, and either way it changes nothing.
\<close>

theorem login_returns_to_its_target:
  assumes "login su dr provider (Some target) = Inr r" and "rs_status r = 302" and "target \<noteq> []" and "dr_state dr \<noteq> []"
    and "current_routing su = Inr config" "current_routing su' = Inr config"
    and "v = token_urlsafe (dr_state dr) @ ''.'' @ quote target"
  shows "(\<exists>cookie. rs_set_cookies r = [cookie] \<and> build_cookie su oauth_state_cookie v (rc_scheme config) = Inr cookie)
     \<and> (\<forall>rq person. map_of (rq_cookies rq) oauth_state_cookie = Some v \<longrightarrow>
          map_of (rq_query rq) ''state'' = Some (token_urlsafe (dr_state dr)) \<longrightarrow>
          pr_complete provider' (rq_query rq) (token_urlsafe (dr_state dr)) = Inr person \<longrightarrow>
          callback su' dr' wide provider' rq c = sign_in su' dr' config rq person target c
          \<and> (\<forall>r' c'. callback su' dr' wide provider' rq c = (Inr r', c') \<longrightarrow> rs_status r' = 302 \<longrightarrow> rs_location r' = Some target)
          \<and> (\<forall>account c0 e. control_ok (cl_control c)
               \<and> resolve_or_create su' (dr_account dr') (dr_identity dr') person c = (Inr (Inr account), c0)
               \<and> compute_expiry su' (su_now su') (su_now su') = Inr e \<and> dr_session dr' \<notin> session_ids (cl_control c0)
               \<and> su_sha256 su' (dr_secret dr') \<notin> set (map sec_secret_hash (db_secrets (cl_control c0)))
               \<and> dr_secret dr' \<noteq> [] \<and> can_set_cookies su' config \<longrightarrow>
             (\<exists>row cookie cleared c'. callback su' dr' wide provider' rq c = (Inr (redirect target [cookie, cleared]), c')
               \<and> build_cookie su' session_cookie (bytes_hex (dr_secret dr')) (rc_scheme config) = Inr cookie
               \<and> clear su' oauth_state_cookie config = Inr cleared
               \<and> ses_id row = dr_session dr' \<and> ses_account_id row = acc_id account \<and> ses_expires_at row = e
               \<and> (\<forall>su2 rq2. su_sha256 su2 = su_sha256 su' \<and> su_now su2 < e
                    \<and> map_of (rq_cookies rq2) session_cookie = Some (bytes_hex (dr_secret dr'))
                    \<longrightarrow> session_row_from_cookie su2 rq2 (current_host rq) (cl_control c') = Some row))))
     \<and> (\<forall>rq state. map_of (rq_cookies rq) oauth_state_cookie = Some v \<longrightarrow>
          state = or_else (map_of (rq_query rq) ''state'') [] \<longrightarrow> state \<noteq> token_urlsafe (dr_state dr) \<longrightarrow>
          callback su' dr' wide provider' rq c =
            (if list_all is_ascii state then Inr (refused invalid_state 400)
             else Inl (TypeError ''comparing strings with non-ASCII characters is not supported''), c))"
proof (intro conjI allI impI)
  obtain host where own: "return_host target = Inr host" "is_application_host config host"
    and cookie: "\<exists>cookie. rs_set_cookies r = [cookie] \<and> build_cookie su oauth_state_cookie v (rc_scheme config) = Inr cookie"
    using login_redirects [OF assms(1-3)] assms(5,7) by auto
  show "\<exists>cookie. rs_set_cookies r = [cookie] \<and> build_cookie su oauth_state_cookie v (rc_scheme config) = Inr cookie"
    by (rule cookie)
  fix rq :: request
  assume jar: "map_of (rq_cookies rq) oauth_state_cookie = Some v"
  show "callback su' dr' wide provider' rq c = (if list_all is_ascii state then Inr (refused invalid_state 400)
      else Inl (TypeError ''comparing strings with non-ASCII characters is not supported''), c)"
    if "state = or_else (map_of (rq_query rq) ''state'') []" "state \<noteq> token_urlsafe (dr_state dr)" for state
    using callback_other_state [OF assms(6,4)] non_ascii_state_raises [OF assms(6,4)] jar that assms(7) by simp
  fix person
  assume asked: "map_of (rq_query rq) ''state'' = Some (token_urlsafe (dr_state dr))"
    "pr_complete provider' (rq_query rq) (token_urlsafe (dr_state dr)) = Inr person"
  show same: "callback su' dr' wide provider' rq c = sign_in su' dr' config rq person target c"
    using callback_own_state [OF assms(6) own assms(3,4) _ asked] jar assms(7) by blast
  show "rs_location r' = Some target" if "callback su' dr' wide provider' rq c = (Inr r', c')" "rs_status r' = 302" for r' c'
    using sign_in_location that same by simp
  fix account c0 e
  assume h: "control_ok (cl_control c)
      \<and> resolve_or_create su' (dr_account dr') (dr_identity dr') person c = (Inr (Inr account), c0)
      \<and> compute_expiry su' (su_now su') (su_now su') = Inr e \<and> dr_session dr' \<notin> session_ids (cl_control c0)
      \<and> su_sha256 su' (dr_secret dr') \<notin> set (map sec_secret_hash (db_secrets (cl_control c0)))
      \<and> dr_secret dr' \<noteq> [] \<and> can_set_cookies su' config"
  show "\<exists>row cookie cleared c'. callback su' dr' wide provider' rq c = (Inr (redirect target [cookie, cleared]), c')
      \<and> build_cookie su' session_cookie (bytes_hex (dr_secret dr')) (rc_scheme config) = Inr cookie
      \<and> clear su' oauth_state_cookie config = Inr cleared
      \<and> ses_id row = dr_session dr' \<and> ses_account_id row = acc_id account \<and> ses_expires_at row = e
      \<and> (\<forall>su2 rq2. su_sha256 su2 = su_sha256 su' \<and> su_now su2 < e
           \<and> map_of (rq_cookies rq2) session_cookie = Some (bytes_hex (dr_secret dr'))
           \<longrightarrow> session_row_from_cookie su2 rq2 (current_host rq) (cl_control c') = Some row)"
    unfolding same by (rule signed_in) (use h in blast)+
qed

section \<open>Requests from elsewhere\<close>

text \<open>
  C23: a cross-site request forgery gets nothing. Whatever the cookies and the session behind them,
  a logout or a workspace switch whose \<open>Origin\<close> header is missing, is not a URL with a host, or
  names a host that is not the application's, changes neither the control plane nor a workspace
  database; it is answered 403 \<open>origin_not_allowed\<close> or raises.
\<close>

theorem forged_origin_changes_nothing:
  assumes "current_routing su = Inr config"
    and "\<forall>origin. rq_origin rq = Some origin \<longrightarrow>
       (\<forall>host. return_host origin = Inr host \<longrightarrow> host = [] \<or> \<not> is_application_host config host)"
  shows "snd (logout su rq c) = c \<and> snd (session_workspace su rq w c) = c
     \<and> fst (logout su rq c) \<in> {Inr (refused origin_not_allowed 403), Inl (ValueError ''Invalid IPv6 URL'')}
     \<and> fst (session_workspace su rq w c) = fst (logout su rq c)"
proof -
  have "check_request_origin rq config \<in> {Inr (Some (refused origin_not_allowed 403)), Inl (ValueError ''Invalid IPv6 URL'')}"
  proof (cases "rq_origin rq")
    case (Some origin)
    then show ?thesis using assms(2)
      by (cases "urlsplit origin") (auto simp: check_request_origin_def return_host_def urlsplit_def Let_def ensure_def
          split: if_splits prod.splits)
  qed (simp add: check_request_origin_def)
  then show ?thesis using assms(1)
    by (auto simp: logout_def session_workspace_def lift_result_def act_bind_def)
qed

section \<open>Where the routes fall short\<close>

text \<open>
  A base host with a port is never recognised. \<open>normalize_host\<close> strips ports from every host the
  routes read, \<open>is_application_host\<close> compares for equality, and so with the topology
  \<open>deploy/compose.yaml\<close> sets (\<open>localhost:3000\<close> in path mode) even the default login target is
  refused, and so is every logout from the application's own origin.
\<close>

definition compose_surroundings :: surroundings where
  "compose_surroundings = plain_surroundings\<lparr>su_layer := Inr [(''routing.mode'', PStr ''path''),
     (''routing.scheme'', PStr ''http''), (''routing.base_host'', PStr ''localhost:3000'')]\<rparr>"

definition compose_logout_request :: request where
  "compose_logout_request = \<lparr>rq_host = Some ''localhost:3000'', rq_url_host = None,
     rq_origin = Some ''http://localhost:3000'', rq_cookies = [], rq_query = []\<rparr>"

lemma ported_base_host_refused:
  "login compose_surroundings dr p None = Inr (refused invalid_return 400)"
  "logout compose_surroundings compose_logout_request c = (Inr (refused origin_not_allowed 403), c)"
proof -
  have config: "current_routing compose_surroundings = Inr (default_routing Path_Mode ''localhost:3000''\<lparr>rc_scheme := ''http''\<rparr>)"
    by code_simp
  have "return_host ''http://localhost:3000/'' = Inr ''localhost''" by code_simp
  moreover have "url_for (default_routing Path_Mode ''localhost:3000''\<lparr>rc_scheme := ''http''\<rparr>) shell ''/''
      = Inr ''http://localhost:3000/''" by code_simp
  moreover have "\<not> is_application_host (default_routing Path_Mode ''localhost:3000''\<lparr>rc_scheme := ''http''\<rparr>) ''localhost''"
    by code_simp
  ultimately show "login compose_surroundings dr p None = Inr (refused invalid_return 400)"
    using config by (simp add: login_def or_else_def)
  have "check_request_origin compose_logout_request (default_routing Path_Mode ''localhost:3000''\<lparr>rc_scheme := ''http''\<rparr>)
      = Inr (Some (refused origin_not_allowed 403))" by code_simp
  then show "logout compose_surroundings compose_logout_request c = (Inr (refused origin_not_allowed 403), c)"
    using config by (simp add: logout_def lift_result_def act_bind_def)
qed

text \<open>
  A second hop of the same session to the same host, after its cookie was lost there, spends the
  fresh grant and then raises \<open>session_secret_exists\<close>, which no route catches.
\<close>

lemma repeated_hop_raises:
  assumes "consume_grant su code host (utf8 nonce) (cl_control c) = Inr (Inr g, db)"
    and "(gr_session_id g, host) \<in> set (map (\<lambda>r. (sec_session_id r, sec_host r)) (db_secrets db))"
    and "current_host rq = host" and "map_of (rq_cookies rq) continue_cookie = Some nonce" and "nonce \<noteq> []" and "code \<noteq> []"
  shows "continue_on_application_host su dr config rq target code c =
     (Inl (StorageRefusal ''session_secret_exists'' (''session '' @ uuid_str (gr_session_id g)
        @ '' already has a secret for host '' @ py_repr host) None), c\<lparr>cl_control := db\<rparr>)"
  using assms
  by (auto simp: continue_on_application_host_def or_else_def Let_def control_tx_def act_bind_def
      mint_host_secret_def insert_session_secret_def put_secret_def check_constraints.simps split: if_splits)

text \<open>
  The same-host tail of an accepted return target can begin with two slashes, which a browser
  reads as another host: an open redirect through \<open>/auth/continue\<close>.
\<close>

lemma protocol_relative_return:
  "return_host ''https://circuit.example.test//evil.test/x'' = Inr ''circuit.example.test''
   \<and> path_and_query ''https://circuit.example.test//evil.test/x'' = Inr ''//evil.test/x''"
  by code_simp

text \<open>A code or a state with a character beyond ASCII raises instead of being refused.\<close>

lemma non_ascii_raises:
  "c \<in> set code \<Longrightarrow> \<not> is_ascii c \<Longrightarrow> \<exists>e. consume_grant su code host nonce db = Inl e"
  "c \<in> set code \<Longrightarrow> \<not> is_ascii c \<Longrightarrow> \<exists>e. compare_digest s code = Inl e"
  by (auto simp: consume_grant_def encode_ascii_def compare_digest_def ensure_def list_all_iff is_ascii_def)

section \<open>Examples\<close>

definition hop_surroundings :: "datetime \<Rightarrow> surroundings" where
  "hop_surroundings now = plain_surroundings\<lparr>su_now := now, su_layer := Inr [(''routing.mode'', PStr ''subdomain''),
     (''routing.base_host'', PStr ''example.test'')]\<rparr>"

definition hop_row :: session_row where
  "hop_row = \<lparr>ses_id = 3, ses_account_id = 1, ses_active_workspace_id = None, ses_active_workspace_changed_at = None,
     ses_created_at = 0, ses_last_seen_at = 0, ses_expires_at = 1000, ses_revoked_at = None\<rparr>"

definition hop_cluster :: cluster where
  "hop_cluster = \<lparr>cl_control = empty_control_db\<lparr>db_sessions := [hop_row], db_secrets := [\<lparr>sec_secret_hash = [9],
     sec_session_id = 3, sec_host = ''auth.example.test'', sec_created_at = 0\<rparr>]\<rparr>, cl_databases = []\<rparr>"

definition hop_request :: "string \<Rightarrow> (string \<times> string) list \<Rightarrow> request" where
  "hop_request host cookies = \<lparr>rq_host = Some host, rq_url_host = None, rq_origin = None, rq_cookies = cookies,
     rq_query = []\<rparr>"

definition hop_draws :: draws where
  "hop_draws = \<lparr>dr_state = [1], dr_secret = [2], dr_code = [1], dr_session = 4, dr_account = 5, dr_identity = 6\<rparr>"

definition echo_provider :: provider where
  "echo_provider = \<lparr>pr_begin = (\<lambda>state url. Inr url), pr_complete = (\<lambda>params state. Inr octocat)\<rparr>"

lemma hop_routing: "current_routing (hop_surroundings now) = Inr (default_routing Subdomain_Mode ''example.test'')"
proof -
  have "current_routing (hop_surroundings 0) = Inr (default_routing Subdomain_Mode ''example.test'')" by code_simp
  then show ?thesis by (simp add: current_routing_def hop_surroundings_def)
qed

lemma hop_target:
  "return_host ''https://circuit.example.test/inbox'' = Inr ''circuit.example.test''"
  "path_and_query ''https://circuit.example.test/inbox'' = Inr ''/inbox''"
  "is_application_host (default_routing Subdomain_Mode ''example.test'') ''circuit.example.test''"
  "''circuit.example.test'' \<noteq> identity_host (default_routing Subdomain_Mode ''example.test'')"
  "identity_host (default_routing Subdomain_Mode ''example.test'') = ''auth.example.test''"
  "startswith ''https://circuit.example.test/inbox'' (rc_scheme (default_routing Subdomain_Mode ''example.test'') @ ''://'')"
  by code_simp+

text \<open>
  The scheme of a return target is not compared with the configured one: a target with another
  scheme, and a target without any, pass the check of the host and get a grant.
\<close>

lemma foreign_scheme_is_accepted:
  assumes "target \<in> {''ftp://circuit.example.test/inbox'', ''//circuit.example.test/inbox''}"
  shows "\<exists>r c. continue_flow (hop_surroundings 10) hop_draws (hop_request ''auth.example.test'' [(session_cookie, ''09'')])
       target (Some ''n'') None hop_cluster = (Inr r, c) \<and> rs_status r = 302
     \<and> db_grants (cl_control c) = [hop_grant (hop_surroundings 10) hop_draws 3 ''circuit.example.test'' ''n'']"
proof -
  let ?su = "hop_surroundings 10" and ?rq = "hop_request ''auth.example.test'' [(session_cookie, ''09'')]"
    and ?config = "default_routing Subdomain_Mode ''example.test''"
  have "return_host ''ftp://circuit.example.test/inbox'' = Inr ''circuit.example.test''"
    "return_host ''//circuit.example.test/inbox'' = Inr ''circuit.example.test''" by code_simp+
  then have t: "return_host target = Inr ''circuit.example.test''" using assms by auto
  have f: "current_host ?rq = identity_host ?config"
    "session_row_from_cookie ?su ?rq (identity_host ?config) (cl_control hop_cluster) = Some hop_row"
    "gr_code_hash (hop_grant ?su hop_draws (ses_id hop_row) ''circuit.example.test'' ''n'')
       \<notin> set (map gr_code_hash (db_grants (cl_control hop_cluster)))" by code_simp+
  show ?thesis
    using identity_leg [OF hop_routing t list.distinct(2) hop_target(3,4) f(1) list.distinct(2) f(2,3), where code = None]
    by (simp add: redirect_def with_grant_def hop_cluster_def hop_row_def empty_control_db_def)
qed

theorem cross_host_sign_in_witness:
  "\<exists>c1 c2 cookie cleared.
     continue_flow (hop_surroundings 10) hop_draws (hop_request ''circuit.example.test'' [(continue_cookie, ''n'')])
       ''https://circuit.example.test/inbox'' None (Some (token_urlsafe [1])) c1 = (Inr (redirect ''/inbox'' [cookie, cleared]), c2)
     \<and> session_row_from_cookie (hop_surroundings 20) (hop_request ''circuit.example.test'' [(session_cookie, bytes_hex [2])])
         ''circuit.example.test'' (cl_control c2) = Some hop_row"
proof -
  let ?su = "hop_surroundings 10" and ?rq = "hop_request ''auth.example.test:443'' [(session_cookie, ''09'')]"
    and ?rq' = "hop_request ''circuit.example.test'' [(continue_cookie, ''n'')]"
  have f: "current_host ?rq = identity_host (default_routing Subdomain_Mode ''example.test'')"
    "session_row_from_cookie ?su ?rq (identity_host (default_routing Subdomain_Mode ''example.test''))
       (cl_control hop_cluster) = Some hop_row"
    "gr_code_hash (hop_grant ?su hop_draws (ses_id hop_row) ''circuit.example.test'' ''n'')
       \<notin> set (map gr_code_hash (db_grants (cl_control hop_cluster)))"
    "su_now ?su < su_now ?su + seconds grant_expiry_seconds"
    "current_host ?rq' = ''circuit.example.test''" "map_of (rq_cookies ?rq') continue_cookie = Some ''n''"
    "secret_is_new ?su (dr_secret hop_draws) (ses_id hop_row) ''circuit.example.test'' (cl_control hop_cluster)"
    by code_simp+
  have cookies: "can_set_cookies ?su (default_routing Subdomain_Mode ''example.test'')"
    by (simp add: can_set_cookies_def default_routing_def)
  have draws: "dr_code hop_draws \<noteq> []" "dr_secret hop_draws \<noteq> []" by (simp_all add: hop_draws_def)
  obtain c1 c2 cookie cleared where
      "continue_flow ?su hop_draws ?rq' ''https://circuit.example.test/inbox'' None (Some (token_urlsafe (dr_code hop_draws))) c1 =
         (Inr (redirect ''/inbox'' [cookie, cleared]), c2)"
      "\<forall>su2 rq2. su_sha256 su2 = su_sha256 ?su \<and> su_now su2 < ses_expires_at hop_row
          \<and> map_of (rq_cookies rq2) session_cookie = Some (bytes_hex (dr_secret hop_draws))
          \<longrightarrow> session_row_from_cookie su2 rq2 ''circuit.example.test'' (cl_control c2) = Some hop_row"
    using cross_host_sign_in [where n = None and code = None, OF hop_routing hop_target(6,1,2) list.distinct(2)
        hop_target(3,4) f(1) list.distinct(2) f(2) draws(1) f(3) hop_routing refl cookies f(4-6) draws(2) f(7)]
    by blast
  then show ?thesis
    by (intro exI [of _ c1] exI [of _ c2] exI [of _ cookie] exI [of _ cleared])
      (simp add: hop_surroundings_def hop_request_def hop_row_def hop_draws_def)
qed

definition login_target :: string where "login_target = ''https://circuit.example.test/a;b''"

definition login_state_cookie :: string where
  "login_state_cookie = token_urlsafe (dr_state hop_draws) @ ''.'' @ quote login_target"

definition login_callback_request :: request where
  "login_callback_request = \<lparr>rq_host = Some ''auth.example.test'', rq_url_host = None, rq_origin = None,
     rq_cookies = [(oauth_state_cookie, login_state_cookie)], rq_query = [(''state'', token_urlsafe (dr_state hop_draws))]\<rparr>"

lemma login_redirected: "\<exists>r. login (hop_surroundings 0) hop_draws echo_provider (Some login_target) = Inr r \<and> rs_status r = 302"
proof -
  let ?config = "default_routing Subdomain_Mode ''example.test''"
  have t: "return_host login_target = Inr ''circuit.example.test''" "login_target \<noteq> []"
    "\<not> isl (url_for ?config identity ''/callback'')" by code_simp+
  then obtain url where url: "url_for ?config identity ''/callback'' = Inr url"
    by (cases "url_for ?config identity ''/callback''") auto
  obtain cookie where cookie: "build_cookie (hop_surroundings 0) oauth_state_cookie
      (token_urlsafe (dr_state hop_draws) @ ''.'' @ quote login_target) (rc_scheme ?config) = Inr cookie"
    using cookies_built [of "hop_surroundings 0" ?config oauth_state_cookie]
    by (auto simp: can_set_cookies_def default_routing_def)
  have o: "or_else (Some login_target) [] = login_target" by (simp add: or_else_def)
  have e: "pr_begin echo_provider state u = Inr u" for state u by (simp add: echo_provider_def)
  have "login (hop_surroundings 0) hop_draws echo_provider (Some login_target) = Inr (redirect url [cookie])"
    unfolding login_def hop_routing rbind_simps o if_not_P [OF t(2)] t(1) Let_def url e cookie using hop_target(3) by simp
  then show ?thesis by (simp add: redirect_def)
qed

lemma login_account:
  "fst (resolve_or_create (hop_surroundings 0) (dr_account hop_draws) (dr_identity hop_draws) octocat empty_cluster)
     = Inr (Inr (octocat_account\<lparr>acc_id := 5\<rparr>))"
  "dr_session hop_draws \<notin> session_ids (cl_control (snd (resolve_or_create (hop_surroundings 0) (dr_account hop_draws)
     (dr_identity hop_draws) octocat empty_cluster)))"
  "su_sha256 (hop_surroundings 0) (dr_secret hop_draws) \<notin> set (map sec_secret_hash (db_secrets (cl_control (snd
     (resolve_or_create (hop_surroundings 0) (dr_account hop_draws) (dr_identity hop_draws) octocat empty_cluster)))))"
  "compute_expiry (hop_surroundings 0) (su_now (hop_surroundings 0)) (su_now (hop_surroundings 0)) = Inr (days 14)"
  by code_simp+

text \<open>The first person ever to log in, on a control plane without accounts.\<close>

theorem login_returns_to_its_target_witness:
  "\<exists>row cookie cleared c'. callback (hop_surroundings 0) hop_draws id echo_provider login_callback_request empty_cluster
       = (Inr (redirect login_target [cookie, cleared]), c')
     \<and> ses_account_id row = 5
     \<and> session_row_from_cookie (hop_surroundings 20) (hop_request ''auth.example.test'' [(session_cookie, bytes_hex [2])])
         ''auth.example.test'' (cl_control c') = Some row"
proof -
  obtain r where r: "login (hop_surroundings 0) hop_draws echo_provider (Some login_target) = Inr r" "rs_status r = 302"
    using login_redirected by blast
  obtain c0 where c0: "resolve_or_create (hop_surroundings 0) (dr_account hop_draws) (dr_identity hop_draws) octocat empty_cluster
      = (Inr (Inr (octocat_account\<lparr>acc_id := 5\<rparr>)), c0)" "snd (resolve_or_create (hop_surroundings 0) (dr_account hop_draws)
        (dr_identity hop_draws) octocat empty_cluster) = c0"
    using login_account(1) by (metis prod.collapse)
  have h: "login_target \<noteq> []" "dr_state hop_draws \<noteq> []" "dr_secret hop_draws \<noteq> []"
    "can_set_cookies (hop_surroundings 0) (default_routing Subdomain_Mode ''example.test'')" "control_ok (cl_control empty_cluster)"
    using control_ok_empty by (simp_all add: login_target_def hop_draws_def can_set_cookies_def default_routing_def empty_cluster_def)
  have q: "map_of (rq_cookies login_callback_request) oauth_state_cookie = Some login_state_cookie"
    "map_of (rq_query login_callback_request) ''state'' = Some (token_urlsafe (dr_state hop_draws))"
    "pr_complete echo_provider (rq_query login_callback_request) (token_urlsafe (dr_state hop_draws)) = Inr octocat"
    "current_host login_callback_request = ''auth.example.test''"
    by (simp_all add: login_callback_request_def echo_provider_def) code_simp
  note T = login_returns_to_its_target [where c = empty_cluster and dr' = hop_draws and wide = id and provider' = echo_provider,
      OF r h(1,2) hop_routing hop_routing login_state_cookie_def, THEN conjunct2, THEN conjunct1,
      rule_format, OF q(1-3), THEN conjunct2, THEN conjunct2, rule_format]
  have "control_ok (cl_control empty_cluster)
      \<and> resolve_or_create (hop_surroundings 0) (dr_account hop_draws) (dr_identity hop_draws) octocat empty_cluster
          = (Inr (Inr (octocat_account\<lparr>acc_id := 5\<rparr>)), c0)
      \<and> compute_expiry (hop_surroundings 0) (su_now (hop_surroundings 0)) (su_now (hop_surroundings 0)) = Inr (days 14)
      \<and> dr_session hop_draws \<notin> session_ids (cl_control c0)
      \<and> su_sha256 (hop_surroundings 0) (dr_secret hop_draws) \<notin> set (map sec_secret_hash (db_secrets (cl_control c0)))
      \<and> dr_secret hop_draws \<noteq> [] \<and> can_set_cookies (hop_surroundings 0) (default_routing Subdomain_Mode ''example.test'')"
    using c0(1) login_account(2-4) [unfolded c0(2)] h(3-5) by (intro conjI)
  note S = T [OF this]
  obtain row cookie cleared c' where "callback (hop_surroundings 0) hop_draws id echo_provider login_callback_request empty_cluster
       = (Inr (redirect login_target [cookie, cleared]), c')" "ses_account_id row = 5"
      "\<forall>su2 rq2. su_sha256 su2 = su_sha256 (hop_surroundings 0) \<and> su_now su2 < days 14
           \<and> map_of (rq_cookies rq2) session_cookie = Some (bytes_hex (dr_secret hop_draws))
           \<longrightarrow> session_row_from_cookie su2 rq2 ''auth.example.test'' (cl_control c') = Some row"
    using S q(4) by auto
  then show ?thesis
    by (intro exI [of _ row] exI [of _ cookie] exI [of _ cleared] exI [of _ c'])
      (simp add: hop_surroundings_def hop_request_def hop_draws_def days_def)
qed

theorem forged_origin_changes_nothing_witness:
  "snd (logout (hop_surroundings 0) ((hop_request ''circuit.example.test'' [(session_cookie, ''09'')])
     \<lparr>rq_origin := Some ''https://evil.test''\<rparr>) hop_cluster) = hop_cluster"
proof -
  have "return_host ''https://evil.test'' = Inr ''evil.test''"
    "\<not> is_application_host (default_routing Subdomain_Mode ''example.test'') ''evil.test''" by code_simp+
  then show ?thesis
    using forged_origin_changes_nothing [OF hop_routing, of "(hop_request ''circuit.example.test'' [(session_cookie, ''09'')])
       \<lparr>rq_origin := Some ''https://evil.test''\<rparr>" 0 hop_cluster] by simp
qed

end
