(* ===== verification/Api_Surfaces.thy ===== *)
theory Api_Surfaces
  imports Core_Ops Auth_Routes
begin

text \<open>
  The other three ways in: the bearer API (\<open>api_routes.py\<close>), the internal listener of the web
  tier (\<open>internal_routes.py\<close>) and the MCP facade (\<open>apps/mcp\<close>: \<open>session.py\<close>, \<open>tools.py\<close>).

  The JSON of a request body is parsed outside (\<open>None\<close> when it is no object), and so is the
  serialisation of a result (\<open>dump\<close>). The query string arrives as text, so the payload type has
  an embedding of strings (\<open>txt\<close>).
\<close>

section \<open>POST /api/v1/operations/{name}\<close>

record ('v, 'o) api_request =
  aq_authorization :: "string option"
  aq_query :: "(string \<times> string) list"
  aq_body :: "(string \<times> 'v) list option"

text \<open>The envelope, whose \<open>operation_id\<close> is always null.\<close>

record 'j envelope =
  ev_status :: nat
  ev_state :: string
  ev_result :: "'j option"
  ev_error :: "(string \<times> string option) option"

definition status_by_state :: "(string \<times> nat) list" where
  "status_by_state = [(succeeded, 200), (operation_not_permitted, 403), (role_not_permitted, 403),
     (not_found, 404), (input_invalid, 422)]"

definition bearer :: "string option \<Rightarrow> string option" where
  "bearer authorization =
     (if or_else authorization [] = [] then None
      else (case partition_at (CHR '' '') (or_else authorization []) of (kind, _, v) \<Rightarrow>
        if lower kind \<noteq> ''bearer'' \<or> v = [] then None else Some v))"

definition outcome_status :: "'o outcome \<Rightarrow> nat" where
  "outcome_status out = (case map_of status_by_state (oo_state out) of Some n \<Rightarrow> n | None \<Rightarrow> 400)"

definition answer :: "('o \<Rightarrow> 'j) \<Rightarrow> 'o outcome \<Rightarrow> 'j envelope" where
  "answer dump out =
     (if outcome_ok out
      then \<lparr>ev_status = outcome_status out, ev_state = oo_state out, ev_result = map_option dump (oo_result out),
            ev_error = None\<rparr>
      else \<lparr>ev_status = outcome_status out, ev_state = oo_state out, ev_result = None,
            ev_error = map_option (\<lambda>e. (oe_code e, Some (oe_text e))) (oo_error out)\<rparr>)"

definition run_operation :: "surroundings \<Rightarrow> uuid \<Rightarrow> ('h, 'v, 'i, 'o) service \<Rightarrow> 'h operation_registry
    \<Rightarrow> (string \<Rightarrow> 'v) \<Rightarrow> ('o \<Rightarrow> 'j) \<Rightarrow> string \<Rightarrow> ('v, 'o) api_request \<Rightarrow> (cluster, 'j envelope) action" where
  "run_operation su request_id sv reg txt dump name rq =
     (case bearer (aq_authorization rq) of
        None \<Rightarrow> act_return \<lparr>ev_status = 401, ev_state = token_malformed, ev_result = None,
          ev_error = Some (token_malformed, Some ''no bearer token was presented'')\<rparr>
      | Some v \<Rightarrow>
          act_bind (context_from_token su request_id v ''api'') (\<lambda>ctx.
          case ctx of
            Inl r \<Rightarrow> act_return \<lparr>ev_status = 401, ev_state = rf_state r, ev_result = None,
              ev_error = Some (rf_state r, Some (refusal_text r))\<rparr>
          | Inr cx \<Rightarrow>
              let query = map (\<lambda>(k, s). (k, txt s)) (aq_query rq);
                  payload = (case aq_body rq of None \<Rightarrow> query | Some body \<Rightarrow> dict_update query body) in
              act_bind (dispatch sv reg (Some cx) name (Some payload)) (\<lambda>out.
              act_return (answer dump out))))"

section \<open>The internal listener\<close>

definition internal_scope :: "secret_scope result" where
  "internal_scope = scope_for ''internal'' [''secret://file/internal/'', ''secret://env/RHEO_INTERNAL_SECRET'']"

definition resolved_internal_secret :: "surroundings \<Rightarrow> secret_store \<Rightarrow> bytes result" where
  "resolved_internal_secret su store =
     rbind (settings_str su ''internal.secret_ref'') (\<lambda>t.
     rbind (parse_secret_ref t) (\<lambda>reference.
     rbind internal_scope (\<lambda>sc.
     resolve_secret store reference sc)))"

text \<open>\<open>True\<close> lets the request through, \<open>False\<close> is the 401.\<close>

definition require_internal_secret :: "surroundings \<Rightarrow> secret_store \<Rightarrow> string option \<Rightarrow> bool result" where
  "require_internal_secret su store x_rheo_internal =
     (if or_else x_rheo_internal [] = [] then Inr False
      else (case resolved_internal_secret su store of
          Inl (SecretRefusal st d) \<Rightarrow> Inr False
        | Inl e \<Rightarrow> Inl e
        | Inr expected \<Rightarrow> Inr (expected \<noteq> [] \<and> utf8 (or_else x_rheo_internal []) = expected)))"

datatype session_info = No_Session string | Session_Info workspace_context "(uuid \<times> role) list"

definition session_info :: "surroundings \<Rightarrow> uuid \<Rightarrow> string option \<Rightarrow> string option \<Rightarrow> cluster
    \<Rightarrow> session_info result" where
  "session_info su request_id x_rheo_session x_rheo_host c =
     (if or_else x_rheo_session [] = [] \<or> or_else x_rheo_host [] = [] then Inr (No_Session ''session_missing'')
      else (case bytes_fromhex (or_else x_rheo_session []) of
          None \<Rightarrow> Inr (No_Session ''session_missing'')
        | Some secret \<Rightarrow>
            rbind (context_from_session su request_id secret (normalize_host (or_else x_rheo_host [])) Entry_Web c)
              (\<lambda>ctx. case ctx of
                Inl r \<Rightarrow> Inr (No_Session (rf_state r))
              | Inr cx \<Rightarrow> (case actor_id (cx_actor cx) of
                  None \<Rightarrow> Inl AssertionError
                | Some account_id \<Rightarrow> Inr (Session_Info cx
                    (map (\<lambda>m. (mb_workspace_id m, mb_role m)) (list_memberships account_id (cl_control c))))))))"

section \<open>The MCP facade\<close>

definition resolve_context :: "surroundings \<Rightarrow> uuid \<Rightarrow> string \<Rightarrow> (cluster, workspace_context refusable) action" where
  "resolve_context su request_id v = context_from_token su request_id v ''mcp''"

definition visible :: "workspace_context \<Rightarrow> string \<Rightarrow> bool" where
  "visible ctx operation =
     ((case cx_operation_set ctx of All_Operations \<Rightarrow> True | Operations names \<Rightarrow> operation \<in> names)
      \<and> (let module_id = hd (split_on (CHR ''.'') operation) in
         module_id = core_module_id \<or> module_id \<in> cx_enabled_modules ctx))"

definition list_tools :: "workspace_context \<Rightarrow> tool_declaration list" where
  "list_tools ctx = filter (\<lambda>tool. visible ctx (td_operation tool)) registered_tools"

definition call_tool :: "('h, 'v, 'i, 'o) service \<Rightarrow> 'h operation_registry \<Rightarrow> workspace_context \<Rightarrow> string
    \<Rightarrow> (string \<times> 'v) list \<Rightarrow> (cluster, 'o outcome) action" where
  "call_tool sv reg ctx name arguments =
     (case find (\<lambda>tool. td_name tool = name) (list_tools ctx) of
        Some tool \<Rightarrow> dispatch sv reg (Some ctx) (td_operation tool) (Some arguments)
      | None \<Rightarrow> act_return \<lparr>oo_state = not_found, oo_result = None, oo_error = Some \<lparr>oe_code = not_found,
          oe_text = py_repr name @ '' is not a tool available here''\<rparr>\<rparr>)"

section \<open>The bearer API needs a token\<close>


lemma dispatch_result: "dispatch sv reg ctx name payload c = (Inr out, c') \<Longrightarrow> oo_error out = None \<longleftrightarrow> oo_result out \<noteq> None"
  by (auto simp: dispatch_def run_call_def refused_outcome_def failed_outcome_def
      split: option.splits sum.splits py_exc.splits prod.splits if_splits)

lemma resolve_token_workspaces:
  "resolve_token su v surface db = Inr (out, db') \<Longrightarrow> db_workspaces db' = db_workspaces db"
  by (auto simp: resolve_token_def Let_def refuse_with_def touch_access_token_last_used_def update_token_def
      split: option.splits if_splits)

lemma context_from_token_refused:
  "context_from_token su rid v surface c = (Inr (Inl r), c') \<Longrightarrow> cl_databases c' = cl_databases c"
  by (auto simp: context_from_token_def act_bind_def act_return_def lift_result_def act_raise_def control_tx_def
      split: sum.splits prod.splits)

lemma run_operation_steps:
  assumes "run_operation su rid sv reg txt dump name rq c = (Inr resp, c')"
  obtains (unpresented) "bearer (aq_authorization rq) = None" and "ev_status resp = 401" and "ev_result resp = None" and "c' = c"
  | (refused) v r where "bearer (aq_authorization rq) = Some v" and "ev_status resp = 401" and "ev_result resp = None"
      and "context_from_token su rid v ''api'' c = (Inr (Inl r), c')"
  | (dispatched) v cx c1 payload out where "bearer (aq_authorization rq) = Some v"
      and "context_from_token su rid v ''api'' c = (Inr (Inr cx), c1)"
      and "dispatch sv reg (Some cx) name payload c1 = (Inr out, c')" and "resp = answer dump out"
proof (cases "bearer (aq_authorization rq)")
  case None
  then show thesis using assms that(1) by (auto simp: run_operation_def act_return_def)
next
  case (Some v)
  obtain y c1 where y: "context_from_token su rid v ''api'' c = (Inr y, c1)"
    using assms Some by (auto simp: run_operation_def act_bind_Inr)
  show thesis
  proof (cases y)
    case (Inl r)
    then show thesis using assms Some y that(2) by (auto simp: run_operation_def act_return_def act_bind_def)
  next
    case (Inr cx)
    then show thesis using assms Some y that(3)
      by (auto simp: run_operation_def Let_def act_bind_Inr act_return_def)
  qed
qed

text \<open>
  C3: nothing comes out of the bearer API, and nothing goes in, without a token that allows it.
  Without a bearer header the answer is 401 and nothing changes. An answer with no result has
  changed no workspace database. An answer with a result is a 200 for a presented token that
  resolves at the API, whose stored set has the operation, which is none of the six no token
  may carry, whose role the operation admits; and only the database of the token's own active
  workspace can differ.
\<close>

theorem api_result_needs_token:
  assumes "\<forall>h cx. disciplined (sv_run sv h cx)"
    and "run_operation su rid sv reg txt dump name rq c = (Inr resp, c')"
  shows "(bearer (aq_authorization rq) = None \<longrightarrow> ev_status resp = 401 \<and> c' = c)
     \<and> (ev_result resp = None \<longrightarrow> cl_databases c' = cl_databases c)
     \<and> (\<forall>j. ev_result resp = Some j \<longrightarrow> ev_status resp = 200 \<and> (\<exists>v t db op row wd.
          bearer (aq_authorization rq) = Some v
          \<and> resolve_token su v ''api'' (cl_control c) = Inr (Inr t, db)
          \<and> name \<in> rt_operation_set t \<and> name \<notin> set non_token_issuable
          \<and> lookup_operation reg name = Some op \<and> rt_role t \<in> od_roles (ro_declaration op)
          \<and> get_workspace (rt_workspace_id t) (cl_control c) = Some row \<and> ws_state row = Active
          \<and> cl_databases c' = dict_set (ws_database_name row) wd (cl_databases c)))"
  using assms(2)
proof (cases rule: run_operation_steps)
  case (dispatched v cx c1 payload out)
  obtain t db ms en where t: "resolve_token su v ''api'' (cl_control c) = Inr (Inr t, db)"
    and c1: "c1 = c\<lparr>cl_control := db\<rparr>"
    and cx: "cx_workspace_id cx = rt_workspace_id t" "cx_operation_set cx = Operations (rt_operation_set t)"
      "cx_role cx = rt_role t"
    using dispatched(2) by (rule context_from_token_InrD) simp
  have ws: "get_workspace i db = get_workspace i (cl_control c)" for i
    using resolve_token_workspaces [OF t] by (simp add: get_workspace_def)
  have n: "name \<in> rt_operation_set t \<Longrightarrow> name \<notin> set non_token_issuable" using resolve_token_Inr [OF t] by blast
  have some: "ev_result resp = Some j \<Longrightarrow> outcome_ok out \<and> oo_result out \<noteq> None" for j
    using dispatched(4) by (auto simp: answer_def split: if_splits)
  have ok: "outcome_ok out \<Longrightarrow> ev_result resp = map_option dump (oo_result out) \<and> ev_status resp = 200"
    using dispatched(4) by (simp add: answer_def outcome_status_def outcome_ok_def status_by_state_def)
  note res = ok some
  from dispatch_effect [OF assms(1) dispatched(3)] show ?thesis
  proof
    assume "(\<forall>o'. Inr out = Inr o' \<longrightarrow> oo_error o' \<noteq> None) \<and> cl_databases c' = cl_databases c1"
    then have "oo_result out = None" "cl_databases c' = cl_databases c"
      using dispatch_result [OF dispatched(3)] c1 by auto
    then show ?thesis using some dispatched(1) by auto
  next
    assume "\<exists>o' cx' op row wd. Inr out = Inr o' \<and> outcome_ok o' \<and> oo_error o' = None \<and> Some cx = Some cx'
       \<and> authorize reg (Some cx') name = Inr op \<and> get_workspace (cx_workspace_id cx') (cl_control c1) = Some row
       \<and> ws_state row = Active \<and> cl_databases c' = dict_set (ws_database_name row) wd (cl_databases c1)"
    then obtain op row wd where "outcome_ok out" "oo_error out = None" "authorize reg (Some cx) name = Inr op"
      "get_workspace (cx_workspace_id cx) (cl_control c1) = Some row" "ws_state row = Active"
      "cl_databases c' = dict_set (ws_database_name row) wd (cl_databases c1)" by auto
    then show ?thesis using res dispatched(1) t c1 cx ws n dispatch_result [OF dispatched(3)]
      by (auto simp: authorize_Inr)
  qed
qed (use context_from_token_refused in auto)

section \<open>The internal listener and the tool facade\<close>

text \<open>A secret that lets a request through is the configured one, and nothing else is.\<close>

lemma require_internal_secret_True:
  "require_internal_secret su store h = Inr True \<longleftrightarrow>
     (\<exists>presented expected. h = Some presented \<and> presented \<noteq> [] \<and> resolved_internal_secret su store = Inr expected
        \<and> expected \<noteq> [] \<and> utf8 presented = expected)"
  by (cases h) (auto simp: require_internal_secret_def or_else_def split: sum.splits py_exc.splits if_splits)

lemma hd_split_on: "hd (split_on c s) = fst (partition_at c s)"
proof -
  have "hd (split_on c s) = takeWhile (\<lambda>x. x \<noteq> c) s"
  proof (induction s)
    case (Cons x s)
    then show ?case using split_on_nonempty [of c s] by (cases "split_on c s") auto
  qed simp
  then show ?thesis by (simp add: partition_at_def Let_def split: list.split)
qed

lemma visible_iff:
  assumes "registry_ok su models reg" and "lookup_operation reg name = Some op"
  shows "visible ctx name \<longleftrightarrow> (\<forall>r. authorize reg (Some ctx) name = Inl r \<longrightarrow> rf_state r = role_not_permitted)"
proof -
  have "ro_module_id op = hd (split_on (CHR ''.'') name)"
    using assms by (simp add: registry_ok_def lookup_operation_def hd_split_on)
  then show ?thesis using assms(2)
    by (cases "cx_operation_set ctx") (auto simp: visible_def Let_def authorize_def lookup_operation_def
        refuse_with_def refusal_states)
qed

lemma authorized_visible:
  assumes "registry_ok su models reg" and "authorize reg (Some ctx) name = Inr op"
  shows "visible ctx name"
proof -
  have "lookup_operation reg name = Some op" using assms(2) by (simp add: authorize_Inr)
  then show ?thesis using visible_iff [OF assms(1)] assms(2) by simp
qed

text \<open>
  C31: the tool facade lists what a call would be let through for. Over a table made by
  registering, a tool is listed exactly when authorization would not refuse its operation for
  any reason but the role; a call of a listed tool is the dispatch of its operation, and a call
  of anything else, whether there is no such tool or it is not available here, gets the one
  answer that names it and nothing else, and changes nothing.
\<close>

theorem mcp_shows_what_it_allows:
  assumes "rfold (add_operation su models) ds [] = Inr reg" and "call_tool sv reg ctx name args c = (r, c')"
  shows "(\<forall>tool \<in> set registered_tools. lookup_operation reg (td_operation tool) \<noteq> None \<longrightarrow>
       (tool \<in> set (list_tools ctx) \<longleftrightarrow>
          (\<forall>f. authorize reg (Some ctx) (td_operation tool) = Inl f \<longrightarrow> rf_state f = role_not_permitted)))
     \<and> (if name \<in> td_name ` set (list_tools ctx)
        then \<exists>tool \<in> set (list_tools ctx). td_name tool = name
          \<and> dispatch sv reg (Some ctx) (td_operation tool) (Some args) c = (r, c')
        else c' = c \<and> r = Inr \<lparr>oo_state = not_found, oo_result = None, oo_error = Some \<lparr>oe_code = not_found,
          oe_text = py_repr name @ '' is not a tool available here''\<rparr>\<rparr>)"
proof -
  have ok: "registry_ok su models reg" using add_operations_ok [OF assms(1)] empty_operations_ok by blast
  have "if name \<in> td_name ` set (list_tools ctx)
        then \<exists>tool \<in> set (list_tools ctx). td_name tool = name
          \<and> dispatch sv reg (Some ctx) (td_operation tool) (Some args) c = (r, c')
        else c' = c \<and> r = Inr \<lparr>oo_state = not_found, oo_result = None, oo_error = Some \<lparr>oe_code = not_found,
          oe_text = py_repr name @ '' is not a tool available here''\<rparr>\<rparr>"
  proof (cases "find (\<lambda>tool. td_name tool = name) (list_tools ctx)")
    case None
    then have "name \<notin> td_name ` set (list_tools ctx)" by (auto simp: find_None_iff)
    then show ?thesis using assms(2) None by (simp add: call_tool_def act_return_def)
  next
    case (Some tool)
    then have "tool \<in> set (list_tools ctx)" "td_name tool = name" by (auto simp: find_Some_iff)
    then show ?thesis using assms(2) Some by (auto simp: call_tool_def)
  qed
  then show ?thesis using visible_iff [OF ok] by (auto simp: list_tools_def)
qed

section \<open>Concrete calls\<close>

definition api_cluster :: cluster where
  "api_cluster = snd (issue_handler token_surroundings sample_operations 21 (replicate 32 7) sample_context token_input
     active_cluster)"

definition api_call :: "string option \<Rightarrow> (nat, nat) api_request" where
  "api_call authorization = \<lparr>aq_authorization = authorization, aq_query = [], aq_body = None\<rparr>"

definition api_answer :: "string option \<Rightarrow> nat envelope result \<times> cluster" where
  "api_answer authorization = run_operation token_surroundings 1 sample_service sample_operations length id
     ''core.note.list'' (api_call authorization) api_cluster"

lemma api_answered:
  "fst (api_answer (Some (''Bearer '' @ td_value sample_issued))) = Inr \<lparr>ev_status = 200, ev_state = succeeded, ev_result = Some 4, ev_error = None\<rparr>"
  by code_simp

lemma bearer_presented: "v \<noteq> [] \<Longrightarrow> bearer (Some (''Bearer '' @ v)) = Some v"
proof -
  have "partition_at (CHR '' '') (''Bearer'' @ CHR '' '' # v) = (''Bearer'', '' '', v)"
    by (rule partition_at_append) simp
  moreover have "lower ''Bearer'' = ''bearer''" by code_simp
  ultimately show "v \<noteq> [] \<Longrightarrow> bearer (Some (''Bearer '' @ v)) = Some v" by (simp add: bearer_def or_else_def)
qed

lemma api_result_needs_token_witness:
  "\<exists>t db wd. resolve_token token_surroundings (td_value sample_issued) ''api'' (cl_control api_cluster) = Inr (Inr t, db)
     \<and> ''core.note.list'' \<in> rt_operation_set t"
proof -
  have s: "\<forall>h cx. disciplined (sv_run sample_service h cx)"
    by (simp add: disciplined_def sample_service_def act_return_def)
  obtain resp c' where r: "api_answer (Some (''Bearer '' @ td_value sample_issued)) = (Inr resp, c')" "ev_result resp = Some 4"
    using api_answered by (metis envelope.select_convs(3) prod.collapse)
  have b: "bearer (aq_authorization (api_call (Some (''Bearer '' @ td_value sample_issued)))) = Some (td_value sample_issued)"
    unfolding api_call_def api_request.simps by (rule bearer_presented) (simp add: sample_issued_def token_text_def mint_def)
  show ?thesis
    using api_result_needs_token [OF s r(1) [unfolded api_answer_def]] r(2) b by auto
qed

definition mcp_context :: workspace_context where
  "mcp_context = sample_context\<lparr>cx_operation_set := Operations {''core.workspace.status''}, cx_enabled_modules := {}\<rparr>"

lemma mcp_shows_what_it_allows_witness:
  "snd (call_tool (core_service True setting_payload setting_surroundings core_table 1 []) core_table mcp_context
       ''harness_get_note'' [] active_cluster) = active_cluster
     \<and> workspace_status_tool \<in> set (list_tools mcp_context)"
proof -
  let ?ds = "map (\<lambda>(d, h). (d, h, core_origin)) (core_operations @ token_operations)"
  have reg: "rfold (add_operation setting_surroundings core_models) ?ds [] = Inr core_table"
    using core_registration [of setting_surroundings] unfolding register_core_operations_def rfold_map
    by (simp add: case_prod_unfold)
  have l: "list_tools mcp_context = [workspace_status_tool]" by code_simp
  have n: "''harness_get_note'' \<notin> td_name ` set (list_tools mcp_context)"
    unfolding l by (simp add: workspace_status_tool_def)
  show ?thesis
    using mcp_shows_what_it_allows [OF reg surjective_pairing,
        where sv = "core_service True setting_payload setting_surroundings core_table 1 []" and ctx = mcp_context
          and name = "''harness_get_note''" and args = "[]" and c = active_cluster] n l by auto
qed

end
