(* ===== verification/Resolver.thy ===== *)
theory Resolver
  imports Dispatch
begin

text \<open>
  \<open>rheo_core/refs/resolver.py\<close>: the table of record resolvers and the resolution of a
  reference under the caller's permission. A resolver is an opaque value the table keeps; what
  it does when called is the parameter \<open>run\<close>.
\<close>

definition record_live :: string where "record_live = ''live''"
definition record_deleted :: string where "record_deleted = ''deleted''"
definition record_unavailable :: string where "record_unavailable = ''unavailable''"
definition record_states :: "string set" where "record_states = {record_live, record_deleted, record_unavailable}"
definition reference_malformed :: string where "reference_malformed = ''reference_malformed''"
definition unresolvable :: string where "unresolvable = ''unresolvable''"

record record_head =
  rh_ref :: record_ref
  rh_display :: string
  rh_readable :: bool
  rh_state :: string
  rh_revision :: "int option"

datatype resolution = Head record_head | Record_Unavailable (un_reference: string) (un_reason: string)

section \<open>The table of resolvers\<close>

type_synonym 'h resolver_registry = "((string \<times> string) \<times> 'h) list"

definition register_resolver :: "surroundings \<Rightarrow> string \<Rightarrow> string \<Rightarrow> 'h \<Rightarrow> string \<Rightarrow> 'h resolver_registry
    \<Rightarrow> 'h resolver_registry result" where
  "register_resolver su module_id record_type resolver origin reg =
     (let key = module_id @ ''.'' @ record_type in
      ensure (is_segment module_id \<and> is_segment record_type)
        (RegistrationRefused key ''record types are <module_id>.<type>'')
      (rbind (check_origin su origin module_id key) (\<lambda>_.
       case map_of reg (module_id, record_type) of
         Some existing \<Rightarrow> if existing = resolver then Inr reg
           else Inl (RegistrationRefused key ''a resolver is already registered'')
       | None \<Rightarrow> Inr (reg @ [((module_id, record_type), resolver)]))))"

definition lookup_resolver :: "'h resolver_registry \<Rightarrow> string \<Rightarrow> string \<Rightarrow> 'h option" where
  "lookup_resolver reg module_id record_type = map_of reg (module_id, record_type)"

definition record_types :: "'h resolver_registry \<Rightarrow> string set" where
  "record_types reg = (\<lambda>((m, t), _). m @ ''.'' @ t) ` set reg"

definition resolver_admissible :: "surroundings \<Rightarrow> string \<Rightarrow> ((string \<times> string) \<times> 'h) \<Rightarrow> bool" where
  "resolver_admissible su origin d = (case d of ((m, t), _) \<Rightarrow> is_segment m \<and> is_segment t
     \<and> check_origin su origin m (m @ ''.'' @ t) = Inr ())"

definition add_resolver :: "surroundings \<Rightarrow> string \<Rightarrow> ((string \<times> string) \<times> 'h) \<Rightarrow> 'h resolver_registry
    \<Rightarrow> 'h resolver_registry result" where
  "add_resolver su origin d reg = (case d of ((m, t), h) \<Rightarrow> register_resolver su m t h origin reg)"

definition declared_resolver :: "'h resolver_registry \<Rightarrow> string \<times> string \<Rightarrow> ((string \<times> string) \<times> 'h) option" where
  "declared_resolver reg k = map_option (Pair k) (map_of reg k)"

lemma add_resolver_eq:
  "resolver_admissible su origin d \<Longrightarrow> add_resolver su origin d reg =
     (case map_of reg (fst d) of None \<Rightarrow> Inr (reg @ [d])
      | Some h \<Rightarrow> if h = snd d then Inr reg
          else Inl (RegistrationRefused (fst (fst d) @ ''.'' @ snd (fst d)) ''a resolver is already registered''))"
  by (auto simp: resolver_admissible_def add_resolver_def register_resolver_def Let_def split: option.splits prod.splits)

lemma add_resolver_inadmissible: "\<not> resolver_admissible su origin d \<Longrightarrow> \<exists>e. add_resolver su origin d reg = Inl e"
  by (cases "check_origin su origin (fst (fst d)) (fst (fst d) @ ''.'' @ snd (fst d))")
    (auto simp: resolver_admissible_def add_resolver_def register_resolver_def Let_def ensure_def split: prod.splits)

interpretation resolvers_table: declaration_table "add_resolver su origin" declared_resolver fst
  "resolver_admissible su origin" for su origin
proof unfold_locales
  show "\<exists>t'. add_resolver su origin d t = Inr t' \<and>
      (\<forall>k. declared_resolver t' k = (if k = fst d then Some d else declared_resolver t k))"
    if "resolver_admissible su origin d" "declared_resolver t (fst d) = None" for d t
    using that by (cases d) (auto simp: add_resolver_eq declared_resolver_def map_add_def split: option.splits)
  show "add_resolver su origin d t = Inr t"
    if "resolver_admissible su origin d" "declared_resolver t (fst d) = Some d" for d t
    using that by (auto simp: add_resolver_eq declared_resolver_def prod_eq_iff)
  show "\<exists>e. add_resolver su origin d t = Inl e"
    if "declared_resolver t (fst d) = Some d'" "d' \<noteq> d" for d d' t
    using that add_resolver_inadmissible [of su origin d t]
    by (cases "resolver_admissible su origin d"; cases d) (auto simp: add_resolver_eq declared_resolver_def)
qed (rule add_resolver_inadmissible)

section \<open>Resolution\<close>

text \<open>\<open>RecordRef | str\<close>.\<close>

datatype reference = Ref_Value record_ref | Ref_Text string

definition reference_text :: "reference \<Rightarrow> string" where
  "reference_text ref = (case ref of Ref_Value r \<Rightarrow> format_ref r | Ref_Text s \<Rightarrow> s)"

definition resolve_in :: "('h \<Rightarrow> workspace_context \<Rightarrow> record_ref \<Rightarrow> (call_state, resolution) action) \<Rightarrow> 'h resolver_registry
    \<Rightarrow> reference \<Rightarrow> workspace_context option \<Rightarrow> (call_state, resolution) action" where
  "resolve_in run reg ref ctx = (case ctx of
       None \<Rightarrow> act_return (Record_Unavailable (reference_text ref) context_required)
     | Some cx \<Rightarrow> (case (case ref of Ref_Value r \<Rightarrow> Inr r | Ref_Text s \<Rightarrow> parse_ref s) of
           Inl e \<Rightarrow> act_return (Record_Unavailable (reference_text ref) reference_malformed)
         | Inr parsed \<Rightarrow> (case lookup_resolver reg (rr_module parsed) (rr_record_type parsed) of
               None \<Rightarrow> act_return (Record_Unavailable (format_ref parsed) unresolvable)
             | Some resolver \<Rightarrow>
                 if \<not> is_reserved_module (rr_module parsed) \<and> rr_module parsed \<notin> cx_enabled_modules cx
                 then act_return (Record_Unavailable (format_ref parsed) module_disabled)
                 else run resolver cx parsed)))"

definition resolve_reference :: "bool \<Rightarrow> ('h \<Rightarrow> workspace_context \<Rightarrow> record_ref \<Rightarrow> (call_state, resolution) action)
    \<Rightarrow> 'h resolver_registry \<Rightarrow> reference \<Rightarrow> workspace_context option \<Rightarrow> (cluster, resolution) action" where
  "resolve_reference verify run reg ref ctx c = (case ctx of
       None \<Rightarrow> (Inr (Record_Unavailable (reference_text ref) context_required), c)
     | Some cx \<Rightarrow> (case open_call cx c of
           Inl (StorageRefusal st d _) \<Rightarrow> (Inr (Record_Unavailable (reference_text ref) st), c)
         | Inl e \<Rightarrow> (Inl e, c)
         | Inr u \<Rightarrow> (case enter_call verify u c of
               Inl e \<Rightarrow> (Inl e, c)
             | Inr u' \<Rightarrow> (case resolve_in run reg ref (Some cx) \<lparr>cs_cluster = c, cs_uow = u'\<rparr> of
                   (r, s) \<Rightarrow> (r, cs_cluster s)))))"

lemma open_call_InlD: "open_call cx c = Inl (StorageRefusal st d w) \<Longrightarrow> st = workspace_unavailable"
  by (auto simp: open_call_def active_workspace_def check_database_name_def make_uow_def ensure_def workspace_unavailable_def
      split: option.splits if_splits)

lemma entered_call:
  assumes "open_call cx c = Inr u" and "enter_call verify u c = Inr u'"
  obtains row wd where "get_workspace (cx_workspace_id cx) (cl_control c) = Some row" and "ws_state row = Active"
    and "map_of (cl_databases c) (ws_database_name row) = Some wd"
    and "\<lparr>cs_cluster = c, cs_uow = u'\<rparr> = live_call (ws_database_name row) wd c"
proof -
  obtain row where row: "get_workspace (cx_workspace_id cx) (cl_control c) = Some row" "ws_state row = Active"
    "uw_database u = ws_database_name row" "uw_expected u = ws_database_name row"
    using open_call_InrD [OF assms(1)] by auto
  show thesis
    using that [OF row(1,2)] assms(2) row(3,4)
    by (auto simp: enter_call_def uow_enter_def ensure_def live_call_def split: option.splits if_splits)
qed

lemma resolve_in_databases:
  assumes "\<forall>h cx. disciplined (run h cx)" and "resolve_in run reg ref ctx s = (r, s')"
  shows "cl_databases (cs_cluster s') = cl_databases (cs_cluster s)"
proof -
  have d: "run h cx i s = (r, s') \<Longrightarrow> ?thesis" for h cx i
    using disciplinedD [of "run h cx" i s r s'] assms(1) by blast
  then show ?thesis using assms(2)
    by (auto simp: resolve_in_def split: option.splits sum.splits if_splits reference.splits)
qed

lemma resolve_in_cases:
  assumes "resolve_in run reg ref (Some cx) s = (r, s')"
  shows "(\<exists>reason \<in> {reference_malformed, unresolvable, module_disabled}. r = Inr (Record_Unavailable (reference_text ref) reason))
     \<or> (\<exists>parsed h. (ref = Ref_Value parsed \<or> ref_ok parsed \<and> reference_text ref = format_ref parsed)
            \<and> lookup_resolver reg (rr_module parsed) (rr_record_type parsed) = Some h
            \<and> (is_reserved_module (rr_module parsed) \<or> rr_module parsed \<in> cx_enabled_modules cx)
            \<and> run h cx parsed s = (r, s'))"
proof -
  let ?p = "case ref of Ref_Value r \<Rightarrow> Inr r | Ref_Text s \<Rightarrow> parse_ref s"
  show ?thesis
  proof (cases ?p)
    case (Inl e)
    then show ?thesis using assms by (simp add: resolve_in_def)
  next
    case (Inr parsed)
    then have p: "ref = Ref_Value parsed \<or> ref_ok parsed \<and> reference_text ref = format_ref parsed"
      "reference_text ref = format_ref parsed"
      by (cases ref; auto simp: reference_text_def dest!: parse_ref_InrD)+
    then show ?thesis using assms Inr
      by (cases "lookup_resolver reg (rr_module parsed) (rr_record_type parsed)")
        (auto simp: resolve_in_def split: if_splits)
  qed
qed

text \<open>
  C28: a reference resolves inside the caller's own workspace or not at all. Resolving changes no
  workspace database. A result comes from a resolver registered for the module and the type of
  the very reference that was asked for, in a module that is the core or enabled for the
  caller, run over the database of the caller's own active workspace; anything else is
  \<open>Unavailable\<close> with the text of the reference and a reason that says nothing about records.
\<close>

theorem resolution_is_confined:
  assumes "\<forall>h cx. disciplined (run h cx)" and "resolve_reference verify run reg ref ctx c = (r, c')"
  shows "cl_databases c' = cl_databases c
     \<and> (\<forall>x. r = Inr x \<longrightarrow>
         x = Record_Unavailable (reference_text ref) (un_reason x)
           \<and> un_reason x \<in> {context_required, reference_malformed, unresolvable, module_disabled, workspace_unavailable}
       \<or> (\<exists>cx parsed h row wd s. ctx = Some cx
            \<and> (ref = Ref_Value parsed \<or> ref_ok parsed \<and> reference_text ref = format_ref parsed)
            \<and> lookup_resolver reg (rr_module parsed) (rr_record_type parsed) = Some h
            \<and> (is_reserved_module (rr_module parsed) \<or> rr_module parsed \<in> cx_enabled_modules cx)
            \<and> get_workspace (cx_workspace_id cx) (cl_control c) = Some row \<and> ws_state row = Active
            \<and> map_of (cl_databases c) (ws_database_name row) = Some wd
            \<and> run h cx parsed (live_call (ws_database_name row) wd c) = (Inr x, s)))"
proof (cases ctx)
  case None
  then show ?thesis using assms(2) by (auto simp: resolve_reference_def)
next
  case (Some cx)
  show ?thesis
  proof (cases "open_call cx c")
    case (Inl e)
    then show ?thesis using assms(2) Some
      by (auto simp: resolve_reference_def dest: open_call_InlD split: py_exc.splits)
  next
    case (Inr u)
    note opened = this
    show ?thesis
    proof (cases "enter_call verify u c")
      case (Inl e)
      then show ?thesis using assms(2) Some opened by (auto simp: resolve_reference_def)
    next
      case (Inr u')
      obtain row wd where row: "get_workspace (cx_workspace_id cx) (cl_control c) = Some row" "ws_state row = Active"
        "map_of (cl_databases c) (ws_database_name row) = Some wd"
        and live: "\<lparr>cs_cluster = c, cs_uow = u'\<rparr> = live_call (ws_database_name row) wd c"
        by (rule entered_call [OF opened Inr])
      obtain s where s: "resolve_in run reg ref (Some cx) (live_call (ws_database_name row) wd c) = (r, s)" "c' = cs_cluster s"
        using assms(2) Some opened Inr live by (auto simp: resolve_reference_def split: prod.splits)
      have "cl_databases c' = cl_databases c"
        using resolve_in_databases [OF assms(1) s(1)] s(2) by (simp add: live_call_def)
      then show ?thesis using resolve_in_cases [OF s(1)] row Some by auto
    qed
  qed
qed

definition note_ref :: record_ref where
  "note_ref = \<lparr>rr_module = ''core'', rr_record_type = ''note'', rr_id = 3\<rparr>"

definition note_resolver :: "nat \<Rightarrow> workspace_context \<Rightarrow> record_ref \<Rightarrow> (call_state, resolution) action" where
  "note_resolver h cx r = act_return (Head \<lparr>rh_ref = r, rh_display = ''a note'', rh_readable = True,
     rh_state = record_live, rh_revision = Some (int h)\<rparr>)"

lemma note_resolved:
  "fst (resolve_reference True note_resolver [((''core'', ''note''), 4)] (Ref_Value note_ref) (Some sample_context) active_cluster)
     = Inr (Head \<lparr>rh_ref = note_ref, rh_display = ''a note'', rh_readable = True, rh_state = record_live, rh_revision = Some 4\<rparr>)"
  by code_simp

lemma resolution_is_confined_witness:
  "\<exists>x c'. resolve_reference True note_resolver [((''core'', ''note''), 4)] (Ref_Value note_ref) (Some sample_context) active_cluster
       = (Inr x, c') \<and> cl_databases c' = cl_databases active_cluster
     \<and> (\<exists>row. get_workspace (cx_workspace_id sample_context) (cl_control active_cluster) = Some row \<and> ws_state row = Active)"
proof -
  have d: "\<forall>h cx. disciplined (note_resolver h cx)" by (simp add: disciplined_def note_resolver_def)
  obtain x c' where r: "resolve_reference True note_resolver [((''core'', ''note''), 4)] (Ref_Value note_ref)
      (Some sample_context) active_cluster = (Inr x, c')" "x \<noteq> Record_Unavailable (reference_text (Ref_Value note_ref)) (un_reason x)"
    using note_resolved by (metis prod.collapse resolution.distinct(1))
  show ?thesis using resolution_is_confined [OF d r(1)] r by fastforce
qed

end
