(* ===== verification/Data_Root.thy ===== *)
theory Data_Root
  imports Py_Text
begin

text \<open>
  \<open>rheo_core/storage/data_root.py\<close>: where the deployment's files live. A \<open>Path\<close> is its root and
  its parts, as POSIX \<open>pathlib\<close> has them. What the process asks the file system is a record of
  functions, its answers before the first effect; what it does to it is a list of effects, the
  directories \<open>mkdir(parents=True)\<close> makes above its argument among them. \<open>expanduser\<close> of a leading
  \<open>~user\<close> is a parameter, logging is the returned flag. The errors the operating system raises
  on \<open>mkdir\<close> and \<open>chmod\<close> themselves (no permission, a file or a dangling link in the way) are
  not modelled.
\<close>

section \<open>Paths\<close>

record py_path =
  pa_root :: string
  pa_parts :: "string list"

text \<open>\<open>Path(text)\<close>: empty and \<open>.\<close> components vanish; exactly two leading slashes stay two.\<close>

definition path_root :: "string \<Rightarrow> string" where
  "path_root t = (let slashes = length (takeWhile (\<lambda>c. c = CHR ''/'') t) in
     if slashes = 0 then [] else if slashes = 2 then ''//'' else ''/'')"

definition make_path :: "string \<Rightarrow> py_path" where
  "make_path t = \<lparr>pa_root = path_root t,
     pa_parts = filter (\<lambda>p. p \<noteq> [] \<and> p \<noteq> ''.'') (split_on (CHR ''/'') t)\<rparr>"

text \<open>\<open>path / name\<close> for a name of one component.\<close>

definition child :: "py_path \<Rightarrow> string \<Rightarrow> py_path" where
  "child p name = p\<lparr>pa_parts := pa_parts p @ [name]\<rparr>"

definition descend :: "py_path \<Rightarrow> string list \<Rightarrow> py_path" where
  "descend p names = foldl child p names"

definition is_absolute :: "py_path \<Rightarrow> bool" where
  "is_absolute p = (pa_root p \<noteq> [])"

definition parent_path :: "py_path \<Rightarrow> py_path" where
  "parent_path p = p\<lparr>pa_parts := butlast (pa_parts p)\<rparr>"

text \<open>\<open>(path, *path.parents)\<close>.\<close>

definition ancestors :: "py_path \<Rightarrow> py_path list" where
  "ancestors p = map (\<lambda>n. p\<lparr>pa_parts := take n (pa_parts p)\<rparr>) (rev [0..<Suc (length (pa_parts p))])"

definition is_relative_to :: "py_path \<Rightarrow> py_path \<Rightarrow> bool" where
  "is_relative_to p q = (pa_root p = pa_root q \<and> take (length (pa_parts q)) (pa_parts p) = pa_parts q)"

definition path_text :: "py_path \<Rightarrow> string" where
  "path_text p = (if pa_root p = [] \<and> pa_parts p = [] then ''.'' else pa_root p @ join_with ''/'' (pa_parts p))"

text \<open>\<open>home\<close> gives the home directory for a user name, the empty one being the process's own.\<close>

definition expanduser :: "(string \<Rightarrow> py_path option) \<Rightarrow> py_path \<Rightarrow> py_path result" where
  "expanduser home p =
     (if pa_root p = [] \<and> pa_parts p \<noteq> [] \<and> startswith (hd (pa_parts p)) ''~''
      then (case home (tl (hd (pa_parts p))) of
          None \<Rightarrow> Inl (RuntimeError ''Could not determine home directory.'')
        | Some h \<Rightarrow> Inr (descend h (tl (pa_parts p))))
      else Inr p)"

definition path_join :: "py_path \<Rightarrow> py_path \<Rightarrow> py_path" where
  "path_join p q = (if pa_root q \<noteq> [] then q else p\<lparr>pa_parts := pa_parts p @ pa_parts q\<rparr>)"

section \<open>Where the root is\<close>

definition data_root_variable :: string where "data_root_variable = ''RHEO_DATA_ROOT''"
definition container_variable :: string where "container_variable = ''RHEO_IN_CONTAINER''"
definition container_data_root :: py_path where "container_data_root = make_path ''/var/lib/rheo-stream''"
definition app_dir_name :: string where "app_dir_name = ''rheo-stream''"
definition local_opt_in :: string where "local_opt_in = ''.rheo-local''"
definition container_true :: "string list" where "container_true = [''1'', ''true'']"

datatype data_root_source = Source_Explicit | Source_Container | Source_Platform

record data_root_resolution =
  dr_path :: py_path
  dr_source :: data_root_source

definition explicitly_named :: "data_root_resolution \<Rightarrow> bool" where
  "explicitly_named r = (dr_source r = Source_Explicit)"

text \<open>\<open>environ\<close> is the environment, \<open>home_dir\<close> is \<open>Path.home()\<close>.\<close>

definition platform_data_dir :: "(string \<times> string) list \<Rightarrow> string \<Rightarrow> py_path \<Rightarrow> py_path" where
  "platform_data_dir environ platform home_dir =
     (if platform = ''darwin'' then descend home_dir [''Library'', ''Application Support'', app_dir_name]
      else if startswith platform ''win''
      then (case map_of environ ''LOCALAPPDATA'' of
          Some (c # cs) \<Rightarrow> child (make_path (c # cs)) app_dir_name
        | _ \<Rightarrow> descend home_dir [''AppData'', ''Local'', app_dir_name])
      else (case map_of environ ''XDG_DATA_HOME'' of
          Some (c # cs) \<Rightarrow> child (make_path (c # cs)) app_dir_name
        | _ \<Rightarrow> descend home_dir [''.local'', ''share'', app_dir_name]))"

definition env_text :: "(string \<times> string) list \<Rightarrow> string \<Rightarrow> string" where
  "env_text environ name = strip (case map_of environ name of None \<Rightarrow> [] | Some v \<Rightarrow> v)"

definition resolve_data_root :: "(string \<times> string) list \<Rightarrow> string \<Rightarrow> (string \<Rightarrow> py_path option) \<Rightarrow> py_path
    \<Rightarrow> data_root_resolution result" where
  "resolve_data_root environ platform home home_dir =
     (if env_text environ data_root_variable \<noteq> []
      then rbind (expanduser home (make_path (env_text environ data_root_variable)))
        (\<lambda>p. Inr \<lparr>dr_path = p, dr_source = Source_Explicit\<rparr>)
      else if lower (env_text environ container_variable) \<in> set container_true
      then Inr \<lparr>dr_path = container_data_root, dr_source = Source_Container\<rparr>
      else Inr \<lparr>dr_path = platform_data_dir environ platform home_dir, dr_source = Source_Platform\<rparr>)"

section \<open>What the file system says, and what is done to it\<close>

record fs_view =
  fv_cwd :: py_path
  fv_exists :: "py_path \<Rightarrow> bool"
  fv_is_file :: "py_path \<Rightarrow> bool"
  fv_is_dir :: "py_path \<Rightarrow> bool"
  fv_is_symlink :: "py_path \<Rightarrow> bool"
  fv_resolve :: "py_path \<Rightarrow> py_path"
  fv_mode :: "py_path \<Rightarrow> nat"

datatype fs_effect = Make_Dir (ef_path: py_path) nat | Change_Mode (ef_path: py_path) nat

definition find_checkout_root :: "fs_view \<Rightarrow> py_path option \<Rightarrow> py_path" where
  "find_checkout_root fs start =
     (let here = fv_resolve fs (case start of None \<Rightarrow> fv_cwd fs | Some p \<Rightarrow> p) in
      case find (\<lambda>candidate. fv_exists fs (child candidate ''.git'') \<or> fv_is_file fs (child candidate ''pyproject.toml''))
        (ancestors here) of
        Some candidate \<Rightarrow> candidate | None \<Rightarrow> here)"

definition root_subdirs :: "string list" where
  "root_subdirs = [''config'', ''secrets'', ''workspaces'', ''logs'']"

text \<open>
  \<open>0o777\<close> (511) is the mode \<open>mkdir\<close> asks for by default, \<open>0o700\<close> is 448. A \<open>Make_Dir\<close> leaves a
  directory that is there as it is (\<open>exist_ok\<close>).
\<close>

definition ensure_layout :: "py_path \<Rightarrow> fs_effect list" where
  "ensure_layout root = map (\<lambda>name. Make_Dir (child root name) 511) root_subdirs @ [Change_Mode (child root ''secrets'') 448]"

definition symlink_escapes :: "fs_view \<Rightarrow> py_path \<Rightarrow> bool" where
  "symlink_escapes fs root =
     (fv_is_symlink fs root \<and> \<not> is_relative_to (fv_resolve fs root) (fv_resolve fs (parent_path root)))"

text \<open>
  \<open>mkdir(parents=True)\<close>: the missing directories above the path are made first, the outermost one
  at the start, with the default mode; the mode given is for the path alone.
\<close>

definition missing_ancestors :: "fs_view \<Rightarrow> py_path \<Rightarrow> py_path list" where
  "missing_ancestors fs p = takeWhile (\<lambda>a. \<not> fv_exists fs a) (tl (ancestors p))"

definition mkdir_parents :: "fs_view \<Rightarrow> py_path \<Rightarrow> nat \<Rightarrow> fs_effect list" where
  "mkdir_parents fs p mode = map (\<lambda>a. Make_Dir a 511) (rev (missing_ancestors fs p)) @ [Make_Dir p mode]"

text \<open>The validated root, whether its permissions are wide, and the effects.\<close>

definition validate_data_root :: "fs_view \<Rightarrow> (string \<Rightarrow> py_path option) \<Rightarrow> py_path \<Rightarrow> py_path \<Rightarrow> bool
    \<Rightarrow> (py_path \<times> bool \<times> fs_effect list) result" where
  "validate_data_root fs home p checkout_root named =
     rbind (expanduser home p) (\<lambda>expanded.
     let root = (if is_absolute expanded then expanded else path_join (fv_cwd fs) expanded) in
     rbind (expanduser home checkout_root) (\<lambda>checkout_expanded.
     let checkout = fv_resolve fs checkout_expanded;
         resolved = fv_resolve fs root in
     ensure (\<not> symlink_escapes fs root)
       (DataRootRefusal ''data_root_symlink_escapes'' (''data root '' @ path_text root @ '' is a symlink to ''
          @ path_text resolved @ '', outside its parent '' @ path_text (fv_resolve fs (parent_path root))))
     (ensure (is_relative_to resolved checkout \<longrightarrow> resolved = child checkout local_opt_in \<and> named)
       (DataRootRefusal ''data_root_in_checkout'' (''data root '' @ path_text resolved
          @ '' is inside the source checkout '' @ path_text checkout @ ''; only '' @ path_text (child checkout local_opt_in)
          @ '' is allowed, and only when '' @ data_root_variable @ '' names it explicitly''))
     (if \<not> fv_exists fs root
      then Inr (root, False, mkdir_parents fs root 448 @ [Change_Mode root 448] @ ensure_layout root)
      else ensure (fv_is_dir fs root)
        (DataRootRefusal ''data_root_not_a_directory'' (''data root '' @ path_text root @ '' exists and is not a directory''))
        (Inr (root, fv_mode fs root mod 64 \<noteq> 0, ensure_layout root))))))"

section \<open>Workspace directories\<close>

datatype purpose = Uploads | Exports | Scratch

definition purpose_value :: "purpose \<Rightarrow> string" where
  "purpose_value p = (case p of Uploads \<Rightarrow> ''uploads'' | Exports \<Rightarrow> ''exports'' | Scratch \<Rightarrow> ''scratch'')"

definition purpose_subdir :: "purpose \<Rightarrow> string" where
  "purpose_subdir p = (case p of Uploads \<Rightarrow> ''uploads'' | Exports \<Rightarrow> ''exports'' | Scratch \<Rightarrow> ''runtime'')"

definition purpose_of :: "string \<Rightarrow> purpose result" where
  "purpose_of t = (case find (\<lambda>p. purpose_value p = t) [Uploads, Exports, Scratch] of
     Some p \<Rightarrow> Inr p | None \<Rightarrow> Inl (ValueError (py_repr t @ '' is not a valid Purpose'')))"

definition workspace_dir_for :: "data_root_resolution result \<Rightarrow> uuid \<Rightarrow> string \<Rightarrow> py_path result" where
  "workspace_dir_for resolution workspace_id t =
     rbind (purpose_of t) (\<lambda>p.
     rbind resolution (\<lambda>r.
     Inr (descend (dr_path r) [''workspaces'', uuid_str workspace_id, purpose_subdir p])))"

section \<open>Confinement\<close>

lemma descend_parts [simp]: "pa_parts (descend p names) = pa_parts p @ names" "pa_root (descend p names) = pa_root p"
  by (induction names arbitrary: p) (simp_all add: descend_def child_def)

lemma child_parts [simp]: "pa_parts (child p name) = pa_parts p @ [name]" "pa_root (child p name) = pa_root p"
  by (simp_all add: child_def)

lemma below_self [simp]: "is_relative_to p p" "is_relative_to (child p name) p" "is_relative_to (descend p names) p"
  by (simp_all add: is_relative_to_def)

lemma layout_below: "e \<in> set (ensure_layout root) \<Longrightarrow> is_relative_to (ef_path e) root"
  by (auto simp: ensure_layout_def)

lemma validate_InrD:
  assumes "validate_data_root fs home p checkout_root named = Inr (root, wide, effects)"
  obtains expanded checkout where "expanduser home p = Inr expanded" and "expanduser home checkout_root = Inr checkout"
    and "root = (if is_absolute expanded then expanded else path_join (fv_cwd fs) expanded)"
    and "\<not> symlink_escapes fs root"
    and "is_relative_to (fv_resolve fs root) (fv_resolve fs checkout) \<longrightarrow>
           fv_resolve fs root = child (fv_resolve fs checkout) local_opt_in \<and> named"
    and "fv_exists fs root \<longrightarrow> fv_is_dir fs root"
    and "effects = (if fv_exists fs root then [] else mkdir_parents fs root 448 @ [Change_Mode root 448]) @ ensure_layout root"
proof -
  obtain expanded checkout where e: "expanduser home p = Inr expanded" "expanduser home checkout_root = Inr checkout"
    using assms by (auto simp: validate_data_root_def Let_def)
  let ?root = "if is_absolute expanded then expanded else path_join (fv_cwd fs) expanded"
  have "root = ?root \<and> \<not> symlink_escapes fs ?root
    \<and> (is_relative_to (fv_resolve fs ?root) (fv_resolve fs checkout) \<longrightarrow>
         fv_resolve fs ?root = child (fv_resolve fs checkout) local_opt_in \<and> named)
    \<and> (fv_exists fs ?root \<longrightarrow> fv_is_dir fs ?root)
    \<and> effects = (if fv_exists fs ?root then [] else mkdir_parents fs ?root 448 @ [Change_Mode ?root 448]) @ ensure_layout ?root"
    using assms e unfolding validate_data_root_def Let_def by (auto split: if_splits)
  then show thesis using that [OF e] by simp
qed

lemma missing_ancestorsD:
  assumes "a \<in> set (missing_ancestors fs p)"
  shows "is_relative_to p a" and "\<not> fv_exists fs a" and "length (pa_parts a) < length (pa_parts p)"
proof -
  have "a \<in> set (tl (ancestors p))" using assms by (auto simp: missing_ancestors_def dest: set_takeWhileD)
  then obtain n where "n < length (pa_parts p)" "a = p\<lparr>pa_parts := take n (pa_parts p)\<rparr>"
    by (auto simp: ancestors_def simp flip: map_tl)
  then show "is_relative_to p a" "length (pa_parts a) < length (pa_parts p)" by (simp_all add: is_relative_to_def)
  show "\<not> fv_exists fs a" using assms by (auto simp: missing_ancestors_def dest: set_takeWhileD)
qed

lemma mkdir_parentsD:
  "e \<in> set (mkdir_parents fs p mode) \<Longrightarrow>
     e = Make_Dir p mode \<or> (\<exists>a. e = Make_Dir a 511 \<and> a \<in> set (missing_ancestors fs p))"
  by (auto simp: mkdir_parents_def)

text \<open>
  C33: a deployment's files stay out of the source checkout. A data root that startup accepts is
  an absolute path whose real location is not inside the checkout, unless it is exactly its
  \<open>.rheo-local\<close> and \<open>RHEO_DATA_ROOT\<close> named it; it is a directory or was not there, and as a
  symlink it stays below its parent. What is done to the file system is done at or below it,
  but for one thing: where the root was not there, directories above it that were missing too
  are made. Nothing that exists above the root is changed, and the last effect leaves
  \<open>secrets/\<close> open to its owner alone.
\<close>

theorem data_root_is_confined:
  assumes "resolve_data_root environ platform home home_dir = Inr r" and "is_absolute (fv_cwd fs)"
    and "validate_data_root fs home (dr_path r) checkout_root (explicitly_named r) = Inr (root, wide, effects)"
  shows "is_absolute root
     \<and> (\<exists>checkout. expanduser home checkout_root = Inr checkout
          \<and> (is_relative_to (fv_resolve fs root) (fv_resolve fs checkout) \<longrightarrow>
               fv_resolve fs root = child (fv_resolve fs checkout) local_opt_in \<and> env_text environ data_root_variable \<noteq> []))
     \<and> (fv_exists fs root \<longrightarrow> fv_is_dir fs root)
     \<and> (fv_is_symlink fs root \<longrightarrow> is_relative_to (fv_resolve fs root) (fv_resolve fs (parent_path root)))
     \<and> (\<forall>e \<in> set effects. is_relative_to (ef_path e) root
          \<or> (\<exists>a. e = Make_Dir a 511 \<and> is_relative_to root a \<and> a \<noteq> root \<and> \<not> fv_exists fs a \<and> \<not> fv_exists fs root))
     \<and> last effects = Change_Mode (child root ''secrets'') 448"
proof -
  from assms(3) obtain expanded checkout where v: "expanduser home checkout_root = Inr checkout"
    "root = (if is_absolute expanded then expanded else path_join (fv_cwd fs) expanded)"
    "\<not> symlink_escapes fs root"
    "is_relative_to (fv_resolve fs root) (fv_resolve fs checkout) \<longrightarrow>
       fv_resolve fs root = child (fv_resolve fs checkout) local_opt_in \<and> explicitly_named r"
    "fv_exists fs root \<longrightarrow> fv_is_dir fs root"
    "effects = (if fv_exists fs root then [] else mkdir_parents fs root 448 @ [Change_Mode root 448]) @ ensure_layout root"
    by (rule validate_InrD)
  have "is_absolute root" using v(2) assms(2) by (auto simp: is_absolute_def path_join_def)
  moreover have "explicitly_named r \<Longrightarrow> env_text environ data_root_variable \<noteq> []"
    using assms(1) by (auto simp: resolve_data_root_def explicitly_named_def split: if_splits)
  moreover have "is_relative_to (ef_path e) root
      \<or> (\<exists>a. e = Make_Dir a 511 \<and> is_relative_to root a \<and> a \<noteq> root \<and> \<not> fv_exists fs a \<and> \<not> fv_exists fs root)"
    if "e \<in> set effects" for e
  proof -
    consider "e \<in> set (ensure_layout root)" | "e = Change_Mode root 448"
      | "\<not> fv_exists fs root" "e \<in> set (mkdir_parents fs root 448)"
      using \<open>e \<in> set effects\<close> v(6) by (auto split: if_splits)
    then show ?thesis
    proof cases
      case 3
      from mkdir_parentsD [OF 3(2)] show ?thesis
      proof (elim disjE exE conjE)
        fix a assume "e = Make_Dir a 511" "a \<in> set (missing_ancestors fs root)"
        then show ?thesis using missing_ancestorsD [of a fs root] 3(1) by blast
      qed simp
    qed (auto dest: layout_below)
  qed
  moreover have "last effects = Change_Mode (child root ''secrets'') 448" using v(6) by (simp add: ensure_layout_def)
  ultimately show ?thesis using v by (auto simp: symlink_escapes_def)
qed

text \<open>
  No two workspaces and no two purposes share a directory, and none lies inside another: a
  directory a module gets is below its own workspace's, and one that is at or below another is
  the same workspace's for the same purpose.
\<close>

theorem workspace_directories_are_disjoint:
  assumes "workspace_dir_for resolution w t = Inr p" and "workspace_dir_for resolution w' t' = Inr p'"
    and "is_relative_to p p'"
  shows "w = w' \<and> t = t' \<and> p = p'
     \<and> (\<exists>r. resolution = Inr r \<and> is_relative_to p (descend (dr_path r) [''workspaces'', uuid_str w]))"
proof -
  obtain r u u' where r: "resolution = Inr r" "purpose_of t = Inr u" "purpose_of t' = Inr u'"
    and p: "p = descend (dr_path r) [''workspaces'', uuid_str w, purpose_subdir u]"
      "p' = descend (dr_path r) [''workspaces'', uuid_str w', purpose_subdir u']"
    using assms(1,2) by (auto simp: workspace_dir_for_def)
  have "uuid_str w = uuid_str w' \<and> purpose_subdir u = purpose_subdir u'"
    using assms(3) p by (simp add: is_relative_to_def)
  then have "w = w'" "u = u'" by (auto simp: purpose_subdir_def uuid_str_inject split: purpose.splits)
  moreover have "t = purpose_value u" "t' = purpose_value u'"
    using r(2,3) by (auto simp: purpose_of_def split: if_splits)
  ultimately show ?thesis using r(1) p by (auto simp: is_relative_to_def)
qed

section \<open>A concrete file system\<close>

definition checkout_view :: fs_view where
  "checkout_view = \<lparr>fv_cwd = make_path ''/repo/apps'', fv_exists = (\<lambda>p. p \<in> set (map make_path [''/'', ''/repo'', ''/repo/.git'', ''/repo/apps''])),
     fv_is_file = (\<lambda>p. False), fv_is_dir = (\<lambda>p. False), fv_is_symlink = (\<lambda>p. False), fv_resolve = id, fv_mode = (\<lambda>p. 448)\<rparr>"

lemma checkout_found: "find_checkout_root checkout_view None = make_path ''/repo''"
  by code_simp

text \<open>
  The check looks at where the root leads, the directories are made along the way it is
  written: a root outside the checkout whose path leads through it leaves one inside.
\<close>

lemma ancestor_made_in_checkout:
  "(case validate_data_root (checkout_view\<lparr>fv_resolve := (\<lambda>p. if p = make_path ''/repo/new/../../srv/rheo''
        then make_path ''/srv/rheo'' else p)\<rparr>) (\<lambda>_. None) (make_path ''/repo/new/../../srv/rheo'') (make_path ''/repo'') True of
      Inl e \<Rightarrow> False | Inr (root, wide, effects) \<Rightarrow> hd effects = Make_Dir (make_path ''/repo/new'') 511)"
  by code_simp

lemma data_root_is_confined_witness:
  "\<exists>effects. validate_data_root checkout_view (\<lambda>_. None) (make_path ''/srv/rheo'') (make_path ''/repo'') True
       = Inr (make_path ''/srv/rheo'', False, effects) \<and> hd effects = Make_Dir (make_path ''/srv'') 511
     \<and> last effects = Change_Mode (child (make_path ''/srv/rheo'') ''secrets'') 448"
proof -
  let ?r = "\<lparr>dr_path = make_path ''/srv/rheo'', dr_source = Source_Explicit\<rparr>"
  let ?es = "[Make_Dir (make_path ''/srv'') 511, Make_Dir (make_path ''/srv/rheo'') 448,
      Change_Mode (make_path ''/srv/rheo'') 448] @ ensure_layout (make_path ''/srv/rheo'')"
  have r: "resolve_data_root [(data_root_variable, ''/srv/rheo'')] ''linux'' (\<lambda>_. None) (make_path ''/home/a'') = Inr ?r"
    by code_simp
  have c: "is_absolute (fv_cwd checkout_view)" by code_simp
  have v: "validate_data_root checkout_view (\<lambda>_. None) (dr_path ?r) (make_path ''/repo'') (explicitly_named ?r)
      = Inr (make_path ''/srv/rheo'', False, ?es)" by code_simp
  have l: "last ?es = Change_Mode (child (make_path ''/srv/rheo'') ''secrets'') 448"
    using data_root_is_confined [OF r c v] by (elim conjE)
  have "validate_data_root checkout_view (\<lambda>_. None) (make_path ''/srv/rheo'') (make_path ''/repo'') True
      = Inr (make_path ''/srv/rheo'', False, ?es)" using v by (simp only: explicitly_named_def data_root_resolution.simps simp_thms)
  then show ?thesis using l by (intro exI [of _ ?es]) (simp del: last.simps last_append)
qed

lemma workspace_directories_are_disjoint_witness:
  "\<exists>p. workspace_dir_for (Inr \<lparr>dr_path = container_data_root, dr_source = Source_Container\<rparr>) 5 ''scratch'' = Inr p
     \<and> last (pa_parts p) = ''runtime'' \<and> is_relative_to p (descend container_data_root [''workspaces'', uuid_str 5])"
proof -
  let ?d = "Inr \<lparr>dr_path = container_data_root, dr_source = Source_Container\<rparr>"
  have "purpose_of ''scratch'' = Inr Scratch" by code_simp
  then have d: "workspace_dir_for ?d 5 ''scratch''
      = Inr (descend container_data_root [''workspaces'', uuid_str 5, ''runtime''])"
    by (simp add: workspace_dir_for_def purpose_subdir_def)
  show ?thesis using workspace_directories_are_disjoint [OF d d] d by auto
qed

end
