(* ===== verification/Postgres_Backend.thy ===== *)
theory Postgres_Backend
  imports Secrets Storage_Pool Data_Root
begin

text \<open>
  \<open>rheo_core/storage/postgres.py\<close>: the backend built from settings, the process-wide instance,
  the databases of the cluster and the catalog report of \<open>rheo doctor\<close>. SQLAlchemy's URL parser
  and printer and the decoding of a secret's bytes are parameters (\<open>url_library\<close>); the cluster's
  catalog is the list of its database names. An open connection is not modelled, nor is waiting
  for an advisory lock.
\<close>

section \<open>The cluster URL\<close>

definition cluster_dsn_ref_key :: string where "cluster_dsn_ref_key = ''storage.cluster_dsn_ref''"
definition control_database_key :: string where "control_database_key = ''storage.control_database''"
definition template_database_key :: string where "template_database_key = ''storage.template_database''"
definition pool_cache_size_key :: string where "pool_cache_size_key = ''storage.pool_cache_size''"
definition pool_max_connections_key :: string where "pool_max_connections_key = ''storage.pool_max_connections''"
definition default_maintenance_database :: string where "default_maintenance_database = ''postgres''"
definition psycopg_driver :: string where "psycopg_driver = ''postgresql+psycopg''"

text \<open>\<open>cu_address\<close> is everything of the URL but its driver and database.\<close>

record cluster_url =
  cu_drivername :: string
  cu_address :: string
  cu_database :: "string option"

record url_library =
  ul_make_url :: "string \<Rightarrow> cluster_url option"
  ul_render :: "cluster_url \<Rightarrow> string"
  ul_decode :: "bytes \<Rightarrow> string result"

definition cluster_url_from_dsn :: "url_library \<Rightarrow> string \<Rightarrow> cluster_url result" where
  "cluster_url_from_dsn lib dsn = (case ul_make_url lib dsn of
       None \<Rightarrow> Inl (ValueError (cluster_dsn_ref_key @ '' resolves to a value that is not a URL''))
     | Some url0 \<Rightarrow>
         let url = (if cu_drivername url0 = ''postgresql'' then url0\<lparr>cu_drivername := psycopg_driver\<rparr> else url0) in
         ensure (cu_drivername url = psycopg_driver)
           (ValueError (cluster_dsn_ref_key @ '' must resolve to a postgresql:// URL''))
         (Inr (if cu_database url = None \<or> cu_database url = Some []
               then url\<lparr>cu_database := Some default_maintenance_database\<rparr> else url)))"

section \<open>The backend\<close>

record backend =
  be_url :: cluster_url
  be_control :: string
  be_template :: string
  be_maintenance :: string
  be_pool :: engine_pool
  be_pool_max :: int
  be_verify :: bool
  be_control_engine :: bool

text \<open>\<open>__init__\<close>. The verification flag is also published to every unit of work.\<close>

definition make_backend :: "url_library \<Rightarrow> cluster_url \<Rightarrow> string \<Rightarrow> string \<Rightarrow> int \<Rightarrow> int \<Rightarrow> bool \<Rightarrow> backend result" where
  "make_backend lib url0 control_database template_database pool_cache_size pool_max_connections verify =
     rbind (cluster_url_from_dsn lib (ul_render lib url0)) (\<lambda>url.
     rbind (check_database_name control_database) (\<lambda>control.
     rbind (check_database_name template_database) (\<lambda>template.
     rbind (check_database_name (case cu_database url of None \<Rightarrow> ''None'' | Some d \<Rightarrow> d)) (\<lambda>maintenance.
     rbind (make_pool pool_cache_size pool_max_connections) (\<lambda>pool.
     Inr \<lparr>be_url = url, be_control = control, be_template = template, be_maintenance = maintenance,
          be_pool = pool, be_pool_max = pool_max_connections, be_verify = verify, be_control_engine = False\<rparr>)))))"

definition storage_scope :: "secret_scope result" where
  "storage_scope = scope_for ''storage'' [''secret://file/cluster/'', ''secret://env/RHEO_CLUSTER_DSN'']"

text \<open>\<open>PostgresBackend.from_settings()\<close>.\<close>

definition backend_from_settings :: "url_library \<Rightarrow> surroundings \<Rightarrow> secret_store \<Rightarrow> backend result" where
  "backend_from_settings lib su store =
     rbind storage_scope (\<lambda>scope.
     rbind (settings_str su cluster_dsn_ref_key) (\<lambda>t.
     rbind (parse_secret_ref t) (\<lambda>reference.
     rbind (resolve_secret store reference scope) (\<lambda>secret.
     rbind (ul_decode lib secret) (\<lambda>dsn.
     rbind (cluster_url_from_dsn lib dsn) (\<lambda>url.
     rbind (settings_str su control_database_key) (\<lambda>control.
     rbind (settings_str su template_database_key) (\<lambda>template.
     rbind (settings_int su pool_cache_size_key) (\<lambda>cache_size.
     rbind (settings_int su pool_max_connections_key) (\<lambda>max_connections.
     rbind (settings_str su ''profile'') (\<lambda>p.
     make_backend lib url control template cache_size max_connections (p = ''test''))))))))))))"

definition open_control_engine :: "backend \<Rightarrow> backend" where
  "open_control_engine b = b\<lparr>be_control_engine := True\<rparr>"

definition dispose_backend :: "backend \<Rightarrow> backend" where
  "dispose_backend b = b\<lparr>be_pool := dispose_all (be_pool b), be_control_engine := False\<rparr>"

text \<open>The process-wide instance.\<close>

definition get_backend :: "backend result \<Rightarrow> (backend option, backend) action" where
  "get_backend build s = (case s of
       Some b \<Rightarrow> (Inr b, s)
     | None \<Rightarrow> (case build of Inl e \<Rightarrow> (Inl e, None) | Inr b \<Rightarrow> (Inr b, Some b)))"

definition reset_backend :: "backend option \<Rightarrow> backend option \<times> backend option" where
  "reset_backend s = (map_option dispose_backend s, None)"

section \<open>Databases\<close>

definition database_exists :: "string \<Rightarrow> string list \<Rightarrow> bool result" where
  "database_exists name catalog = rbind (check_database_name name) (\<lambda>n. Inr (n \<in> set catalog))"

text \<open>The server looks the template up before it looks for a database of the new name.\<close>

definition ensure_database :: "string \<Rightarrow> string option \<Rightarrow> (string list, bool) action" where
  "ensure_database name template catalog =
     (case check_database_name name of
        Inl e \<Rightarrow> (Inl e, catalog)
      | Inr database \<Rightarrow> (case (case template of None \<Rightarrow> Inr None | Some t \<Rightarrow> map_sum id Some (check_database_name t)) of
            Inl e \<Rightarrow> (Inl e, catalog)
          | Inr source \<Rightarrow>
              if (case source of None \<Rightarrow> False | Some t \<Rightarrow> t \<notin> set catalog)
              then (Inl (OtherException ''ProgrammingError'' ''template database does not exist''), catalog)
              else if database \<in> set catalog then (Inr False, catalog)
              else (Inr True, catalog @ [database])))"

definition ensure_control_database :: "backend \<Rightarrow> (string list, bool) action" where
  "ensure_control_database b = ensure_database (be_control b) None"

section \<open>The extension report\<close>

record extension =
  ex_name :: string
  ex_default_version :: "string option"
  ex_installed_version :: "string option"
  ex_trusted :: "bool option"

record extension_report =
  xr_template_database :: string
  xr_role_is_superuser :: bool
  xr_role_may_create :: bool
  xr_extensions :: "extension list"

definition may_create :: "extension_report \<Rightarrow> extension \<Rightarrow> bool" where
  "may_create report ext =
     (if ex_default_version ext = None then False
      else xr_role_is_superuser report \<or> (ex_trusted ext = Some True \<and> xr_role_may_create report))"

text \<open>The catalogs the report reads.\<close>

record pg_catalog =
  pc_superuser :: bool
  pc_may_create :: "string \<Rightarrow> bool"
  pc_available :: "(string \<times> string option \<times> string option) list"
  pc_trusted :: "(string \<times> bool) list"

definition report_extensions :: "backend \<Rightarrow> pg_catalog \<Rightarrow> string list \<Rightarrow> extension_report" where
  "report_extensions b cat wanted =
     \<lparr>xr_template_database = be_template b, xr_role_is_superuser = pc_superuser cat,
      xr_role_may_create = pc_may_create cat (be_template b),
      xr_extensions = map (\<lambda>name. \<lparr>ex_name = name,
        ex_default_version = (case map_of (pc_available cat) name of None \<Rightarrow> None | Some (v, _) \<Rightarrow> v),
        ex_installed_version = (case map_of (pc_available cat) name of None \<Rightarrow> None | Some (_, v) \<Rightarrow> v),
        ex_trusted = map_of (pc_trusted cat) name\<rparr>) wanted\<rparr>"

section \<open>What the backend stands on\<close>

lemma cluster_url_InrD:
  "cluster_url_from_dsn lib dsn = Inr url \<Longrightarrow> cu_drivername url = psycopg_driver \<and> (\<exists>d. cu_database url = Some d \<and> d \<noteq> [])"
  by (auto simp: cluster_url_from_dsn_def Let_def default_maintenance_database_def split: option.splits if_splits)

text \<open>The two refusals of a DSN are fixed texts: nothing of the value is in them.\<close>

lemma dsn_not_echoed:
  "cluster_url_from_dsn lib dsn = Inl e \<Longrightarrow>
     e \<in> {ValueError (cluster_dsn_ref_key @ '' resolves to a value that is not a URL''),
          ValueError (cluster_dsn_ref_key @ '' must resolve to a postgresql:// URL'')}"
  by (auto simp: cluster_url_from_dsn_def Let_def ensure_def split: option.splits if_splits)

lemma storage_scope_eq:
  "storage_scope = Inr \<lparr>sc_component = ''storage'', sc_prefixes = [''secret://file/cluster/'', ''secret://env/RHEO_CLUSTER_DSN'']\<rparr>"
  by code_simp

lemma env_name_no_slash: "is_env_name s \<Longrightarrow> CHR ''/'' \<notin> set s"
  by (cases s) (auto simp: list_all_iff env_start_def is_upper_def is_lower_def is_digit_def less_eq_char_def)

lemma storage_scope_permits:
  assumes "storage_scope = Inr sc" and "permits sc ref" and "secret_ref_ok ref"
  shows "secret_ref_str ref = ''secret://env/RHEO_CLUSTER_DSN'' \<or> startswith (secret_ref_str ref) ''secret://file/cluster/''"
proof (rule ccontr)
  assume no: "\<not> ?thesis"
  let ?p = "''secret://env/RHEO_CLUSTER_DSN''"
  have ends: "endswith ''secret://file/cluster/'' ''/''" "\<not> endswith ?p ''/''"
    "startswith ''secret://file/cluster/'' ''secret://file/cluster/''" by code_simp+
  have sc: "sc_prefixes sc = [''secret://file/cluster/'', ?p]"
    using assms(1) unfolding storage_scope_eq by auto
  have "startswith (secret_ref_str ref) (?p @ ''/'')"
    using assms(2) no ends by (auto simp: permits_def Let_def sc simp del: append_Cons append.simps)
  then obtain t where t: "secret_ref_str ref = ?p @ ''/'' @ t" by (auto simp: startswith_iff)
  show False
  proof (cases "sref_backend ref")
    case Env_Backend
    then have "sref_id ref = ''RHEO_CLUSTER_DSN/'' @ t" using t by (simp add: secret_ref_str_def scheme_def backend_value_def)
    then have "CHR ''/'' \<in> set (sref_id ref)" by simp
    then show False using env_name_no_slash assms(3) Env_Backend by (simp add: secret_ref_ok_def)
  next
    case File_Backend
    then show False using t by (simp add: secret_ref_str_def scheme_def backend_value_def)
  qed
qed

text \<open>
  The process talks to the cluster it was configured for. A backend built from settings has a
  psycopg URL with a database, three well-formed database names and an empty bounded pool; it
  verifies the database of every unit of work exactly under the test profile; and its URL came
  from the environment variable \<open>RHEO_CLUSTER_DSN\<close> or from a file below \<open>cluster/\<close>, whatever
  reference the settings name.
\<close>

theorem backend_is_configured:
  assumes "backend_from_settings lib su store = Inr b"
  shows "cu_drivername (be_url b) = psycopg_driver \<and> cu_database (be_url b) = Some (be_maintenance b)
     \<and> database_name_ok (be_control b) \<and> database_name_ok (be_template b) \<and> database_name_ok (be_maintenance b)
     \<and> pool_ok (be_pool b) \<and> cached (be_pool b) = []
     \<and> (be_verify b \<longleftrightarrow> settings_str su ''profile'' = Inr ''test'')
     \<and> (\<exists>sc ref secret dsn url. storage_scope = Inr sc
          \<and> settings_str su cluster_dsn_ref_key = Inr (secret_ref_str ref)
          \<and> resolve_secret store ref sc = Inr secret \<and> ul_decode lib secret = Inr dsn
          \<and> cluster_url_from_dsn lib dsn = Inr url
          \<and> (secret_ref_str ref = ''secret://env/RHEO_CLUSTER_DSN'' \<or> startswith (secret_ref_str ref) ''secret://file/cluster/''))"
proof -
  obtain sc t ref secret dsn url p where b: "storage_scope = Inr sc" "settings_str su cluster_dsn_ref_key = Inr t"
    "parse_secret_ref t = Inr ref" "resolve_secret store ref sc = Inr secret" "ul_decode lib secret = Inr dsn"
    "cluster_url_from_dsn lib dsn = Inr url" "settings_str su ''profile'' = Inr p"
    and m: "\<exists>control template cache_size max_connections.
      make_backend lib url control template cache_size max_connections (p = ''test'') = Inr b"
    using assms unfolding backend_from_settings_def rbind_eq_Inr by blast
  have r: "secret_ref_ok ref" "secret_ref_str ref = t" using parse_secret_ref_Inr [OF b(3)] by simp_all
  have "permits sc ref" using b(4) by (auto simp: resolve_secret_def ensure_def split: if_splits)
  then have f: "secret_ref_str ref = ''secret://env/RHEO_CLUSTER_DSN'' \<or> startswith (secret_ref_str ref) ''secret://file/cluster/''"
    using storage_scope_permits b(1) r(1) by blast
  have "settings_str su cluster_dsn_ref_key = Inr (secret_ref_str ref)" using b(2) r(2) by simp
  with b(1,4-6) f have "\<exists>sc ref secret dsn url. storage_scope = Inr sc
          \<and> settings_str su cluster_dsn_ref_key = Inr (secret_ref_str ref)
          \<and> resolve_secret store ref sc = Inr secret \<and> ul_decode lib secret = Inr dsn
          \<and> cluster_url_from_dsn lib dsn = Inr url
          \<and> (secret_ref_str ref = ''secret://env/RHEO_CLUSTER_DSN'' \<or> startswith (secret_ref_str ref) ''secret://file/cluster/'')"
    by blast
  moreover have "cu_drivername (be_url b) = psycopg_driver \<and> cu_database (be_url b) = Some (be_maintenance b)
     \<and> database_name_ok (be_control b) \<and> database_name_ok (be_template b) \<and> database_name_ok (be_maintenance b)
     \<and> pool_ok (be_pool b) \<and> cached (be_pool b) = [] \<and> be_verify b = (p = ''test'')"
    using m make_pool_ok cluster_url_InrD
    by (fastforce simp: make_backend_def check_database_name_def ensure_def make_pool_def cached_def split: if_splits)
  ultimately show ?thesis using b(7) by simp
qed

lemma ensure_database_works:
  "database_name_ok n \<Longrightarrow> ensure_database n None catalog =
     (Inr (n \<notin> set catalog), if n \<in> set catalog then catalog else catalog @ [n])"
  by (simp add: ensure_database_def check_database_name_def)

text \<open>A second creator of a database succeeds without creating.\<close>

lemma ensure_database_again:
  "ensure_database name template catalog = (Inr fresh, catalog') \<Longrightarrow>
     ensure_database name template catalog' = (Inr False, catalog') \<and> name \<in> set catalog' \<and> set catalog \<subseteq> set catalog'"
  by (auto simp: ensure_database_def check_database_name_def ensure_def split: option.splits if_splits sum.splits)

section \<open>A configured process\<close>

definition str_key :: "string \<Rightarrow> string \<Rightarrow> key_spec" where
  "str_key key v = sample_key\<lparr>ks_key := key, ks_type := TStr, ks_default := PStr v, ks_choices := None, ks_floor := None\<rparr>"

definition int_key :: "string \<Rightarrow> int \<Rightarrow> key_spec" where
  "int_key key n = sample_key\<lparr>ks_key := key, ks_type := TInt, ks_default := PInt n, ks_choices := None, ks_floor := None\<rparr>"

definition storage_specs :: "key_spec list" where
  "storage_specs = [str_key cluster_dsn_ref_key ''secret://env/RHEO_CLUSTER_DSN'', str_key control_database_key ''rheo_control'',
     str_key template_database_key ''rheo_template'', int_key pool_cache_size_key 8, int_key pool_max_connections_key 4,
     str_key ''profile'' ''test'']"

definition storage_surroundings :: surroundings where
  "storage_surroundings = \<lparr>su_registry = \<lparr>sr_specs = map (\<lambda>s. (ks_key s, s)) storage_specs,
       sr_origins = map (\<lambda>s. (ks_key s, core_origin)) storage_specs\<rparr>,
     su_layer = Inr [], su_now = 0, su_sha256 = id\<rparr>"

definition one_url :: url_library where
  "one_url = \<lparr>ul_make_url = (\<lambda>_. Some \<lparr>cu_drivername = ''postgresql'', cu_address = ''db'', cu_database = None\<rparr>),
     ul_render = cu_address, ul_decode = (\<lambda>bs. Inr ''postgresql://db'')\<rparr>"

definition env_store :: secret_store where
  "env_store = \<lparr>ss_root = ''/d'', ss_files = (\<lambda>_. Inr None), ss_environ = [(''RHEO_CLUSTER_DSN'', ''postgresql://db'')]\<rparr>"

definition sample_backend :: backend where
  "sample_backend = \<lparr>be_url = \<lparr>cu_drivername = psycopg_driver, cu_address = ''db'', cu_database = Some default_maintenance_database\<rparr>,
     be_control = ''rheo_control'', be_template = ''rheo_template'', be_maintenance = default_maintenance_database,
     be_pool = \<lparr>ep_cache_size = 8, ep_pool_size = 4, ep_engines = [], ep_created = 0, ep_disposed = []\<rparr>,
     be_pool_max = 4, be_verify = True, be_control_engine = False\<rparr>"

lemma backend_built: "backend_from_settings one_url storage_surroundings env_store = Inr sample_backend"
  by code_simp

lemma backend_is_configured_witness:
  "\<exists>b. backend_from_settings one_url storage_surroundings env_store = Inr b \<and> be_verify b \<and> pool_ok (be_pool b)
     \<and> cu_drivername (be_url b) = psycopg_driver"
proof -
  have "be_verify sample_backend" by (simp add: sample_backend_def)
  then show ?thesis using backend_is_configured [OF backend_built] backend_built by blast
qed

end
