(* ===== verification/Startup.thy ===== *)
theory Startup
  imports Core_Ops Identity Routing Postgres_Backend
begin

text \<open>
  \<open>rheo_app_core/startup.py\<close>: what the core process does once before it serves, and
  \<open>migrate_control\<close> of the orchestrator. The world is what survives the process: the file
  system effects, the catalog of databases and the cluster. The process's own surroundings are
  one record, the control chain's Alembic side is \<open>control_env\<close>, as \<open>storage_env\<close> is for the
  workspace chain.
\<close>

record world =
  wo_effects :: "fs_effect list"
  wo_catalog :: "string list"
  wo_cluster :: cluster

record control_env =
  ce_known :: "string list"
  ce_recorded :: "control_db \<Rightarrow> string list"
  ce_upgrade :: "control_db \<Rightarrow> control_db result"

record startup_process =
  sp_surroundings :: surroundings
  sp_environ :: "(string \<times> string) list"
  sp_platform :: string
  sp_home :: "string \<Rightarrow> py_path option"
  sp_home_dir :: py_path
  sp_fs :: fs_view
  sp_backend :: "backend result"
  sp_control :: control_env
  sp_storage :: storage_env

record startup_report =
  st_profile :: string
  st_data_root :: py_path
  st_env_references :: "string list"
  st_control_database :: string
  st_workspaces :: "migration_result list"
  st_operations :: "string list"

definition check_production_scheme :: "string \<Rightarrow> string \<Rightarrow> unit result" where
  "check_production_scheme p s =
     ensure (\<not> (p = ''production'' \<and> s = ''http''))
       (RuntimeError (''routing.scheme is '' @ py_repr s @ '' but the resolved profile is '' @ py_repr p
          @ ''; a production deployment must serve https'')) (Inr ())"

text \<open>A step on a part of the world.\<close>

definition on_catalog :: "(string list, 'a) action \<Rightarrow> (world, 'a) action" where
  "on_catalog f w = (case f (wo_catalog w) of (r, cat) \<Rightarrow> (r, w\<lparr>wo_catalog := cat\<rparr>))"

definition on_world_cluster :: "(cluster, 'a) action \<Rightarrow> (world, 'a) action" where
  "on_world_cluster f w = (case f (wo_cluster w) of (r, c) \<Rightarrow> (r, w\<lparr>wo_cluster := c\<rparr>))"

definition run_control_chain :: "control_env \<Rightarrow> string \<Rightarrow> control_db \<Rightarrow> control_db result" where
  "run_control_chain env name = run_chain control_chain name name (ce_recorded env) (ce_known env) id (ce_upgrade env)"

definition migrate_control :: "control_env \<Rightarrow> backend \<Rightarrow> (world, migration_result) action" where
  "migrate_control env b =
     act_bind (on_catalog (ensure_control_database b)) (\<lambda>_.
     act_bind (on_world_cluster (control_tx (\<lambda>db. rbind (run_control_chain env (be_control b) db) (\<lambda>db'. Inr ((), db'))))) (\<lambda>_.
     act_return \<lparr>mr_workspace_id = None, mr_database_name = be_control b, mr_chain = control_chain,
       mr_ok = True, mr_detail = None\<rparr>))"

text \<open>\<open>validate_data_root\<close> leaves its effects behind when it returns.\<close>

definition startup_data_root :: "startup_process \<Rightarrow> (world, py_path) action" where
  "startup_data_root sp w =
     (case rbind (resolve_data_root (sp_environ sp) (sp_platform sp) (sp_home sp) (sp_home_dir sp)) (\<lambda>r.
         validate_data_root (sp_fs sp) (sp_home sp) (dr_path r) (find_checkout_root (sp_fs sp) None) (explicitly_named r)) of
        Inl e \<Rightarrow> (Inl e, w)
      | Inr (root, wide, effects) \<Rightarrow> (Inr root, w\<lparr>wo_effects := wo_effects w @ effects\<rparr>))"

definition run_startup :: "startup_process \<Rightarrow> core_handler operation_registry \<Rightarrow> (world, startup_report) action" where
  "run_startup sp reg =
     (let su = sp_surroundings sp; r = su_registry su in
      act_bind (lift_result (resolve r (su_layer su) None None None)) (\<lambda>(settings, _).
      act_bind (lift_result (get_str r settings ''profile'')) (\<lambda>p.
      act_bind (lift_result (get_str r settings ''routing.scheme'')) (\<lambda>s.
      act_bind (lift_result (check_production_scheme p s)) (\<lambda>_.
      act_bind (startup_data_root sp) (\<lambda>root.
      act_bind (lift_result (check_env_references settings (sp_environ sp))) (\<lambda>env_refs.
      act_bind (lift_result (sp_backend sp)) (\<lambda>b.
      act_bind (migrate_control (sp_control sp) b) (\<lambda>control.
      act_bind (on_world_cluster (control_tx (\<lambda>db. rbind (sync_providers r settings db) (\<lambda>db'. Inr ((), db'))))) (\<lambda>_.
      act_bind (on_world_cluster (migrate_active_workspaces (sp_storage sp))) (\<lambda>workspaces.
      act_bind (lift_result (register_core_operations su reg)) (\<lambda>_.
      act_return \<lparr>st_profile = p, st_data_root = root, st_env_references = env_refs,
        st_control_database = mr_database_name control, st_workspaces = workspaces,
        st_operations = sort (map (\<lambda>(d, _). od_name d) (core_operations @ token_operations))\<rparr>))))))))))))"

section \<open>A failing workspace does not stop the process\<close>

text \<open>What is left of a workspace whose chain was run: its row, or the reason it is unavailable.\<close>

definition migration_outcome :: "control_db \<Rightarrow> workspace_row \<Rightarrow> migration_result \<Rightarrow> bool" where
  "migration_outcome db row r = (mr_workspace_id r = Some (ws_id row)
     \<and> (if mr_ok r then get_workspace (ws_id row) db = Some row
        else \<exists>row'. get_workspace (ws_id row) db = Some row' \<and> ws_state row' = Unavailable
          \<and> ws_state_detail row' = mr_detail r \<and> mr_detail r \<noteq> None))"

lemma migrate_rows_returns:
  assumes "control_ok (cl_control c)" and "distinct (map ws_id rows)"
    and "\<forall>row \<in> set rows. get_workspace (ws_id row) (cl_control c) = Some row \<and> database_name_ok (ws_database_name row)"
  shows "\<exists>rs c'. migrate_rows env rows c = (Inr rs, c') \<and> control_ok (cl_control c')
     \<and> list_all2 (migration_outcome (cl_control c')) rows rs
     \<and> (\<forall>v. v \<notin> ws_id ` set rows \<longrightarrow> get_workspace v (cl_control c') = get_workspace v (cl_control c))"
  using assms
proof (induction rows arbitrary: c)
  case (Cons row rows)
  have row: "get_workspace (ws_id row) (cl_control c) = Some row" "database_name_ok (ws_database_name row)"
    using Cons.prems(3) by simp_all
  obtain r c1 where m: "migrate_workspace env [core_chain] (ws_id row) c = (Inr r, c1)" "mr_workspace_id r = Some (ws_id row)"
    and e: "if mr_ok r then cl_control c1 = cl_control c \<and> mr_detail r = None
        else cl_databases c1 = cl_databases c \<and> control_ok (cl_control c1)
          \<and> (\<exists>row'. get_workspace (ws_id row) (cl_control c1) = Some row' \<and> ws_state row' = Unavailable
               \<and> ws_state_detail row' = mr_detail r \<and> mr_detail r \<noteq> None)
          \<and> (\<forall>v. v \<noteq> ws_id row \<longrightarrow> get_workspace v (cl_control c1) = get_workspace v (cl_control c))"
    using migrate_workspace_never_raises [OF Cons.prems(1) row, of "[core_chain]" env] by auto
  have c1: "control_ok (cl_control c1)" "migration_outcome (cl_control c1) row r"
    "\<And>v. v \<noteq> ws_id row \<Longrightarrow> get_workspace v (cl_control c1) = get_workspace v (cl_control c)"
    using e Cons.prems(1) m(2) row(1) by (auto simp: migration_outcome_def split: if_splits)
  have "\<forall>r' \<in> set rows. get_workspace (ws_id r') (cl_control c1) = Some r' \<and> database_name_ok (ws_database_name r')"
  proof (intro ballI conjI)
    fix r' assume r': "r' \<in> set rows"
    then have "ws_id r' \<noteq> ws_id row" using Cons.prems(2) by (auto simp: image_iff)
    then show "get_workspace (ws_id r') (cl_control c1) = Some r'" using Cons.prems(3) r' c1(3) by simp
    show "database_name_ok (ws_database_name r')" using Cons.prems(3) r' by simp
  qed
  with Cons.IH [OF c1(1)] Cons.prems(2) obtain rs c' where rest: "migrate_rows env rows c1 = (Inr rs, c')"
    "control_ok (cl_control c')" "list_all2 (migration_outcome (cl_control c')) rows rs"
    "\<forall>v. v \<notin> ws_id ` set rows \<longrightarrow> get_workspace v (cl_control c') = get_workspace v (cl_control c1)"
    by auto
  have "migration_outcome (cl_control c') row r"
    using c1(2) rest(4) Cons.prems(2) by (auto simp: migration_outcome_def split: if_splits)
  then show ?case using m(1) rest c1(3) by (simp add: act_bind_def act_return_def)
qed (simp add: act_return_def)

lemma sync_providers_InrD:
  assumes "sync_providers r vals db = Inr db'"
  shows "db' = db \<or> (\<exists>row en cid sref. upsert_identity_provider github_provider_id en cid sref db = (row, db'))"
proof (cases "db' = db")
  case False
  then obtain en cid sref where "db' = snd (upsert_identity_provider github_provider_id en cid sref db)"
    using assms by (auto simp: sync_providers_def split: if_splits)
  then show ?thesis by (metis prod.collapse)
qed simp

lemma active_rows:
  assumes "control_ok db"
  shows "distinct (map ws_id (list_workspaces (Some Active) db))"
    and "row \<in> set (list_workspaces (Some Active) db) \<longleftrightarrow> get_workspace (ws_id row) db = Some row \<and> ws_state row = Active"
proof -
  have d: "distinct (map ws_id (db_workspaces db))" by (rule distinct_workspace_ids [OF assms])
  show "distinct (map ws_id (list_workspaces (Some Active) db))"
    using d by (simp add: list_workspaces_def distinct_map_filter distinct_map inj_on_def)
  show "row \<in> set (list_workspaces (Some Active) db) \<longleftrightarrow> get_workspace (ws_id row) db = Some row \<and> ws_state row = Active"
    using find_unique [OF d, of row] by (auto simp: list_workspaces_def get_workspace_def find_Some_iff)
qed

lemma migrate_control_works:
  assumes "database_name_ok (be_control b)"
    and "run_control_chain env (be_control b) (cl_control (wo_cluster w)) = Inr db"
  shows "\<exists>cat. be_control b \<in> set cat
     \<and> migrate_control env b w = (Inr \<lparr>mr_workspace_id = None, mr_database_name = be_control b,
          mr_chain = control_chain, mr_ok = True, mr_detail = None\<rparr>,
        w\<lparr>wo_catalog := cat, wo_cluster := (wo_cluster w)\<lparr>cl_control := db\<rparr>\<rparr>)"
proof -
  obtain fresh cat where "ensure_control_database b (wo_catalog w) = (Inr fresh, cat)" "be_control b \<in> set cat"
    using that ensure_database_works [OF assms(1), of "wo_catalog w"] by (auto simp: ensure_control_database_def)
  then show ?thesis using assms(2)
    by (auto simp: migrate_control_def on_catalog_def on_world_cluster_def control_tx_def act_bind_def act_return_def)
qed

text \<open>Every active workspace gets its outcome, every other one is as it was.\<close>

lemma migrate_active_returns:
  assumes "control_ok (cl_control c)" and "\<forall>row \<in> set (db_workspaces (cl_control c)). database_name_ok (ws_database_name row)"
  shows "\<exists>rs c'. migrate_active_workspaces env c = (Inr rs, c')
     \<and> list_all2 (migration_outcome (cl_control c')) (list_workspaces (Some Active) (cl_control c)) rs
     \<and> (\<forall>v. (\<forall>row. get_workspace v (cl_control c) = Some row \<longrightarrow> ws_state row \<noteq> Active) \<longrightarrow>
           get_workspace v (cl_control c') = get_workspace v (cl_control c))"
proof -
  let ?rows = "list_workspaces (Some Active) (cl_control c)"
  have rows: "\<forall>row \<in> set ?rows. get_workspace (ws_id row) (cl_control c) = Some row \<and> database_name_ok (ws_database_name row)"
    using active_rows(2) [OF assms(1)] assms(2) by (auto simp: get_workspace_def find_Some_iff)
  obtain rs c' where m: "migrate_rows env ?rows c = (Inr rs, c')" "list_all2 (migration_outcome (cl_control c')) ?rows rs"
    "\<forall>v. v \<notin> ws_id ` set ?rows \<longrightarrow> get_workspace v (cl_control c') = get_workspace v (cl_control c)"
    using migrate_rows_returns [OF assms(1) active_rows(1) [OF assms(1)] rows, of env] by blast
  have "v \<notin> ws_id ` set ?rows" if "\<forall>row. get_workspace v (cl_control c) = Some row \<longrightarrow> ws_state row \<noteq> Active" for v
    using that active_rows(2) [OF assms(1)] by blast
  then show ?thesis using m by (auto simp: migrate_active_workspaces_def)
qed

text \<open>
  C16: a broken workspace does not keep the process from serving. When the process's own settings,
  data root, secrets and control chain are in order, startup returns a report whatever the
  workspace chains do: it has one result for every workspace that was active, oldest first; a
  workspace whose chain failed is \<open>unavailable\<close> with the reason in the report, one whose chain
  succeeded keeps its row, and no other workspace is touched.
\<close>

theorem startup_completes:
  assumes "resolve (su_registry (sp_surroundings sp)) (su_layer (sp_surroundings sp)) None None None = Inr (settings, log)"
    and "get_str (su_registry (sp_surroundings sp)) settings ''profile'' = Inr p"
    and "get_str (su_registry (sp_surroundings sp)) settings ''routing.scheme'' = Inr s"
    and "check_production_scheme p s = Inr ()" and "startup_data_root sp w = (Inr root, w1)"
    and "check_env_references settings (sp_environ sp) = Inr refs"
    and "sp_backend sp = Inr b" and "database_name_ok (be_control b)"
    and "run_control_chain (sp_control sp) (be_control b) (cl_control (wo_cluster w)) = Inr db" and "control_ok db"
    and "sync_providers (su_registry (sp_surroundings sp)) settings db = Inr db'"
    and "\<forall>row \<in> set (db_workspaces db). database_name_ok (ws_database_name row)"
  shows "\<exists>report w'. run_startup sp [] w = (Inr report, w') \<and> be_control b \<in> set (wo_catalog w')
     \<and> list_all2 (migration_outcome (cl_control (wo_cluster w'))) (list_workspaces (Some Active) db) (st_workspaces report)
     \<and> (\<forall>v. (\<forall>row. get_workspace v db = Some row \<longrightarrow> ws_state row \<noteq> Active) \<longrightarrow>
           get_workspace v (cl_control (wo_cluster w')) = get_workspace v db)"
proof -
  let ?su = "sp_surroundings sp" let ?c = "(wo_cluster w)\<lparr>cl_control := db'\<rparr>"
  have w1: "wo_cluster w1 = wo_cluster w"
    using assms(5) by (auto simp: startup_data_root_def split: sum.splits)
  obtain cat where cat: "be_control b \<in> set cat"
    and mc: "migrate_control (sp_control sp) b w1 = (Inr \<lparr>mr_workspace_id = None, mr_database_name = be_control b,
      mr_chain = control_chain, mr_ok = True, mr_detail = None\<rparr>,
      w1\<lparr>wo_catalog := cat, wo_cluster := (wo_cluster w)\<lparr>cl_control := db\<rparr>\<rparr>)"
    using migrate_control_works [OF assms(8), of "sp_control sp" w1 db] assms(9) unfolding w1 by blast
  have same: "db_workspaces db' = db_workspaces db" and ok: "control_ok db'"
  proof -
    from sync_providers_InrD [OF assms(11)] show "db_workspaces db' = db_workspaces db" "control_ok db'"
      using assms(10) control_step_ok [OF control_step.step_provider]
      by (auto simp: upsert_identity_provider_def put_provider_def Let_def)
  qed
  have get: "get_workspace v db' = get_workspace v db" "list_workspaces q db' = list_workspaces q db" for v q
    using same by (simp_all add: get_workspace_def list_workspaces_def cong: option.case_cong)
  obtain rs c' where m: "migrate_active_workspaces (sp_storage sp) ?c = (Inr rs, c')"
    "list_all2 (migration_outcome (cl_control c')) (list_workspaces (Some Active) db) rs"
    "\<forall>v. (\<forall>row. get_workspace v db = Some row \<longrightarrow> ws_state row \<noteq> Active) \<longrightarrow>
       get_workspace v (cl_control c') = get_workspace v db"
    using migrate_active_returns [of ?c "sp_storage sp"] ok assms(12) same get by auto
  have "\<exists>report w'. run_startup sp [] w = (Inr report, w') \<and> wo_catalog w' = cat \<and> wo_cluster w' = c'
      \<and> st_workspaces report = rs"
    using assms(1-7,11) mc m(1) core_registration [of ?su] w1
    by (simp add: run_startup_def Let_def lift_result_def on_world_cluster_def control_tx_def act_bind_def act_return_def)
  then show ?thesis using cat m(2,3) by metis
qed

text \<open>
  Startup checks before it touches. No database is created or migrated and no row written
  unless the settings resolved, a production profile serves https, the data root was accepted,
  every environment secret the settings name is there and the backend could be built.
\<close>

theorem startup_checks_first:
  assumes "run_startup sp reg w = (r, w')"
  shows "wo_catalog w' = wo_catalog w \<and> wo_cluster w' = wo_cluster w
     \<or> (\<exists>settings log p s root w1 refs b.
          resolve (su_registry (sp_surroundings sp)) (su_layer (sp_surroundings sp)) None None None = Inr (settings, log)
          \<and> get_str (su_registry (sp_surroundings sp)) settings ''profile'' = Inr p
          \<and> get_str (su_registry (sp_surroundings sp)) settings ''routing.scheme'' = Inr s
          \<and> \<not> (p = ''production'' \<and> s = ''http'') \<and> startup_data_root sp w = (Inr root, w1)
          \<and> check_env_references settings (sp_environ sp) = Inr refs \<and> sp_backend sp = Inr b)"
proof -
  let ?su = "sp_surroundings sp" let ?r = "su_registry ?su"
  obtain q w1 where root: "startup_data_root sp w = (q, w1)" by fastforce
  have w1: "wo_catalog w1 = wo_catalog w" "wo_cluster w1 = wo_cluster w"
    using root by (auto simp: startup_data_root_def split: sum.splits)
  note steps = run_startup_def Let_def act_bind_def lift_result_def act_return_def act_raise_def
  show ?thesis
  proof (cases "\<exists>settings log. resolve ?r (su_layer ?su) None None None = Inr (settings, log)
      \<and> (\<exists>p s. get_str ?r settings ''profile'' = Inr p \<and> get_str ?r settings ''routing.scheme'' = Inr s
           \<and> check_production_scheme p s = Inr ())
      \<and> (\<exists>x. q = Inr x) \<and> (\<exists>refs. check_env_references settings (sp_environ sp) = Inr refs) \<and> (\<exists>b. sp_backend sp = Inr b)")
    case True
    then show ?thesis using root unfolding check_production_scheme_def ensure_eq_Inr by blast
  next
    case False
    then have "wo_catalog w' = wo_catalog w \<and> wo_cluster w' = wo_cluster w"
      using assms root w1 by (auto simp: steps split: sum.splits prod.splits)
    then show ?thesis ..
  qed
qed

section \<open>A process that starts\<close>

definition startup_specs :: "key_spec list" where
  "startup_specs = storage_specs @ [str_key ''routing.scheme'' ''https'', str_key ''identity.providers.github.client_id'' [],
     sample_key\<lparr>ks_key := ''identity.providers.github.enabled'', ks_type := TBool, ks_default := PBool False,
       ks_choices := None, ks_floor := None\<rparr>]"

definition startup_surroundings :: surroundings where
  "startup_surroundings = storage_surroundings\<lparr>su_registry := \<lparr>sr_specs = map (\<lambda>s. (ks_key s, s)) startup_specs,
     sr_origins = map (\<lambda>s. (ks_key s, core_origin)) startup_specs\<rparr>\<rparr>"

definition sample_process :: startup_process where
  "sample_process = \<lparr>sp_surroundings = startup_surroundings,
     sp_environ = [(data_root_variable, ''/srv/rheo''), (''RHEO_CLUSTER_DSN'', ''postgresql://db'')],
     sp_platform = ''linux'', sp_home = (\<lambda>_. None), sp_home_dir = make_path ''/home/a'', sp_fs = checkout_view,
     sp_backend = Inr sample_backend,
     sp_control = \<lparr>ce_known = [], ce_recorded = (\<lambda>_. []), ce_upgrade = Inr\<rparr>, sp_storage = sample_env\<rparr>"

definition sample_world :: world where
  "sample_world = \<lparr>wo_effects = [], wo_catalog = [''postgres''], wo_cluster = sample_cluster\<rparr>"

definition settings_in_order :: "(string \<times> pyval) list \<Rightarrow> bool" where
  "settings_in_order settings = (let r = su_registry startup_surroundings in
     get_str r settings ''profile'' = Inr ''test'' \<and> get_str r settings ''routing.scheme'' = Inr ''https''
     \<and> check_env_references settings (sp_environ sample_process) = Inr [''RHEO_CLUSTER_DSN'']
     \<and> get_bool r settings ''identity.providers.github.enabled'' = Inr False
     \<and> get_str r settings ''identity.providers.github.client_id'' = Inr [])"

lemma sample_startup_resolves:
  "(case resolve (su_registry startup_surroundings) (su_layer startup_surroundings) None None None of
      Inl e \<Rightarrow> False | Inr (settings, log) \<Rightarrow> settings_in_order settings)"
  by code_simp

lemma sample_startup_root: "\<not> isl (fst (startup_data_root sample_process sample_world))
    \<and> \<not> isl (sp_backend sample_process)"
  by code_simp

text \<open>Its backend is the one its own settings give.\<close>

lemma sample_backend_configured: "backend_from_settings one_url startup_surroundings env_store = sp_backend sample_process"
  by code_simp

lemma sample_control_name: "map_sum id be_control (sp_backend sample_process) = Inr ''rheo_control''"
  by (simp add: sample_process_def sample_backend_def)

lemma startup_completes_witness:
  "\<exists>report w'. run_startup sample_process [] sample_world = (Inr report, w') \<and> ''rheo_control'' \<in> set (wo_catalog w')
     \<and> length (st_workspaces report) = length (list_workspaces (Some Active) sample_control)"
proof -
  have su: "sp_surroundings sample_process = startup_surroundings" by (simp add: sample_process_def)
  obtain settings log where rs: "resolve (su_registry startup_surroundings) (su_layer startup_surroundings) None None None
      = Inr (settings, log)" and o: "settings_in_order settings"
    using sample_startup_resolves by (auto split: sum.splits prod.splits)
  obtain root w1 where root: "startup_data_root sample_process sample_world = (Inr root, w1)"
    using sample_startup_root by (cases "startup_data_root sample_process sample_world"; cases "fst (startup_data_root sample_process sample_world)") auto
  obtain b where b: "sp_backend sample_process = Inr b" "be_control b = ''rheo_control''"
    using sample_control_name by (cases "sp_backend sample_process") auto
  have n: "database_name_ok (be_control b)" unfolding b(2) by code_simp
  have c: "cl_control (wo_cluster sample_world) = sample_control" by (simp add: sample_world_def sample_cluster_def)
  have ch: "run_control_chain (sp_control sample_process) (be_control b) (cl_control (wo_cluster sample_world)) = Inr sample_control"
    unfolding c by (simp add: sample_process_def run_control_chain_def run_chain_def control_chain_def core_chain_def)
  have sync: "sync_providers (su_registry startup_surroundings) settings sample_control = Inr sample_control"
    using o by (simp add: settings_in_order_def Let_def sync_providers_def)
  have names: "\<forall>row \<in> set (db_workspaces sample_control). database_name_ok (ws_database_name row)"
  proof -
    have "list_all (\<lambda>row. database_name_ok (ws_database_name row)) (db_workspaces sample_control)" by code_simp
    then show ?thesis by (simp add: list_all_iff)
  qed
  have "check_production_scheme ''test'' ''https'' = Inr ()" by (simp add: check_production_scheme_def)
  from startup_completes [of sample_process, unfolded su, OF rs _ _ this root _ b(1) n ch sample_control_ok sync names]
  show ?thesis using o b(2) by (auto simp: settings_in_order_def Let_def dest!: list_all2_lengthD)
qed

definition insecure_process :: startup_process where
  "insecure_process = sample_process\<lparr>sp_surroundings := startup_surroundings\<lparr>su_layer :=
     Inr [(''profile'', PStr ''production''), (''routing.scheme'', PStr ''http'')]\<rparr>\<rparr>"

lemma insecure_refused: "isl (fst (run_startup insecure_process [] sample_world))
    \<and> (case resolve (su_registry startup_surroundings) (Inr [(''profile'', PStr ''production''), (''routing.scheme'', PStr ''http'')])
           None None None of
        Inl e \<Rightarrow> False | Inr (settings, log) \<Rightarrow> get_str (su_registry startup_surroundings) settings ''profile'' = Inr ''production''
          \<and> get_str (su_registry startup_surroundings) settings ''routing.scheme'' = Inr ''http'')"
  by code_simp

lemma startup_checks_first_witness:
  "\<exists>e w'. run_startup insecure_process [] sample_world = (Inl e, w') \<and> wo_cluster w' = sample_cluster"
proof -
  obtain e w' where r: "run_startup insecure_process [] sample_world = (Inl e, w')"
    using insecure_refused by (cases "run_startup insecure_process [] sample_world"; cases "fst (run_startup insecure_process [] sample_world)") auto
  have su: "su_registry (sp_surroundings insecure_process) = su_registry startup_surroundings"
    "su_layer (sp_surroundings insecure_process) = Inr [(''profile'', PStr ''production''), (''routing.scheme'', PStr ''http'')]"
    by (simp_all add: insecure_process_def)
  show ?thesis using startup_checks_first [OF r] r insecure_refused unfolding su
    by (auto simp: sample_world_def split: sum.splits prod.splits)
qed

end
