(* ===== verification/Uuid7.thy ===== *)
theory Uuid7
  imports Rheo_Prelude
begin

text \<open>
  \<open>rheo_core/refs/uuid7.py\<close>: identifiers minted in-process. The clock and the ten random
  octets are arguments, the module's \<open>_LAST\<close> is the state; the integer is Python's, unbounded,
  until \<open>UUID(int=...)\<close> takes it.
\<close>

unbundle bit_operations_syntax

section \<open>Minting\<close>

text \<open>\<open>n.to_bytes(k, "big")\<close> and \<open>int.from_bytes(bs, "big")\<close>.\<close>

definition int_to_bytes :: "nat \<Rightarrow> int \<Rightarrow> bytes result" where
  "int_to_bytes k n =
     (if n < 0 then Inl (OverflowError ''can't convert negative int to unsigned'')
      else if 256 ^ k \<le> n then Inl (OverflowError ''int too big to convert'')
      else Inr (map (\<lambda>i. of_int (n div 256 ^ i)) (rev [0..<k])))"

definition int_from_bytes :: "bytes \<Rightarrow> int" where
  "int_from_bytes bs = foldl (\<lambda>v b. v * 256 + uint b) 0 bs"

text \<open>\<open>UUID(int=value)\<close>.\<close>

definition uuid_of_int :: "int \<Rightarrow> uuid result" where
  "uuid_of_int v = (if 0 \<le> v \<and> v < 2 ^ 128 then Inr (of_int v)
     else Inl (ValueError ''int is out of range (need a 128-bit value)''))"

definition uuid7_raw :: "int \<Rightarrow> bytes \<Rightarrow> bytes result" where
  "uuid7_raw time_ns random =
     rbind (int_to_bytes 6 (time_ns div 1000000)) (\<lambda>stamp.
     let raw = stamp @ random in
     Inr (raw[6 := (raw ! 6 AND 0x0F) OR 0x70, 8 := (raw ! 8 AND 0x3F) OR 0x80]))"

definition uuid7 :: "int \<Rightarrow> bytes \<Rightarrow> (int, uuid) action" where
  "uuid7 time_ns random prev =
     (case uuid7_raw time_ns random of
        Inl e \<Rightarrow> (Inl e, prev)
      | Inr raw \<Rightarrow>
          let v = int_from_bytes raw;
              v' = (if v \<le> prev then prev + 1 else v)
          in (uuid_of_int v', v'))"

section \<open>The fields of a fresh value\<close>

lemma or_above_mask:
  fixes x m k :: int
  assumes "m AND k = 0"
  shows "(x AND m) OR k = (x AND m) + k"
  using assms by (simp add: disjunctive_add_eq_or and.assoc)

lemma uint_version: "uint ((b AND 0x0F) OR 0x70 :: byte) = 112 + uint b mod 16"
proof -
  have "uint b AND 15 = uint b mod 16" using take_bit_eq_mask [of 4 "uint b"]
    by (simp add: mask_eq_exp_minus_1 take_bit_eq_mod)
  then show ?thesis using or_above_mask [of 15 112 "uint b"] by (simp add: uint_and uint_or)
qed

lemma uint_variant: "uint ((b AND 0x3F) OR 0x80 :: byte) = 128 + uint b mod 64"
proof -
  have "uint b AND 63 = uint b mod 64" using take_bit_eq_mask [of 6 "uint b"]
    by (simp add: mask_eq_exp_minus_1 take_bit_eq_mod)
  then show ?thesis using or_above_mask [of 63 128 "uint b"] by (simp add: uint_and uint_or)
qed

text \<open>The fields of RFC 9562: 48 bits of time, 4 of version, 12 random, 2 of variant, 62 random.\<close>

definition uuid_stamp :: "int \<Rightarrow> int" where "uuid_stamp v = v div 2 ^ 80"
definition uuid_version :: "int \<Rightarrow> int" where "uuid_version v = v div 2 ^ 76 mod 16"
definition uuid_variant :: "int \<Rightarrow> int" where "uuid_variant v = v div 2 ^ 62 mod 4"
definition uuid_low :: "int \<Rightarrow> int" where "uuid_low v = v mod 2 ^ 62"

lemma from_bytes_append: "int_from_bytes (xs @ ys) = int_from_bytes xs * 256 ^ length ys + int_from_bytes ys"
proof -
  have acc: "foldl (\<lambda>v b. v * 256 + uint b) a ys = a * 256 ^ length ys + int_from_bytes ys" for a and ys :: bytes
  proof (induction ys arbitrary: a)
    case Nil
    then show ?case by (simp add: int_from_bytes_def)
  next
    case (Cons b ys)
    have "int_from_bytes (b # ys) = uint b * 256 ^ length ys + int_from_bytes ys"
      using Cons [of "uint b"] by (simp add: int_from_bytes_def)
    then show ?case using Cons [of "a * 256 + uint b"] by (simp add: algebra_simps)
  qed
  show ?thesis using acc [of "int_from_bytes xs" ys] by (simp add: int_from_bytes_def)
qed

lemma from_bytes_Cons: "int_from_bytes (b # ys) = uint b * 256 ^ length ys + int_from_bytes ys"
  using from_bytes_append [of "[b]" ys] by (simp add: int_from_bytes_def)

lemma from_bytes_Nil [simp]: "int_from_bytes [] = 0"
  by (simp add: int_from_bytes_def)

lemma from_bytes_bounds: "0 \<le> int_from_bytes ys \<and> int_from_bytes ys < 256 ^ length ys"
proof (induction ys)
  case (Cons b ys)
  have "uint b \<le> 255" "0 \<le> uint b" using uint_lt2p [of b] by simp_all
  then have "uint b * 256 ^ length ys \<le> 255 * 256 ^ length ys" "0 \<le> uint b * 256 ^ length ys"
    by (intro mult_right_mono mult_nonneg_nonneg; simp)+
  then show ?case using Cons unfolding from_bytes_Cons length_Cons power_Suc by linarith
qed simp

lemma stamp_bytes: "0 \<le> n \<Longrightarrow> int_from_bytes (map (\<lambda>i. of_int (n div 256 ^ i)) (rev [0..<k])) = n mod 256 ^ k"
proof (induction k)
  case (Suc k)
  have "uint (of_int (n div 256 ^ k) :: byte) = n div 256 ^ k mod 256"
    by (simp add: uint_word_of_int)
  moreover have "n mod 256 ^ Suc k = 256 ^ k * (n div 256 ^ k mod 256) + n mod 256 ^ k"
    using zmod_zmult2_eq [of 256 n "256 ^ k"] by (simp add: mult.commute)
  ultimately show ?case using Suc by (simp add: from_bytes_Cons mult.commute)
qed simp

lemma div_mod_split: "0 \<le> r \<Longrightarrow> r < b \<Longrightarrow> (q * b + r) div b = q \<and> (q * b + r) mod b = (r :: int)"
  by simp

definition draw_ok :: "int \<Rightarrow> bytes \<Rightarrow> bool" where
  "draw_ok time_ns random = (length random = 10 \<and> 0 \<le> time_ns div 1000000 \<and> time_ns div 1000000 < 2 ^ 48)"

lemma fresh_value:
  assumes "length random = 10" and "0 \<le> time_ns div 1000000" and "time_ns div 1000000 < 2 ^ 48"
  obtains raw a r where "uuid7_raw time_ns random = Inr raw" and "0 \<le> a" and "a < 2 ^ 12" and "0 \<le> r" and "r < 2 ^ 62"
    and "int_from_bytes raw = (((time_ns div 1000000 * 16 + 7) * 2 ^ 12 + a) * 4 + 2) * 2 ^ 62 + r"
    and "r = uuid_low (int_from_bytes random)"
proof -
  let ?n = "time_ns div 1000000"
  let ?stamp = "map (\<lambda>i. of_int (?n div 256 ^ i)) (rev [0..<6]) :: bytes"
  obtain b0 b1 b2 rest where random: "random = b0 # b1 # b2 # rest" and rest: "length rest = 7"
    using assms(1) by (auto simp: length_Suc_conv numeral_eq_Suc)
  let ?raw = "?stamp @ [(b0 AND 0x0F) OR 0x70, b1, (b2 AND 0x3F) OR 0x80] @ rest"
  have raw: "uuid7_raw time_ns random = Inr ?raw"
    using assms(2,3) by (simp add: uuid7_raw_def int_to_bytes_def Let_def random list_update_append nth_append)
  define a where "a = uint b0 mod 16 * 256 + uint b1"
  define r where "r = uint b2 mod 64 * 2 ^ 56 + int_from_bytes rest"
  have b: "0 \<le> uint b1" "uint b1 < 256" using uint_lt2p [of b1] by simp_all
  have t: "0 \<le> int_from_bytes rest" "int_from_bytes rest < 2 ^ 56" using from_bytes_bounds [of rest] rest by simp_all
  have m: "0 \<le> uint b0 mod 16" "uint b0 mod 16 < 16" "0 \<le> uint b2 mod 64" "uint b2 mod 64 < 64" by simp_all
  show thesis
  proof (rule that [OF raw])
    show "0 \<le> a" "a < 2 ^ 12" using b m by (simp_all add: a_def)
    show "0 \<le> r" "r < 2 ^ 62" using t m by (simp_all add: r_def)
    define q m where "q = uint b2 div 64" and "m = uint b2 mod 64"
    then have "uint b2 = q * 64 + m" "r = m * 2 ^ 56 + int_from_bytes rest" by (simp_all add: r_def)
    moreover have "int_from_bytes random = uint b0 * 2 ^ 72 + uint b1 * 2 ^ 64 + uint b2 * 2 ^ 56 + int_from_bytes rest"
      using rest by (simp add: random from_bytes_Cons)
    ultimately have "int_from_bytes random = ((uint b0 * 256 + uint b1) * 4 + q) * 2 ^ 62 + r"
      using \<open>r = m * 2 ^ 56 + int_from_bytes rest\<close> by simp
    then show "r = uuid_low (int_from_bytes random)"
      using div_mod_split [OF \<open>0 \<le> r\<close> \<open>r < 2 ^ 62\<close>, of "(uint b0 * 256 + uint b1) * 4 + q"] by (simp only: uuid_low_def)
    have "int_from_bytes ?stamp = ?n" using stamp_bytes [OF assms(2), of 6] assms(2,3) by simp
    then show "int_from_bytes ?raw = (((?n * 16 + 7) * 2 ^ 12 + a) * 4 + 2) * 2 ^ 62 + r"
      using rest by (simp only: from_bytes_append [of ?stamp])
        (simp add: from_bytes_append from_bytes_Cons uint_version uint_variant a_def r_def)
  qed
qed

lemma higher_field: "v div 2 ^ (62 + k) = v div 2 ^ 62 div 2 ^ k" for v :: int
  by (simp add: power_add zdiv_zmult2_eq)

lemma fresh_fields:
  assumes "0 \<le> a" and "a < 2 ^ 12" and "0 \<le> r" and "r < 2 ^ 62" and "v = (((n * 16 + 7) * 2 ^ 12 + a) * 4 + 2) * 2 ^ 62 + r"
  shows "uuid_stamp v = n" and "uuid_version v = 7" and "uuid_variant v = 2" and "uuid_low v = r"
proof -
  let ?h = "((n * 16 + 7) * 2 ^ 12 + a) * 4 + 2"
  have low: "v div 2 ^ 62 = ?h" "v mod 2 ^ 62 = r" using div_mod_split [OF assms(3,4), of ?h] assms(5) by simp_all
  have "?h = (n * 16 + 7) * 2 ^ 14 + (a * 4 + 2)" by simp
  then have v: "?h div 2 ^ 14 = n * 16 + 7" using div_mod_split [of "a * 4 + 2" "2 ^ 14" "n * 16 + 7"] assms(1,2) by simp
  have "?h = n * 2 ^ 18 + (7 * 2 ^ 14 + (a * 4 + 2))" by simp
  then have n: "?h div 2 ^ 18 = n" using div_mod_split [of "7 * 2 ^ 14 + (a * 4 + 2)" "2 ^ 18" n] assms(1,2) by simp
  show "uuid_stamp v = n" using higher_field [of v 18] low(1) n by (simp add: uuid_stamp_def)
  show "uuid_version v = 7" using higher_field [of v 14] low(1) v by (simp add: uuid_version_def)
  have "?h mod 4 = 2" by (rule div_mod_split [THEN conjunct2]) simp_all
  then show "uuid_variant v = 2" unfolding uuid_variant_def low(1) .
  show "uuid_low v = r" using low(2) by (simp add: uuid_low_def)
qed

text \<open>Adding one stays within the low bits unless they are full.\<close>

lemma successor_fields:
  assumes "uuid_low v \<noteq> 2 ^ 62 - 1"
  shows "uuid_stamp (v + 1) = uuid_stamp v" and "uuid_version (v + 1) = uuid_version v"
    and "uuid_variant (v + 1) = uuid_variant v" and "uuid_low (v + 1) = uuid_low v + 1"
proof -
  have l: "0 \<le> v mod 2 ^ 62" "v mod 2 ^ 62 < 2 ^ 62" by simp_all
  then have "v mod 2 ^ 62 + 1 < 2 ^ 62" using assms unfolding uuid_low_def by linarith
  then have q: "(v + 1) div 2 ^ 62 = v div 2 ^ 62 \<and> (v + 1) mod 2 ^ 62 = v mod 2 ^ 62 + 1"
    using div_mod_split [of "v mod 2 ^ 62 + 1" "2 ^ 62" "v div 2 ^ 62"] l(1) div_mult_mod_eq [of v "2 ^ 62"]
    by (simp add: add.assoc [symmetric])
  show "uuid_stamp (v + 1) = uuid_stamp v" using q higher_field [of "v + 1" 18] higher_field [of v 18]
    by (simp add: uuid_stamp_def)
  show "uuid_version (v + 1) = uuid_version v" using q higher_field [of "v + 1" 14] higher_field [of v 14]
    by (simp add: uuid_version_def)
  show "uuid_variant (v + 1) = uuid_variant v" using q by (simp add: uuid_variant_def)
  show "uuid_low (v + 1) = uuid_low v + 1" using q by (simp add: uuid_low_def)
qed

definition uuid7_valid :: "int \<Rightarrow> bool" where
  "uuid7_valid v = (0 \<le> v \<and> v < 2 ^ 128 \<and> uuid_version v = 7 \<and> uuid_variant v = 2)"

lemma stamp_bound: "0 \<le> uuid_stamp v \<and> uuid_stamp v < 2 ^ 48 \<longleftrightarrow> 0 \<le> v \<and> v < 2 ^ 128"
proof -
  have "0 \<le> q \<and> q < 281474976710656 \<longleftrightarrow> 0 \<le> q * 1208925819614629174706176 + m
      \<and> q * 1208925819614629174706176 + m < 340282366920938463463374607431768211456"
    if "0 \<le> m" "m < 1208925819614629174706176" for q m :: int
    using that by (intro iffI; elim conjE; intro conjI; linarith)
  from this [of "v mod 2 ^ 80" "v div 2 ^ 80"] show ?thesis by (simp add: uuid_stamp_def)
qed

lemma uuid7_step:
  assumes "draw_ok time_ns random" and "prev = 0 \<or> uuid7_valid prev \<and> uuid_low prev \<noteq> 2 ^ 62 - 1"
  obtains u where "uuid7 time_ns random prev = (Inr u, uint u)" and "prev < uint u" and "uuid7_valid (uint u)"
    and "uuid_low (uint u) = uuid_low (int_from_bytes random) \<or> uuid7_valid prev \<and> uint u = prev + 1
           \<and> uuid_low (uint u) = uuid_low prev + 1"
proof -
  obtain raw a r where raw: "uuid7_raw time_ns random = Inr raw" and b: "0 \<le> a" "a < 2 ^ 12" "0 \<le> r" "r < 2 ^ 62"
    and v: "int_from_bytes raw = (((time_ns div 1000000 * 16 + 7) * 2 ^ 12 + a) * 4 + 2) * 2 ^ 62 + r"
    and low: "r = uuid_low (int_from_bytes random)"
    using fresh_value assms(1) unfolding draw_ok_def by metis
  let ?v = "int_from_bytes raw"
  note f = fresh_fields [OF b v]
  have fresh: "uuid7_valid ?v" using f assms(1) stamp_bound [of ?v] by (simp add: uuid7_valid_def draw_ok_def)
  have pos: "0 < ?v" using assms(1) b v by (simp add: draw_ok_def)
  have minted: "uuid7 time_ns random prev = (Inr (of_int w), uint (of_int w :: uuid))" "uint (of_int w :: uuid) = w"
    if "w = (if ?v \<le> prev then prev + 1 else ?v)" "uuid7_valid w" for w
  proof -
    show u: "uint (of_int w :: uuid) = w"
      using that(2) by (simp add: uuid7_valid_def uint_word_of_int)
    show "uuid7 time_ns random prev = (Inr (of_int w), uint (of_int w :: uuid))"
      using that raw u by (simp add: uuid7_def uuid_of_int_def Let_def uuid7_valid_def)
  qed
  show thesis
  proof (cases "?v \<le> prev")
    case False
    then show thesis using that [of "of_int ?v"] minted [of ?v] fresh f(4) low by simp
  next
    case True
    then have p: "uuid7_valid prev" "uuid_low prev \<noteq> 2 ^ 62 - 1" using assms(2) pos by auto
    note s = successor_fields [OF p(2)]
    have "uuid7_valid (prev + 1)" using p(1) s stamp_bound [of prev] stamp_bound [of "prev + 1"]
      by (simp add: uuid7_valid_def)
    then show thesis using that [of "of_int (prev + 1)"] minted [of "prev + 1"] True p(1) s(4) by simp
  qed
qed

text \<open>Mints one after the other.\<close>

fun uuid7_run :: "(int \<times> bytes) list \<Rightarrow> int \<Rightarrow> uuid result list \<times> int" where
  "uuid7_run [] prev = ([], prev)"
| "uuid7_run ((time_ns, random) # draws) prev =
     (case uuid7 time_ns random prev of (u, v) \<Rightarrow> (case uuid7_run draws v of (us, v') \<Rightarrow> (u # us, v')))"

text \<open>
  C30: identifiers are UUIDv7 and strictly increase, whatever the clock does: over any sequence
  of mints, with clock readings that fit 48 bits of milliseconds but may stand still or run
  backwards, every mint returns a 128-bit value with version 7 and variant 10, each greater
  than all before it. The only bound is that the low 62 bits drawn are not within the number of
  mints of being full.
\<close>

theorem uuid7_increases:
  assumes "\<forall>(time_ns, random) \<in> set draws. draw_ok time_ns random \<and> uuid_low (int_from_bytes random) + int (length draws) < 2 ^ 62"
    and "prev = 0 \<or> uuid7_valid prev \<and> uuid_low prev + int (length draws) < 2 ^ 62"
  shows "\<exists>us v. uuid7_run draws prev = (map Inr us, v) \<and> length us = length draws
     \<and> sorted_wrt (<) (prev # map uint us) \<and> v = last (prev # map uint us)
     \<and> (\<forall>u \<in> set us. uuid_version (uint u) = 7 \<and> uuid_variant (uint u) = 2)"
  using assms
proof (induction draws arbitrary: prev)
  case (Cons d draws)
  obtain time_ns random where d: "d = (time_ns, random)" by fastforce
  have p: "prev = 0 \<or> uuid7_valid prev \<and> uuid_low prev \<noteq> 2 ^ 62 - 1" using Cons.prems(2) by auto
  have ok: "draw_ok time_ns random" using Cons.prems(1) d by simp
  obtain u where u: "uuid7 time_ns random prev = (Inr u, uint u)" "prev < uint u" "uuid7_valid (uint u)"
    and l: "uuid_low (uint u) = uuid_low (int_from_bytes random) \<or> uuid7_valid prev \<and> uint u = prev + 1
        \<and> uuid_low (uint u) = uuid_low prev + 1"
    using uuid7_step [OF ok p] by metis
  have "uuid_low (uint u) + int (length draws) < 2 ^ 62"
    using l Cons.prems d by (auto simp: uuid7_valid_def uuid_version_def)
  then obtain us v where r: "uuid7_run draws (uint u) = (map Inr us, v)" "length us = length draws"
    "sorted_wrt (<) (uint u # map uint us)" "v = last (uint u # map uint us)"
    "\<forall>w \<in> set us. uuid_version (uint w) = 7 \<and> uuid_variant (uint w) = 2"
    using Cons.IH [of "uint u"] Cons.prems(1) u(3) by fastforce
  show ?case
    by (rule exI [of _ "u # us"], rule exI [of _ v]) (use u r d in \<open>auto simp: uuid7_valid_def\<close>)
qed simp

text \<open>A clock before the epoch, or past the 48 bits, is an \<open>OverflowError\<close> and mints nothing.\<close>

lemma uuid7_clock_range:
  assumes "time_ns div 1000000 < 0 \<or> 2 ^ 48 \<le> time_ns div 1000000"
  shows "\<exists>why. uuid7 time_ns random prev = (Inl (OverflowError why), prev)"
  using assms by (auto simp: uuid7_def uuid7_raw_def int_to_bytes_def)

definition sample_draws :: "(int \<times> bytes) list" where
  "sample_draws = [(1700000000000000000, [9, 9, 9, 9, 9, 9, 9, 9, 9, 9]), (1600000000000000000, [200, 200, 200, 200, 200, 200, 200, 200, 200, 200])]"

lemma uuid7_increases_witness:
  "\<exists>us v. uuid7_run sample_draws 0 = (map Inr us, v) \<and> sorted_wrt (<) (map uint us) \<and> length us = 2"
proof -
  have "\<forall>(time_ns, random) \<in> set sample_draws. draw_ok time_ns random
      \<and> uuid_low (int_from_bytes random) + int (length sample_draws) < 2 ^ 62"
    by (simp add: sample_draws_def draw_ok_def uuid_low_def int_from_bytes_def)
  from uuid7_increases [OF this, of 0] show ?thesis by (auto simp: sample_draws_def)
qed

end
