(* ===== verification/Cli_Context.thy ===== *)
theory Cli_Context
  imports Startup Uuid7
begin

text \<open>
  The operator command \<open>rheo\<close> (\<open>apps/cli\<close>), what its commands share: the process a command
  runs in, its state (the world, the process's operation registry, the last minted identifier
  and what was printed), \<open>context.bootstrap\<close>, and the standard-library texts the commands
  print: \<open>str(exc)\<close>, \<open>isoformat()\<close>, \<open>sorted\<close> and the width of a format field.
\<close>

section \<open>The process and its state\<close>

text \<open>
  \<open>cp_json\<close> is pydantic's \<open>model_dump_json\<close>; the server's answers to \<open>rheo doctor\<close> come last:
  its version, whether the control database can be read, whether its tables can, its catalogs.
\<close>

record cli_process =
  cp_startup :: startup_process
  cp_request_id :: uuid
  cp_new_id :: uuid
  cp_identity_id :: uuid
  cp_random :: bytes
  cp_time_ns :: int
  cp_draw :: bytes
  cp_validate :: "string \<Rightarrow> (string \<times> string) list \<Rightarrow> validation_error list + core_input"
  cp_json :: "core_output \<Rightarrow> string"
  cp_server_version :: "string result"
  cp_control_read :: "unit result"
  cp_rows_read :: "unit result"
  cp_catalogs :: "pg_catalog result"

abbreviation cp_su :: "cli_process \<Rightarrow> surroundings" where
  "cp_su p \<equiv> sp_surroundings (cp_startup p)"

abbreviation cp_storage :: "cli_process \<Rightarrow> storage_env" where
  "cp_storage p \<equiv> sp_storage (cp_startup p)"

record cli_state =
  ci_world :: world
  ci_registry :: "core_handler operation_registry"
  ci_minted :: int
  ci_out :: "string list"
  ci_err :: "string list"

abbreviation ci_cluster :: "cli_state \<Rightarrow> cluster" where
  "ci_cluster s \<equiv> wo_cluster (ci_world s)"

abbreviation ci_control :: "cli_state \<Rightarrow> control_db" where
  "ci_control s \<equiv> cl_control (ci_cluster s)"

type_synonym 'a command_step = "(cli_state, 'a) action"

definition on_world :: "(world, 'a) action \<Rightarrow> 'a command_step" where
  "on_world f s = (case f (ci_world s) of (r, w) \<Rightarrow> (r, s\<lparr>ci_world := w\<rparr>))"

definition in_cluster :: "(cluster, 'a) action \<Rightarrow> 'a command_step" where
  "in_cluster f = on_world (on_world_cluster f)"

text \<open>\<open>print(line)\<close> and \<open>print(line, file=sys.stderr)\<close>.\<close>

definition say :: "string \<Rightarrow> unit command_step" where
  "say line s = (Inr (), s\<lparr>ci_out := ci_out s @ [line]\<rparr>)"

definition warn :: "string \<Rightarrow> unit command_step" where
  "warn line s = (Inr (), s\<lparr>ci_err := ci_err s @ [line]\<rparr>)"

section \<open>Texts of the standard library\<close>

text \<open>
  \<open>str(exc)\<close>. \<open>SettingsError\<close> prints its detail, the refusals their state and detail, any other
  exception its argument.
\<close>

fun exc_str :: "py_exc \<Rightarrow> string" where
  "exc_str (TypeError d) = d"
| "exc_str (ValueError d) = d"
| "exc_str (RuntimeError d) = d"
| "exc_str (NotImplementedError d) = d"
| "exc_str AssertionError = []"
| "exc_str (OverflowError d) = d"
| "exc_str (IntegrityError v n) = n"
| "exc_str (SettingsError st d k) = d"
| "exc_str (StorageRefusal st d w) = st @ '': '' @ d"
| "exc_str (OperationRefused st d) = (case d of None \<Rightarrow> st | Some t \<Rightarrow> st @ '': '' @ t)"
| "exc_str (RegistrationRefused n d) = n @ '': '' @ d"
| "exc_str (SecretRefusal st d) = st @ '': '' @ d"
| "exc_str (DataRootRefusal st d) = st @ '': '' @ d"
| "exc_str (RecordRefMalformed v) = v"
| "exc_str (OtherException c d) = d"

text \<open>The classes an \<open>except ValueError\<close> and an \<open>except SQLAlchemyError\<close> catch.\<close>

definition is_value_error :: "py_exc \<Rightarrow> bool" where
  "is_value_error e = (case e of
       ValueError _ \<Rightarrow> True
     | RecordRefMalformed _ \<Rightarrow> True
     | OtherException c _ \<Rightarrow> c \<in> {''UnicodeEncodeError'', ''UnicodeDecodeError'', ''ValidationError''}
     | _ \<Rightarrow> False)"

definition is_sqlalchemy_error :: "py_exc \<Rightarrow> bool" where
  "is_sqlalchemy_error e = (case e of
       IntegrityError _ _ \<Rightarrow> True
     | OtherException c _ \<Rightarrow> c \<in> {''OperationalError'', ''ProgrammingError'', ''InternalError'', ''InterfaceError'',
         ''DataError'', ''DatabaseError'', ''DBAPIError''}
     | _ \<Rightarrow> False)"

text \<open>\<open>f"{text:<n}"\<close> and \<open>f"{n:0k}"\<close>.\<close>

definition left_justified :: "nat \<Rightarrow> string \<Rightarrow> string" where
  "left_justified n s = s @ replicate (n - length s) (CHR '' '')"

definition zero_padded :: "nat \<Rightarrow> int \<Rightarrow> string" where
  "zero_padded k n = (let s = int_str n in replicate (k - length s) (CHR ''0'') @ s)"

text \<open>The year, month and day of an ordinal (day 1 is the first of January of year 1).\<close>

definition leap_year :: "int \<Rightarrow> bool" where
  "leap_year y = (y mod 4 = 0 \<and> (y mod 100 \<noteq> 0 \<or> y mod 400 = 0))"

definition month_days :: "bool \<Rightarrow> int list" where
  "month_days leap = [31, if leap then 29 else 28, 31, 30, 31, 30, 31, 31, 30, 31, 30, 31]"

fun month_and_day :: "int list \<Rightarrow> int \<Rightarrow> int \<Rightarrow> int \<times> int" where
  "month_and_day [] month n = (month, n + 1)"
| "month_and_day (d # ds) month n = (if n < d then (month, n + 1) else month_and_day ds (month + 1) (n - d))"

definition civil_date :: "int \<Rightarrow> int \<times> int \<times> int" where
  "civil_date ordinal =
     (let n = ordinal - 1;
          n400 = n div 146097; r400 = n mod 146097;
          n100 = min 3 (r400 div 36524); r100 = r400 - n100 * 36524;
          n4 = r100 div 1461; r4 = r100 mod 1461;
          n1 = min 3 (r4 div 365); r1 = r4 - n1 * 365;
          year = n400 * 400 + n100 * 100 + n4 * 4 + n1 + 1
      in (year, month_and_day (month_days (leap_year year)) 1 r1))"

text \<open>\<open>isoformat()\<close> of an aware UTC \<open>datetime\<close>; 719163 is the ordinal of 1970-01-01.\<close>

definition isoformat :: "datetime \<Rightarrow> string" where
  "isoformat t =
     (let us = t mod 1000000; secs = t div 1000000;
          (y, m, d) = civil_date (secs div 86400 + 719163); tod = secs mod 86400
      in zero_padded 4 y @ ''-'' @ zero_padded 2 m @ ''-'' @ zero_padded 2 d @ ''T''
         @ zero_padded 2 (tod div 3600) @ '':'' @ zero_padded 2 (tod div 60 mod 60) @ '':'' @ zero_padded 2 (tod mod 60)
         @ (if us = 0 then [] else ''.'' @ zero_padded 6 us) @ ''+00:00'')"

lemma isoformat_epoch: "isoformat 0 = ''1970-01-01T00:00:00+00:00''"
  by code_simp

lemma civil_date_examples:
  "civil_date 1 = (1, 1, 1)" "civil_date 730179 = (2000, 2, 29)" "civil_date 730485 = (2000, 12, 31)"
  "civil_date 693654 = (1900, 2, 28)" "civil_date 693655 = (1900, 3, 1)" "civil_date 3652059 = (9999, 12, 31)"
  by code_simp+

section \<open>Bootstrap\<close>

record bootstrapped =
  bo_settings :: "(string \<times> pyval) list"
  bo_data_root :: py_path
  bo_backend :: backend

text \<open>\<open>context.data_root\<close> is the same resolution and validation startup makes.\<close>

definition data_root :: "cli_process \<Rightarrow> py_path command_step" where
  "data_root p = on_world (startup_data_root (cp_startup p))"

definition register_here :: "cli_process \<Rightarrow> unit command_step" where
  "register_here p s = (case register_core_operations (cp_su p) (ci_registry s) of
       Inl e \<Rightarrow> (Inl e, s)
     | Inr reg \<Rightarrow> (Inr (), s\<lparr>ci_registry := reg\<rparr>))"

definition bootstrap :: "cli_process \<Rightarrow> bootstrapped command_step" where
  "bootstrap p =
     act_bind (lift_result (resolve (su_registry (cp_su p)) (su_layer (cp_su p)) None None None)) (\<lambda>(settings, _).
     act_bind (data_root p) (\<lambda>root.
     act_bind (lift_result (check_env_references settings (sp_environ (cp_startup p)))) (\<lambda>_.
     act_bind (lift_result (sp_backend (cp_startup p))) (\<lambda>b.
     act_bind (register_here p) (\<lambda>_.
     act_return \<lparr>bo_settings = settings, bo_data_root = root, bo_backend = b\<rparr>)))))"

end
