(* ===== verification/Doctor.thy ===== *)
theory Doctor
  imports Cli_Context
begin

text \<open>
  \<open>rheo doctor\<close> (\<open>commands/doctor.py\<close>): five groups of checks, one line each, and the exit code.
  A step that a failure of an earlier one does not concern runs all the same.
\<close>

section \<open>The checks\<close>

record check =
  ck_name :: string
  ck_level :: string
  ck_detail :: string

definition mk_check :: "string \<Rightarrow> string \<Rightarrow> string \<Rightarrow> check" where
  "mk_check name level detail = \<lparr>ck_name = name, ck_level = level, ck_detail = detail\<rparr>"

definition check_line :: "check \<Rightarrow> string" where
  "check_line c = left_justified 4 (ck_level c) @ '' '' @ ck_name c @ '': '' @ ck_detail c"

definition extensions_wanted :: "string list" where
  "extensions_wanted = [''vector'', ''pg_trgm'']"

definition source_value :: "data_root_source \<Rightarrow> string" where
  "source_value src = (case src of Source_Explicit \<Rightarrow> ''explicit'' | Source_Container \<Rightarrow> ''container''
     | Source_Platform \<Rightarrow> ''platform'')"

text \<open>\<open>try: ... except ... as refusal: return Check(...)\<close>, the handler given as what it catches.\<close>

definition caught :: "(py_exc \<Rightarrow> 'b option) \<Rightarrow> 'a command_step \<Rightarrow> ('b + 'a) command_step" where
  "caught handler f s = (case f s of
       (Inr x, t) \<Rightarrow> (Inr (Inr x), t)
     | (Inl e, t) \<Rightarrow> (case handler e of None \<Rightarrow> (Inl e, t) | Some y \<Rightarrow> (Inr (Inl y), t)))"

definition caught_check :: "(py_exc \<Rightarrow> check option) \<Rightarrow> check command_step \<Rightarrow> check command_step" where
  "caught_check handler f = act_bind (caught handler f) (\<lambda>r. act_return (case r of Inl c \<Rightarrow> c | Inr c \<Rightarrow> c))"

definition data_root_refused :: "py_exc \<Rightarrow> check option" where
  "data_root_refused e = (case e of
       DataRootRefusal st d \<Rightarrow> Some (mk_check ''data root'' ''FAIL'' (st @ '': '' @ d)) | _ \<Rightarrow> None)"

definition check_data_root :: "cli_process \<Rightarrow> check command_step" where
  "check_data_root p = caught_check data_root_refused
     (act_bind (lift_result (resolve_data_root (sp_environ (cp_startup p)) (sp_platform (cp_startup p))
         (sp_home (cp_startup p)) (sp_home_dir (cp_startup p)))) (\<lambda>resolution.
      act_bind (data_root p) (\<lambda>root.
      act_return (mk_check ''data root'' ''ok''
        (path_text root @ '' ('' @ source_value (dr_source resolution) @ '')'')))))"

definition settings_refused :: "py_exc \<Rightarrow> check option" where
  "settings_refused e = (case e of
       SettingsError st d _ \<Rightarrow> Some (mk_check ''settings'' ''FAIL'' (st @ '': '' @ d))
     | SecretRefusal st d \<Rightarrow> Some (mk_check ''settings'' ''FAIL'' (st @ '': '' @ d))
     | _ \<Rightarrow> None)"

definition check_settings :: "cli_process \<Rightarrow> check command_step" where
  "check_settings p =
     act_bind (caught settings_refused (lift_result
       (rbind (resolve (su_registry (cp_su p)) (su_layer (cp_su p)) None None None) (\<lambda>(settings, _).
        rbind (check_env_references settings (sp_environ (cp_startup p))) (\<lambda>checked. Inr (settings, checked)))))) (\<lambda>r.
     case r of
       Inl c \<Rightarrow> act_return c
     | Inr (settings, checked) \<Rightarrow>
         act_bind (lift_result (get_str (su_registry (cp_su p)) settings ''profile'')) (\<lambda>profile.
         act_return (mk_check ''settings'' ''ok'' (''profile '' @ profile @ ''; env references present: ''
           @ (let names = join_with '', '' checked in if names = [] then ''none'' else names)))))"

definition cluster_refused :: "py_exc \<Rightarrow> check option" where
  "cluster_refused e =
     (if (case e of SettingsError _ _ _ \<Rightarrow> True | SecretRefusal _ _ \<Rightarrow> True | _ \<Rightarrow> is_value_error e)
      then Some (mk_check ''cluster'' ''FAIL'' (exc_str e))
      else if is_sqlalchemy_error e then Some (mk_check ''cluster'' ''FAIL'' (''unreachable: '' @ exc_class e))
      else None)"

definition check_cluster :: "cli_process \<Rightarrow> (check \<times> backend option) command_step" where
  "check_cluster p =
     act_bind (caught cluster_refused
       (act_bind (lift_result (sp_backend (cp_startup p))) (\<lambda>b.
        act_bind (lift_result (cp_server_version p)) (\<lambda>version. act_return (b, version))))) (\<lambda>r.
     act_return (case r of
       Inl c \<Rightarrow> (c, None)
     | Inr (b, version) \<Rightarrow> (mk_check ''cluster'' ''ok'' (''reachable; server '' @ version), Some b)))"

definition check_control_plane :: "cli_process \<Rightarrow> backend \<Rightarrow> check command_step" where
  "check_control_plane p b s =
     (let name = ''control plane '' @ be_control b; env = sp_control (cp_startup p) in
      (rbind (database_exists (be_control b) (wo_catalog (ci_world s))) (\<lambda>present.
       if \<not> present then Inr (mk_check name ''FAIL'' ''database missing; run `rheo migrate`'')
       else rbind (cp_control_read p) (\<lambda>_.
         let recorded = remdups (ce_recorded env (ci_control s));
             ahead = filter (\<lambda>r. r \<notin> set (ce_known env)) recorded
         in Inr (if ahead \<noteq> [] then mk_check name ''FAIL'' (''schema_ahead: records '' @ py_repr_list (sort ahead))
            else if recorded = [] then mk_check name ''warn'' ''no revision recorded; run `rheo migrate`''
            else mk_check name ''ok'' (''at revision '' @ join_with '', '' (sort recorded))))), s))"

definition control_plane_refused :: "py_exc \<Rightarrow> check option" where
  "control_plane_refused e =
     (if is_sqlalchemy_error e \<or> (case e of StorageRefusal _ _ _ \<Rightarrow> True | _ \<Rightarrow> False)
      then Some (mk_check ''control plane'' ''FAIL'' (exc_class e @ '': '' @ exc_str e)) else None)"

definition workspace_check :: "workspace_row \<Rightarrow> check" where
  "workspace_check row =
     mk_check (''workspace '' @ uuid_str (ws_id row) @ '' ('' @ ws_slug row @ '')'')
       (if ws_state row = Active then ''ok'' else ''warn'')
       (state_value (ws_state row) @ (case ws_state_detail row of
          Some d \<Rightarrow> if d \<noteq> [] \<and> ws_state row \<noteq> Active then '' ('' @ d @ '')'' else []
        | None \<Rightarrow> []))"

definition check_workspaces :: "cli_process \<Rightarrow> check list command_step" where
  "check_workspaces p s = (case cp_rows_read p of
       Inl e \<Rightarrow> if is_sqlalchemy_error e
         then (Inr [mk_check ''workspaces'' ''FAIL'' (''cannot list: '' @ exc_class e)], s) else (Inl e, s)
     | Inr _ \<Rightarrow> (case list_workspaces None (ci_control s) of
           [] \<Rightarrow> (Inr [mk_check ''workspaces'' ''ok'' ''none''], s)
         | rows \<Rightarrow> (Inr (map workspace_check rows), s)))"

definition extension_check :: "extension_report \<Rightarrow> extension \<Rightarrow> check" where
  "extension_check report ext =
     (let name = ''extension '' @ ex_name ext; allowed = may_create report ext in
      case ex_default_version ext of
        None \<Rightarrow> mk_check name ''warn'' ''not available on this cluster (phase 2 needs it installed)''
      | Some version \<Rightarrow> mk_check name (if allowed then ''ok'' else ''warn'')
          (''available '' @ version @ ''; installed in maintenance db: ''
           @ (case ex_installed_version ext of Some v \<Rightarrow> if v = [] then ''no'' else v | None \<Rightarrow> ''no'')
           @ ''; trusted: '' @ (if ex_trusted ext = Some True then ''yes'' else ''no'')
           @ ''; role may CREATE EXTENSION in '' @ xr_template_database report @ '': ''
           @ (if xr_role_is_superuser report then ''superuser''
              else if allowed then ''trusted + CREATE on the database'' else ''no'')))"

definition check_extensions :: "cli_process \<Rightarrow> backend \<Rightarrow> check list command_step" where
  "check_extensions p b s = (case cp_catalogs p of
       Inl e \<Rightarrow> if is_sqlalchemy_error e
         then (Inr [mk_check ''extensions'' ''FAIL'' (''cannot read catalogs: '' @ exc_class e)], s) else (Inl e, s)
     | Inr catalogs \<Rightarrow> (let report = report_extensions b catalogs extensions_wanted in
         (Inr (map (extension_check report) (xr_extensions report)), s)))"

definition say_all :: "string list \<Rightarrow> unit command_step" where
  "say_all lines s = (Inr (), s\<lparr>ci_out := ci_out s @ lines\<rparr>)"

definition doctor :: "cli_process \<Rightarrow> int command_step" where
  "doctor p =
     act_bind (check_data_root p) (\<lambda>root.
     act_bind (check_settings p) (\<lambda>settings.
     act_bind (check_cluster p) (\<lambda>(cluster, found).
     act_bind (case found of
         None \<Rightarrow> act_return []
       | Some b \<Rightarrow>
           act_bind (caught_check control_plane_refused (check_control_plane p b)) (\<lambda>control.
           act_bind (check_workspaces p) (\<lambda>workspaces.
           act_bind (check_extensions p b) (\<lambda>extensions.
           act_return (control # workspaces @ extensions))))) (\<lambda>rest.
     let checks = [root, settings, cluster] @ rest in
     act_bind (say_all (map check_line checks)) (\<lambda>_.
     act_return (if \<exists>c \<in> set checks. ck_level c = ''FAIL'' then 1 else 0))))))"

section \<open>What a report says\<close>

definition level_ok :: "check \<Rightarrow> bool" where
  "level_ok c = (ck_level c \<in> {''ok'', ''warn'', ''FAIL''})"

definition failed_check :: "check \<Rightarrow> bool" where
  "failed_check c = (ck_level c = ''FAIL'')"

text \<open>The states that differ in what was done to the file system only.\<close>

definition only_files :: "cli_state \<Rightarrow> cli_state \<Rightarrow> bool" where
  "only_files s t = (\<exists>fs. t = s\<lparr>ci_world := (ci_world s)\<lparr>wo_effects := fs\<rparr>\<rparr>)"

lemma only_files_refl [simp]: "only_files s s"
  by (auto simp: only_files_def intro!: exI [of _ "wo_effects (ci_world s)"])

lemma only_filesD:
  "only_files s t \<Longrightarrow> ci_cluster t = ci_cluster s \<and> wo_catalog (ci_world t) = wo_catalog (ci_world s)
     \<and> ci_registry t = ci_registry s \<and> ci_out t = ci_out s \<and> ci_err t = ci_err s \<and> ci_minted t = ci_minted s"
  by (auto simp: only_files_def)

lemma line_level:
  assumes "level_ok c"
  shows "startswith (check_line c) ''FAIL'' \<longleftrightarrow> failed_check c"
  using assms by (auto simp: level_ok_def failed_check_def check_line_def left_justified_def startswith_def numeral_eq_Suc)

lemma levels [simp]:
  "level_ok (mk_check n ''ok'' d)" "level_ok (mk_check n ''warn'' d)" "level_ok (mk_check n ''FAIL'' d)"
  "failed_check (mk_check n ''FAIL'' d)" "\<not> failed_check (mk_check n ''ok'' d)" "\<not> failed_check (mk_check n ''warn'' d)"
  by (simp_all add: level_ok_def failed_check_def mk_check_def)

lemma only_files_update [simp]: "only_files s (s\<lparr>ci_world := (ci_world s)\<lparr>wo_effects := fs\<rparr>\<rparr>)"
  unfolding only_files_def by blast

lemma data_root_only_files: "data_root p s = (r, t) \<Longrightarrow> only_files s t"
  by (auto simp: data_root_def on_world_def startup_data_root_def split: sum.splits prod.splits)

lemma data_root_of_startup: "fst (data_root p s) = fst (startup_data_root (cp_startup p) w)"
  by (simp add: data_root_def on_world_def startup_data_root_def case_prod_unfold del: rbind_eq_Inr split: sum.split)

lemma data_root_again: "fst (data_root p s) = fst (data_root p t)"
  by (metis data_root_of_startup)

lemma caught_check_Inr:
  "caught_check h f s = (Inr c, t) \<longleftrightarrow> (\<exists>e. f s = (Inl e, t) \<and> h e = Some c) \<or> f s = (Inr c, t)"
proof -
  obtain q u where f: "f s = (q, u)" by fastforce
  show ?thesis by (cases q) (auto simp: caught_check_def caught_def act_bind_def act_return_def f split: option.splits)
qed

lemma refused_checks:
  "data_root_refused e = Some c \<Longrightarrow> level_ok c \<and> failed_check c"
  "settings_refused e = Some c \<Longrightarrow> level_ok c \<and> failed_check c"
  "cluster_refused e = Some c \<Longrightarrow> level_ok c \<and> failed_check c"
  "control_plane_refused e = Some c \<Longrightarrow> level_ok c \<and> failed_check c"
  by (auto simp: data_root_refused_def settings_refused_def cluster_refused_def control_plane_refused_def
      split: py_exc.splits if_splits)

lemma check_data_root_cases:
  assumes "check_data_root p s = (Inr c, t)"
  shows "level_ok c \<and> only_files s t \<and> (failed_check c \<or> (\<exists>root u. data_root p s = (Inr root, u)))"
proof -
  obtain q u where d: "data_root p s = (q, u)" by fastforce
  then show ?thesis
    using assms data_root_only_files [OF d] refused_checks(1)
    by (cases q) (auto simp: check_data_root_def caught_check_Inr act_bind_def lift_result_def split: sum.splits)
qed

lemma check_settings_cases:
  assumes "check_settings p s = (Inr c, t)"
  shows "level_ok c \<and> t = s \<and> (failed_check c \<or> (\<exists>settings log refs.
     resolve (su_registry (cp_su p)) (su_layer (cp_su p)) None None None = Inr (settings, log)
     \<and> check_env_references settings (sp_environ (cp_startup p)) = Inr refs))"
proof -
  let ?attempt = "rbind (resolve (su_registry (cp_su p)) (su_layer (cp_su p)) None None None) (\<lambda>(settings, _).
        rbind (check_env_references settings (sp_environ (cp_startup p))) (\<lambda>checked. Inr (settings, checked)))"
  show ?thesis
  proof (cases ?attempt)
    case (Inl e)
    then show ?thesis using assms
      by (auto simp: check_settings_def caught_def settings_refused_def act_bind_def act_return_def lift_result_def act_raise_def
          split: py_exc.splits)
  next
    case (Inr sc)
    then show ?thesis using assms
      by (auto simp: check_settings_def caught_def act_bind_def act_return_def lift_result_def act_raise_def split: sum.splits)
  qed
qed

lemma check_cluster_cases:
  assumes "check_cluster p s = (Inr (c, fb), t)"
  shows "level_ok c \<and> t = s \<and> (failed_check c \<and> fb = None
     \<or> \<not> failed_check c \<and> (\<exists>b. sp_backend (cp_startup p) = Inr b \<and> fb = Some b))"
  using assms
  by (auto simp: check_cluster_def caught_def cluster_refused_def act_bind_def act_return_def act_raise_def lift_result_def
      split: sum.splits if_splits)

lemma check_control_plane_cases:
  assumes "caught_check control_plane_refused (check_control_plane p b) s = (Inr c, t)"
  shows "level_ok c \<and> t = s \<and> (failed_check c \<or> be_control b \<in> set (wo_catalog (ci_world s)))"
proof -
  have state: "snd (check_control_plane p b s) = s" by (simp add: check_control_plane_def Let_def)
  show ?thesis
  proof (cases "\<exists>e. check_control_plane p b s = (Inl e, t)")
    case True
    then show ?thesis using assms state refused_checks(4) by (auto simp: caught_check_Inr)
  next
    case False
    then have "check_control_plane p b s = (Inr c, t)" using assms by (simp add: caught_check_Inr)
    then show ?thesis
      by (cases "be_control b \<in> set (wo_catalog (ci_world s))")
        (auto simp: check_control_plane_def Let_def database_exists_def check_database_name_def)
  qed
qed

lemma check_workspaces_cases:
  assumes "check_workspaces p s = (Inr cs, t)"
  shows "list_all level_ok cs \<and> t = s \<and> (list_ex failed_check cs
     \<or> (\<forall>row \<in> set (db_workspaces (ci_control s)). workspace_check row \<in> set cs))"
proof (cases "cp_rows_read p")
  case (Inr u)
  have rows: "set (list_workspaces None (ci_control s)) = set (db_workspaces (ci_control s))"
    by (simp add: list_workspaces_def)
  have "level_ok (workspace_check row)" for row by (simp add: workspace_check_def)
  moreover have "t = s \<and> (if list_workspaces None (ci_control s) = [] then cs = [mk_check ''workspaces'' ''ok'' ''none'']
      else cs = map workspace_check (list_workspaces None (ci_control s)))"
    using assms Inr by (auto simp: check_workspaces_def split: list.splits)
  ultimately show ?thesis using rows by (auto simp: list_all_iff split: if_splits)
qed (use assms in \<open>auto simp: check_workspaces_def split: if_splits\<close>)

lemma extension_check_level: "level_ok (extension_check report ext)"
  by (simp add: extension_check_def Let_def split: option.split)

lemma check_extensions_cases:
  assumes "check_extensions p b s = (Inr cs, t)"
  shows "list_all level_ok cs \<and> t = s"
proof (cases "cp_catalogs p")
  case (Inr catalogs)
  then have "t = s" "set cs \<subseteq> range (extension_check (report_extensions b catalogs extensions_wanted))"
    using assms by (auto simp: check_extensions_def Let_def )
  then show ?thesis using extension_check_level by (auto simp: list_all_iff)
qed (use assms in \<open>auto simp: check_extensions_def split: if_splits\<close>)

text \<open>What the checks of a report are.\<close>

definition cluster_checks :: "cli_process \<Rightarrow> backend option \<Rightarrow> cli_state \<Rightarrow> check list \<Rightarrow> bool" where
  "cluster_checks p fb s cs = (case fb of None \<Rightarrow> cs = [] | Some b \<Rightarrow> (\<exists>control ws exts.
     caught_check control_plane_refused (check_control_plane p b) s = (Inr control, s)
     \<and> check_workspaces p s = (Inr ws, s) \<and> check_extensions p b s = (Inr exts, s) \<and> cs = control # ws @ exts))"

lemma doctor_InrD:
  assumes "doctor p s = (Inr code, s')"
  obtains root t sets cl fb cs where
    "check_data_root p s = (Inr root, t)" and "check_settings p t = (Inr sets, t)"
    and "check_cluster p t = (Inr (cl, fb), t)" and "cluster_checks p fb t cs"
    and "s' = t\<lparr>ci_out := ci_out t @ map check_line ([root, sets, cl] @ cs)\<rparr>"
    and "code = (if \<exists>c \<in> set ([root, sets, cl] @ cs). failed_check c then 1 else 0)"
proof -
  obtain root t sets t2 cl fb t3 cs t4 where c: "check_data_root p s = (Inr root, t)" "check_settings p t = (Inr sets, t2)"
    "check_cluster p t2 = (Inr (cl, fb), t3)"
    and rest: "(case fb of None \<Rightarrow> act_return []
       | Some b \<Rightarrow> act_bind (caught_check control_plane_refused (check_control_plane p b)) (\<lambda>control.
           act_bind (check_workspaces p) (\<lambda>workspaces.
           act_bind (check_extensions p b) (\<lambda>extensions.
           act_return (control # workspaces @ extensions))))) t3 = (Inr cs, t4)"
    and fin: "act_bind (say_all (map check_line ([root, sets, cl] @ cs))) (\<lambda>_.
       act_return (if \<exists>c \<in> set ([root, sets, cl] @ cs). ck_level c = ''FAIL'' then 1 else 0)) t4 = (Inr code, s')"
    using assms unfolding doctor_def act_bind_Inr Let_def by (auto simp: act_bind_Inr)
  have t: "t2 = t" "t3 = t"
    using check_settings_cases [OF c(2)] check_cluster_cases [OF c(3)] by simp_all
  have "cluster_checks p fb t cs \<and> t4 = t"
    using rest check_control_plane_cases check_workspaces_cases check_extensions_cases unfolding t
    by (cases fb) (fastforce simp: cluster_checks_def act_bind_Inr)+
  then show thesis using that c fin by (auto simp: t say_all_def act_bind_def failed_check_def)
qed

text \<open>
  Every failure is of a class the step it happens in reports; the profile is a string whenever the
  settings resolve.
\<close>

definition diagnosable :: "cli_process \<Rightarrow> cli_state \<Rightarrow> bool" where
  "diagnosable p s = (let sp = cp_startup p; su = cp_su p; settings = resolve (su_registry su) (su_layer su) None None None in
     (\<exists>r. resolve_data_root (sp_environ sp) (sp_platform sp) (sp_home sp) (sp_home_dir sp) = Inr r)
     \<and> (case fst (data_root p s) of Inl e \<Rightarrow> data_root_refused e \<noteq> None | Inr _ \<Rightarrow> True)
     \<and> (case settings of Inl e \<Rightarrow> settings_refused e \<noteq> None | Inr (vals, _) \<Rightarrow>
          (case check_env_references vals (sp_environ sp) of Inl e \<Rightarrow> settings_refused e \<noteq> None | Inr _ \<Rightarrow> True)
          \<and> (\<exists>profile. get_str (su_registry su) vals ''profile'' = Inr profile))
     \<and> (case sp_backend sp of Inl e \<Rightarrow> cluster_refused e \<noteq> None | Inr b \<Rightarrow> database_name_ok (be_control b))
     \<and> (case cp_server_version p of Inl e \<Rightarrow> cluster_refused e \<noteq> None | Inr _ \<Rightarrow> True)
     \<and> (\<forall>e. cp_control_read p = Inl e \<or> cp_rows_read p = Inl e \<or> cp_catalogs p = Inl e \<longrightarrow> is_sqlalchemy_error e))"

lemma step_returns:
  assumes "diagnosable p s"
  shows "\<exists>root t. check_data_root p s = (Inr root, t)" and "\<exists>sets. check_settings p t' = (Inr sets, t')"
    and "\<exists>cl fb. check_cluster p t' = (Inr (cl, fb), t') \<and> (\<forall>b. fb = Some b \<longrightarrow> database_name_ok (be_control b))"
    and "database_name_ok (be_control b) \<Longrightarrow>
      \<exists>c. caught_check control_plane_refused (check_control_plane p b) t' = (Inr c, t')"
    and "\<exists>ws. check_workspaces p t' = (Inr ws, t')" and "\<exists>exts. check_extensions p b t' = (Inr exts, t')"
proof -
  note d = assms [unfolded diagnosable_def Let_def]
  obtain q u where r: "data_root p s = (q, u)" by fastforce
  show "\<exists>root t. check_data_root p s = (Inr root, t)"
    using d r by (cases q) (auto simp: check_data_root_def caught_check_Inr act_bind_def lift_result_def)
  show "\<exists>sets. check_settings p t' = (Inr sets, t')"
    using d by (cases "resolve (su_registry (cp_su p)) (su_layer (cp_su p)) None None None")
      (auto simp: check_settings_def caught_def act_bind_def lift_result_def rbind_def split: sum.splits option.splits)
  show "\<exists>cl fb. check_cluster p t' = (Inr (cl, fb), t') \<and> (\<forall>b. fb = Some b \<longrightarrow> database_name_ok (be_control b))"
    using d by (auto simp: check_cluster_def caught_def act_bind_def lift_result_def split: sum.splits option.splits)
  show "\<exists>c. caught_check control_plane_refused (check_control_plane p b) t' = (Inr c, t')"
    if "database_name_ok (be_control b)"
    using d that by (cases "cp_control_read p")
      (auto simp: caught_check_Inr check_control_plane_def Let_def database_exists_def check_database_name_def control_plane_refused_def)
  show "\<exists>ws. check_workspaces p t' = (Inr ws, t')"
    using d by (cases "cp_rows_read p") (auto simp: check_workspaces_def split: list.splits)
  show "\<exists>exts. check_extensions p b t' = (Inr exts, t')"
    using d by (cases "cp_catalogs p") (auto simp: check_extensions_def Let_def)
qed

lemma doctor_returns:
  assumes "diagnosable p s"
  shows "\<exists>code s'. doctor p s = (Inr code, s')"
proof -
  obtain root t where r: "check_data_root p s = (Inr root, t)" using step_returns(1) [OF assms] by blast
  obtain sets where se: "check_settings p t = (Inr sets, t)" using step_returns(2) [OF assms] by blast
  obtain cl fb where cu: "check_cluster p t = (Inr (cl, fb), t)" "\<And>b. fb = Some b \<Longrightarrow> database_name_ok (be_control b)"
    using step_returns(3) [OF assms] by blast
  have "\<exists>code s'. doctor p s = (Inr code, s')"
    if fb: "fb = Some b" for b
  proof -
    obtain c where "caught_check control_plane_refused (check_control_plane p b) t = (Inr c, t)"
      using step_returns(4) [OF assms cu(2) [OF fb]] by blast
    moreover obtain ws where "check_workspaces p t = (Inr ws, t)" using step_returns(5) [OF assms] by blast
    moreover obtain exts where "check_extensions p b t = (Inr exts, t)" using step_returns(6) [OF assms] by blast
    ultimately show ?thesis using r se cu(1) fb by (simp add: doctor_def say_all_def act_bind_def act_return_def Let_def)
  qed
  then show ?thesis using r se cu(1)
    by (cases fb) (auto simp: doctor_def say_all_def act_bind_def act_return_def Let_def)
qed

text \<open>
  C18: a report can be trusted. Whatever is wrong, as long as it is of a kind some check reports,
  the diagnosis ends; its exit code is 1 exactly when a line of the report starts with \<open>FAIL\<close>,
  and it changed no database. A report without a failure lists every workspace of the control
  plane, the control database exists, and a command that starts now gets through its bootstrap.
\<close>

theorem doctor_can_be_trusted:
  assumes "diagnosable p s" and "ci_registry s = []"
  shows "\<exists>code s'. doctor p s = (Inr code, s')
     \<and> ci_cluster s' = ci_cluster s \<and> wo_catalog (ci_world s') = wo_catalog (ci_world s)
     \<and> (\<exists>lines. ci_out s' = ci_out s @ lines
          \<and> code = (if \<exists>l \<in> set lines. startswith l ''FAIL'' then 1 else 0)
          \<and> (code = 0 \<longrightarrow> (\<forall>row \<in> set (db_workspaces (ci_control s)). check_line (workspace_check row) \<in> set lines)
               \<and> (\<exists>boot t. bootstrap p s' = (Inr boot, t) \<and> be_control (bo_backend boot) \<in> set (wo_catalog (ci_world s)))))"
proof -
  obtain code s' where d: "doctor p s = (Inr code, s')" using doctor_returns [OF assms(1)] by blast
  obtain root t sets cl fb cs where c: "check_data_root p s = (Inr root, t)" "check_settings p t = (Inr sets, t)"
    "check_cluster p t = (Inr (cl, fb), t)" "cluster_checks p fb t cs"
    and s': "s' = t\<lparr>ci_out := ci_out t @ map check_line ([root, sets, cl] @ cs)\<rparr>"
    and code: "code = (if \<exists>c \<in> set ([root, sets, cl] @ cs). failed_check c then 1 else 0)"
    by (rule doctor_InrD [OF d])
  note r = check_data_root_cases [OF c(1)] note se = check_settings_cases [OF c(2)] note cu = check_cluster_cases [OF c(3)]
  have t: "ci_cluster t = ci_cluster s" "wo_catalog (ci_world t) = wo_catalog (ci_world s)" "ci_registry t = ci_registry s"
    "ci_out t = ci_out s" using r only_filesD by blast+
  have levels: "\<forall>c \<in> set ([root, sets, cl] @ cs). level_ok c"
    using r se cu c(4) check_control_plane_cases check_workspaces_cases check_extensions_cases
    by (fastforce simp: cluster_checks_def list_all_iff split: option.splits)
  let ?lines = "map check_line ([root, sets, cl] @ cs)"
  have fails: "(\<exists>l \<in> set ?lines. startswith l ''FAIL'') \<longleftrightarrow> (\<exists>c \<in> set ([root, sets, cl] @ cs). failed_check c)"
    using levels line_level by auto
  have "(\<forall>row \<in> set (db_workspaces (ci_control s)). check_line (workspace_check row) \<in> set ?lines)
      \<and> (\<exists>boot u. bootstrap p s' = (Inr boot, u) \<and> be_control (bo_backend boot) \<in> set (wo_catalog (ci_world s)))"
    if none: "\<not> (\<exists>c \<in> set ([root, sets, cl] @ cs). failed_check c)"
  proof -
    obtain b where b: "sp_backend (cp_startup p) = Inr b" "fb = Some b" using cu none by auto
    obtain path where "fst (data_root p s) = Inr path" using r none by auto
    then obtain u where path: "data_root p s' = (Inr path, u)" "only_files s' u"
      using data_root_again [of p s' s] data_root_only_files by (metis prod.collapse)
    obtain control ws exts where k: "caught_check control_plane_refused (check_control_plane p b) t = (Inr control, t)"
      "check_workspaces p t = (Inr ws, t)" "cs = control # ws @ exts"
      using c(4) b(2) by (auto simp: cluster_checks_def)
    have "be_control b \<in> set (wo_catalog (ci_world s))" using check_control_plane_cases [OF k(1)] none k(3) t(2) by auto
    moreover have "\<forall>row \<in> set (db_workspaces (ci_control s)). workspace_check row \<in> set ws"
      using check_workspaces_cases [OF k(2)] none k(3) t(1) by (auto simp: list_ex_iff)
    moreover have "ci_registry u = []" using only_filesD [OF path(2)] assms(2) t(3) s' by simp
    ultimately show ?thesis using se none b path core_registration [of "cp_su p"] k(3)
      by (auto simp: bootstrap_def act_bind_def act_return_def lift_result_def register_here_def)
  qed
  then show ?thesis using d s' t fails code by (intro exI [of _ code] exI [of _ s'] conjI exI [of _ ?lines]) auto
qed

section \<open>A healthy deployment\<close>

definition sample_cli :: cli_process where
  "sample_cli = \<lparr>cp_startup = sample_process, cp_request_id = 1, cp_new_id = 40, cp_identity_id = 41, cp_random = replicate 32 7,
     cp_time_ns = 1767225600000000000, cp_draw = replicate 10 3, cp_validate = (\<lambda>_ _. Inl []), cp_json = (\<lambda>_. ''{}''),
     cp_server_version = Inr ''16.2'', cp_control_read = Inr (), cp_rows_read = Inr (),
     cp_catalogs = Inr \<lparr>pc_superuser = True, pc_may_create = (\<lambda>_. True),
       pc_available = [(''vector'', Some ''0.7'', None)], pc_trusted = [(''vector'', False)]\<rparr>\<rparr>"

definition fresh_process :: cli_state where
  "fresh_process = \<lparr>ci_world = sample_world\<lparr>wo_catalog := [''postgres'', ''rheo_control'']\<rparr>, ci_registry = [],
     ci_minted = 0, ci_out = [], ci_err = []\<rparr>"

lemma sample_resolution:
  "\<not> isl (resolve_data_root (sp_environ sample_process) (sp_platform sample_process) (sp_home sample_process) (sp_home_dir sample_process))"
  by code_simp

lemma sample_diagnosable: "diagnosable sample_cli fresh_process"
proof -
  have b: "case sp_backend sample_process of Inl e \<Rightarrow> False | Inr b \<Rightarrow> database_name_ok (be_control b)"
    by code_simp
  have res: "\<exists>r. resolve_data_root (sp_environ sample_process) (sp_platform sample_process) (sp_home sample_process)
      (sp_home_dir sample_process) = Inr r"
    using sample_resolution by (auto simp: isl_def split: sum.splits intro: sum.exhaust)
  have su: "sp_surroundings sample_process = startup_surroundings" "cp_startup sample_cli = sample_process"
    by (simp_all add: sample_cli_def sample_process_def)
  have root: "\<not> isl (fst (data_root sample_cli fresh_process))"
    using sample_startup_root data_root_of_startup [of sample_cli fresh_process sample_world] su(2) by simp
  have rest: "cp_server_version sample_cli = Inr ''16.2''" "cp_control_read sample_cli = Inr ()"
    "cp_rows_read sample_cli = Inr ()" "\<not> isl (cp_catalogs sample_cli)"
    by (simp_all add: sample_cli_def)
  show ?thesis unfolding diagnosable_def Let_def su
    using root b rest sample_startup_resolves res
    by (auto simp: su settings_in_order_def Let_def split: sum.splits prod.splits)
qed

lemma doctor_can_be_trusted_witness:
  "\<exists>code s'. doctor sample_cli fresh_process = (Inr code, s') \<and> ci_cluster s' = sample_cluster
     \<and> code = (if \<exists>l \<in> set (ci_out s'). startswith l ''FAIL'' then 1 else 0)"
proof -
  have "ci_registry fresh_process = []" "ci_cluster fresh_process = sample_cluster" "ci_out fresh_process = []"
    by (simp_all add: fresh_process_def sample_world_def)
  then show ?thesis using doctor_can_be_trusted [OF sample_diagnosable] by fastforce
qed

text \<open>Its report, evaluated: the one extension that is missing is a warning.\<close>

lemma sample_report:
  "fst (doctor sample_cli fresh_process) = Inr 0
   \<and> map (take 4) (ci_out (snd (doctor sample_cli fresh_process))) = [''ok  '', ''ok  '', ''ok  '', ''warn'', ''ok  '', ''ok  '', ''warn'']"
  by code_simp

end
