(* ===== verification/Cli.thy ===== *)
theory Cli
  imports Doctor
begin

text \<open>
  The commands of \<open>rheo\<close> (\<open>apps/cli/.../commands\<close>) and its entry point (\<open>main.py\<close>). A command
  line that parsed is a \<open>command\<close>; \<open>argparse\<close> itself is a parameter of \<open>main\<close>, its exits are
  values. A handler returns the exit code; what it raises is turned into one by \<open>run_command\<close>.
\<close>

section \<open>Accounts and members\<close>

text \<open>The transaction of \<open>account create\<close>.\<close>

definition account_tx :: "cli_process \<Rightarrow> string \<Rightarrow> string \<Rightarrow> string \<Rightarrow> control_db
    \<Rightarrow> ((account_row \<times> identity_row) \<times> control_db) result" where
  "account_tx p provider subject display_name db =
     rbind (insert_account (cp_new_id p) (su_now (cp_su p)) display_name db) (\<lambda>(account, db1).
     rbind (insert_identity (cp_identity_id p) (su_now (cp_su p)) (acc_id account) provider subject None False db1)
       (\<lambda>(row, db2). Inr ((account, row), db2)))"

definition create_account :: "cli_process \<Rightarrow> string \<Rightarrow> string \<Rightarrow> string \<Rightarrow> int command_step" where
  "create_account p provider subject display_name =
     act_bind (bootstrap p) (\<lambda>_.
     act_bind (in_cluster (control_tx (account_tx p provider subject display_name))) (\<lambda>(account, row).
     act_bind (warn (''account '' @ uuid_str (acc_id account) @ '' created with identity '' @ idn_provider_id row
         @ ''/'' @ idn_provider_subject row)) (\<lambda>_.
     act_bind (say (uuid_str (acc_id account))) (\<lambda>_.
     act_return 0))))"

text \<open>\<open>Role(text)\<close>.\<close>

definition role_of :: "string \<Rightarrow> role result" where
  "role_of s = (case find (\<lambda>r. role_value r = s) [Role_Owner, Role_Member, Role_Operator, Role_Service] of
       Some r \<Rightarrow> Inr r | None \<Rightarrow> Inl (ValueError (py_repr s @ '' is not a valid Role'')))"

definition add_member :: "cli_process \<Rightarrow> uuid \<Rightarrow> uuid \<Rightarrow> string \<Rightarrow> int command_step" where
  "add_member p workspace account role =
     act_bind (bootstrap p) (\<lambda>_.
     act_bind (in_cluster (control_tx (\<lambda>db.
         rbind (role_of role) (\<lambda>r. insert_membership_if_absent (su_now (cp_su p)) account workspace r db)))) (\<lambda>_.
     act_bind (warn (''account '' @ uuid_str account @ '' added to workspace '' @ uuid_str workspace @ '' as '' @ role)) (\<lambda>_.
     act_return 0)))"

section \<open>Migration\<close>

definition migration_line :: "migration_result \<Rightarrow> string" where
  "migration_line r = ''workspace '' @ (case mr_workspace_id r of Some w \<Rightarrow> uuid_str w | None \<Rightarrow> ''None'')
     @ '' ('' @ mr_database_name r @ ''): ''
     @ (if mr_ok r then ''at head'' else ''unavailable: '' @ (case mr_detail r of Some d \<Rightarrow> d | None \<Rightarrow> ''None''))"

definition warn_all :: "string list \<Rightarrow> unit command_step" where
  "warn_all lines s = (Inr (), s\<lparr>ci_err := ci_err s @ lines\<rparr>)"

definition migrate :: "cli_process \<Rightarrow> int command_step" where
  "migrate p =
     act_bind (bootstrap p) (\<lambda>boot.
     act_bind (on_world (migrate_control (sp_control (cp_startup p)) (bo_backend boot))) (\<lambda>control.
     act_bind (warn (''control plane '' @ mr_database_name control @ '': at head'')) (\<lambda>_.
     act_bind (in_cluster (migrate_active_workspaces (cp_storage p))) (\<lambda>results.
     act_bind (warn_all (map migration_line results)) (\<lambda>_.
     let n = length (filter (\<lambda>r. \<not> mr_ok r) results) in
     act_bind (warn (nat_str (length results) @ '' active workspace(s) migrated, '' @ nat_str n @ '' failed'')) (\<lambda>_.
     act_return (if n = 0 then 0 else 1)))))))"

section \<open>Workspaces\<close>

text \<open>The module state of \<open>uuid7\<close> is the process's.\<close>

definition mint_id :: "cli_process \<Rightarrow> uuid command_step" where
  "mint_id p s = (case uuid7 (cp_time_ns p) (cp_draw p) (ci_minted s) of (r, m) \<Rightarrow> (r, s\<lparr>ci_minted := m\<rparr>))"

definition create_workspace :: "cli_process \<Rightarrow> uuid \<Rightarrow> string option \<Rightarrow> int command_step" where
  "create_workspace p owner slug =
     act_bind (bootstrap p) (\<lambda>_.
     act_bind (mint_id p) (\<lambda>w.
     act_bind (in_cluster (provision (cp_storage p) w owner slug None)) (\<lambda>_.
     act_bind (warn (''workspace '' @ uuid_str w @ '' is active'')) (\<lambda>_.
     act_bind (say (uuid_str w)) (\<lambda>_.
     act_return 0)))))"

definition repair_workspace :: "cli_process \<Rightarrow> uuid \<Rightarrow> int command_step" where
  "repair_workspace p w =
     act_bind (bootstrap p) (\<lambda>_.
     act_bind (in_cluster (repair (cp_storage p) w)) (\<lambda>_.
     act_bind (warn (''workspace '' @ uuid_str w @ '' is active'')) (\<lambda>_.
     act_return 0)))"

definition tab :: string where "tab = [CHR 0x09]"

definition workspace_line :: "workspace_row \<Rightarrow> string" where
  "workspace_line row = uuid_str (ws_id row) @ tab @ ws_slug row @ tab @ state_value (ws_state row) @ tab
     @ (case ws_state_detail row of Some d \<Rightarrow> d | None \<Rightarrow> [])"

definition list_command :: "cli_process \<Rightarrow> int command_step" where
  "list_command p =
     act_bind (bootstrap p) (\<lambda>_.
     act_bind (lift_result (cp_rows_read p)) (\<lambda>_. \<lambda>s.
     act_bind (say_all (map workspace_line (list_workspaces None (ci_control s)))) (\<lambda>_. act_return 0) s))"

section \<open>Dispatching commands\<close>

text \<open>\<open>dispatch(ctx, name, payload)\<close> over the process's registry and its backend.\<close>

definition dispatch_here :: "cli_process \<Rightarrow> backend \<Rightarrow> workspace_context \<Rightarrow> string \<Rightarrow> (string \<times> string) list
    \<Rightarrow> core_output outcome command_step" where
  "dispatch_here p b ctx name payload s =
     in_cluster (dispatch (core_service (be_verify b) (cp_validate p) (cp_su p) (ci_registry s) (cp_new_id p) (cp_random p))
       (ci_registry s) (Some ctx) name (Some payload)) s"

definition operator_context :: "cli_process \<Rightarrow> uuid \<Rightarrow> workspace_context refusable command_step" where
  "operator_context p w s = (context_for_operator (cp_request_id p) w Entry_Cli (ci_cluster s), s)"

definition outcome_error_line :: "core_output outcome \<Rightarrow> string" where
  "outcome_error_line out = (case oo_error out of
       None \<Rightarrow> oo_state out
     | Some e \<Rightarrow> if oe_text e = [] then oo_state out else oo_state out @ '': '' @ oe_text e)"

text \<open>The operator's context, or the refusal printed and exit code 1.\<close>

definition with_operator :: "cli_process \<Rightarrow> uuid \<Rightarrow> (workspace_context \<Rightarrow> int command_step) \<Rightarrow> int command_step" where
  "with_operator p w k =
     act_bind (operator_context p w) (\<lambda>ctx. case ctx of
       Inl r \<Rightarrow> act_bind (warn (refusal_text r)) (\<lambda>_. act_return 1)
     | Inr cx \<Rightarrow> k cx)"

definition workspace_status_command :: "cli_process \<Rightarrow> uuid \<Rightarrow> int command_step" where
  "workspace_status_command p w =
     act_bind (bootstrap p) (\<lambda>boot.
     with_operator p w (\<lambda>ctx.
     act_bind (dispatch_here p (bo_backend boot) ctx ''core.workspace.status'' []) (\<lambda>out.
     case (outcome_ok out, oo_result out) of
       (True, Some status) \<Rightarrow> act_bind (say (cp_json p status)) (\<lambda>_. act_return 0)
     | _ \<Rightarrow> act_bind (warn (case oo_error out of None \<Rightarrow> oo_state out | Some e \<Rightarrow> oe_code e @ '': '' @ oe_text e))
         (\<lambda>_. act_return 1))))"

definition issue_token :: "cli_process \<Rightarrow> uuid \<Rightarrow> uuid \<Rightarrow> string \<Rightarrow> string \<Rightarrow> int command_step" where
  "issue_token p account w set_name kind =
     act_bind (bootstrap p) (\<lambda>boot.
     with_operator p w (\<lambda>ctx.
     act_bind (dispatch_here p (bo_backend boot) ctx ''core.token.issue''
         [(''account_id'', uuid_str account), (''set_name'', set_name), (''kind'', kind)]) (\<lambda>out.
     case (outcome_ok out, oo_result out) of
       (True, Some (Out_Issued t)) \<Rightarrow>
         act_bind (warn (''token '' @ uuid_str (td_token_id t) @ '' issued, kind '' @ td_kind t @ '', expires ''
           @ isoformat (td_expires_at t))) (\<lambda>_.
         act_bind (say (td_value t)) (\<lambda>_. act_return 0))
     | (True, Some _) \<Rightarrow> act_raise (OtherException ''AttributeError'' ''token_id'')
     | _ \<Rightarrow> act_bind (warn (outcome_error_line out)) (\<lambda>_. act_return 1))))"

definition revoke_token :: "cli_process \<Rightarrow> uuid \<Rightarrow> int command_step" where
  "revoke_token p token_id =
     act_bind (bootstrap p) (\<lambda>boot. \<lambda>s.
     (case get_access_token token_id (ci_control s) of
        None \<Rightarrow> act_bind (warn (''access_token_missing: no token '' @ uuid_str token_id)) (\<lambda>_. act_return 1) s
      | Some row \<Rightarrow>
          with_operator p (tok_workspace_id row) (\<lambda>ctx.
          act_bind (dispatch_here p (bo_backend boot) ctx ''core.token.revoke'' [(''token_id'', uuid_str token_id)]) (\<lambda>out.
          if \<not> outcome_ok out then act_bind (warn (outcome_error_line out)) (\<lambda>_. act_return 1)
          else act_bind (warn (''token '' @ uuid_str token_id @ '' revoked'')) (\<lambda>_. act_return 0))) s))"

section \<open>Routing\<close>

definition routing_hosts :: "cli_process \<Rightarrow> int command_step" where
  "routing_hosts p =
     act_bind (bootstrap p) (\<lambda>boot.
     act_bind (lift_result (from_settings (su_registry (cp_su p)) (bo_settings boot))) (\<lambda>config.
     let hosts = sort (remdups (application_hosts config)) in
     act_bind (warn (''routing mode '' @ routing_mode_value (rc_mode config) @ '': '' @ nat_str (length hosts)
         @ '' application host(s), then the OAuth callback URL'')) (\<lambda>_.
     act_bind (say_all hosts) (\<lambda>_.
     act_bind (lift_result (url_for config identity ''/callback'')) (\<lambda>url.
     act_bind (say url) (\<lambda>_.
     act_return 0))))))"

section \<open>The entry point\<close>

datatype command =
    Migrate
  | Account_Create string string string
  | Workspace_Create uuid "string option"
  | Workspace_Repair uuid
  | Workspace_List
  | Workspace_Status uuid
  | Doctor
  | Routing_Hosts
  | Member_Add uuid uuid string
  | Token_Issue uuid uuid string string
  | Token_Revoke uuid

fun handler :: "cli_process \<Rightarrow> command \<Rightarrow> int command_step" where
  "handler p Migrate = migrate p"
| "handler p (Account_Create provider subject display_name) = create_account p provider subject display_name"
| "handler p (Workspace_Create owner slug) = create_workspace p owner slug"
| "handler p (Workspace_Repair w) = repair_workspace p w"
| "handler p Workspace_List = list_command p"
| "handler p (Workspace_Status w) = workspace_status_command p w"
| "handler p Doctor = doctor p"
| "handler p Routing_Hosts = routing_hosts p"
| "handler p (Member_Add w account role) = add_member p w account role"
| "handler p (Token_Issue account w set_name kind) = issue_token p account w set_name kind"
| "handler p (Token_Revoke token_id) = revoke_token p token_id"

text \<open>The argument of a \<open>SystemExit\<close>.\<close>

datatype exit_code = Exit_None | Exit_Int int | Exit_Message string

definition exit_code_of :: "exit_code \<Rightarrow> int" where
  "exit_code_of code = (case code of Exit_None \<Rightarrow> 0 | Exit_Int n \<Rightarrow> n | Exit_Message _ \<Rightarrow> 2)"

definition run_command :: "int command_step \<Rightarrow> int command_step" where
  "run_command f s = (case f s of
       (Inr code, t) \<Rightarrow> (Inr code, t)
     | (Inl e, t) \<Rightarrow> (case e of
           StorageRefusal st d _ \<Rightarrow> act_bind (warn (st @ '': '' @ d)) (\<lambda>_. act_return 1) t
         | SettingsError st d _ \<Rightarrow> act_bind (warn (st @ '': '' @ d)) (\<lambda>_. act_return 1) t
         | DataRootRefusal st d \<Rightarrow> act_bind (warn (st @ '': '' @ d)) (\<lambda>_. act_return 1) t
         | SecretRefusal st d \<Rightarrow> act_bind (warn (st @ '': '' @ d)) (\<lambda>_. act_return 1) t
         | _ \<Rightarrow> if is_value_error e then act_bind (warn (''invalid argument: '' @ exc_str e)) (\<lambda>_. act_return 2) t
             else (Inl e, t)))"

text \<open>
  \<open>parse\<close> is \<open>parse_args\<close>: the \<open>SystemExit\<close> it raises, or the command, \<open>None\<close> when there is none.
\<close>

definition main :: "(string list \<Rightarrow> exit_code + command option) \<Rightarrow> string \<Rightarrow> string list \<Rightarrow> cli_process
    \<Rightarrow> string list option \<Rightarrow> int command_step" where
  "main parse usage sys_argv p argv =
     (case parse (case argv of None \<Rightarrow> tl sys_argv | Some a \<Rightarrow> a) of
        Inl code \<Rightarrow> act_return (exit_code_of code)
      | Inr None \<Rightarrow> act_bind (say usage) (\<lambda>_. act_return 0)
      | Inr (Some cmd) \<Rightarrow> run_command (handler p cmd))"

section \<open>What a command leaves behind\<close>

text \<open>A bootstrap touches the data root and the process's registry, nothing else.\<close>

definition booted :: "cli_process \<Rightarrow> cli_state \<Rightarrow> cli_state \<Rightarrow> bool" where
  "booted p s t = (ci_cluster t = ci_cluster s \<and> wo_catalog (ci_world t) = wo_catalog (ci_world s)
     \<and> ci_out t = ci_out s \<and> ci_err t = ci_err s \<and> ci_minted t = ci_minted s
     \<and> (ci_registry t = ci_registry s \<or> register_core_operations (cp_su p) (ci_registry s) = Inr (ci_registry t)))"

lemma booted_refl [simp]: "booted p s s"
  by (simp add: booted_def)

lemma booted_files: "only_files s t \<Longrightarrow> booted p s t"
  using only_filesD [of s t] by (simp add: booted_def)

lemma bootstrap_booted:
  assumes "bootstrap p s = (r, t)"
  shows "booted p s t" and "r = Inr boot \<Longrightarrow> sp_backend (cp_startup p) = Inr (bo_backend boot)
     \<and> register_core_operations (cp_su p) (ci_registry s) = Inr (ci_registry t)"
proof -
  obtain q u where d: "data_root p s = (q, u)" by fastforce
  note u = only_filesD [OF data_root_only_files [OF d]]
  note steps = bootstrap_def act_bind_def act_return_def act_raise_def lift_result_def register_here_def
  show "booted p s t" using assms d u
    by (auto simp: steps booted_def split: sum.splits prod.splits)
  show "sp_backend (cp_startup p) = Inr (bo_backend boot)
     \<and> register_core_operations (cp_su p) (ci_registry s) = Inr (ci_registry t)" if "r = Inr boot"
    using assms d u that by (auto simp: steps split: sum.splits prod.splits)
qed

lemma in_cluster_tx:
  "in_cluster (control_tx f) s = (r, t) \<Longrightarrow>
     (case f (ci_control s) of
        Inl e \<Rightarrow> r = Inl e \<and> t = s
      | Inr (x, db) \<Rightarrow> r = Inr x \<and> t = s\<lparr>ci_world := (ci_world s)\<lparr>wo_cluster := (ci_cluster s)\<lparr>cl_control := db\<rparr>\<rparr>\<rparr>)"
  by (auto simp: in_cluster_def on_world_def on_world_cluster_def control_tx_def split: sum.splits prod.splits)

lemma in_cluster_run:
  "in_cluster f s = (case f (ci_cluster s) of (r, c) \<Rightarrow> (r, s\<lparr>ci_world := (ci_world s)\<lparr>wo_cluster := c\<rparr>\<rparr>))"
  by (simp add: in_cluster_def on_world_def on_world_cluster_def split: prod.split)

text \<open>What \<open>run_command\<close> does to the state of the handler it ran: at most one line on stderr.\<close>

lemma run_command_cases:
  assumes "run_command f s = (r, t)" and "f s = (q, u)"
  shows "(case q of
       Inr code \<Rightarrow> r = Inr code \<and> t = u
     | Inl e \<Rightarrow> (\<exists>line code. code \<noteq> 0 \<and> r = Inr code \<and> t = u\<lparr>ci_err := ci_err u @ [line]\<rparr>) \<or> r = Inl e \<and> t = u)"
  using assms by (auto simp: run_command_def warn_def act_bind_def act_return_def split: sum.splits py_exc.splits if_splits)


lemma step_success:
  "act_bind (warn a) (\<lambda>_. act_bind (say b) (\<lambda>_. act_return n)) s = (Inr n, s\<lparr>ci_err := ci_err s @ [a], ci_out := ci_out s @ [b]\<rparr>)"
  by (simp add: warn_def say_def act_bind_def act_return_def)

text \<open>The two rows of a new account, as one transaction.\<close>

lemma account_rows_InrD:
  assumes "insert_account i now name db = Inr (account, db1)"
    and "insert_identity j now (acc_id account) provider subject None False db1 = Inr (row, db2)"
  shows "get_account i db2 = Some account \<and> acc_id account = i \<and> acc_display_name account = name
     \<and> get_identity provider subject db2 = Some row \<and> idn_account_id row = i \<and> idn_provider_id row = provider
     \<and> idn_provider_subject row = subject"
proof -
  have a: "account = \<lparr>acc_id = i, acc_display_name = name, acc_created_at = now, acc_disabled_at = None\<rparr>"
    "i \<notin> account_ids db" "db1 = db\<lparr>db_accounts := db_accounts db @ [account]\<rparr>"
    using assms(1) by (auto simp: insert_account_def put_account_def Let_def)
  have r: "row = \<lparr>idn_id = j, idn_account_id = i, idn_provider_id = provider, idn_provider_subject = subject,
      idn_email = None, idn_email_verified = False, idn_created_at = now\<rparr>" "put_identity row db1 = Inr db2"
    using assms(2) a(1) by (auto simp: insert_identity_def Let_def split: sum.splits py_exc.splits violation.splits)
  have "(provider, subject) \<notin> set (map (\<lambda>r. (idn_provider_id r, idn_provider_subject r)) (db_identities db))"
    "db2 = db1\<lparr>db_identities := db_identities db @ [row]\<rparr>"
    using r a(3) by (auto simp: put_identity_def)
  moreover from this(1) have "find (\<lambda>r. idn_provider_id r = provider \<and> idn_provider_subject r = subject) (db_identities db) = None"
    by (force simp: find_None_iff)
  moreover have "find (\<lambda>r. acc_id r = i) (db_accounts db) = None"
    using a(2) by (force simp: find_None_iff account_ids_def)
  ultimately show ?thesis using a r(1) by (simp add: get_account_def get_identity_def find_append)
qed

text \<open>
  The account id on stdout is an account. When \<open>rheo account create\<close> exits 0 it has printed
  one line, the id of an account with that name to which that identity is bound; when it does not,
  it has printed nothing there and the deployment's databases are as they were.
\<close>

theorem printed_account_exists:
  assumes "run_command (handler p (Account_Create provider subject name)) s = (r, s')"
  shows "if r = Inr 0
     then ci_out s' = ci_out s @ [uuid_str (cp_new_id p)]
       \<and> (\<exists>account row. get_account (cp_new_id p) (ci_control s') = Some account \<and> acc_display_name account = name
            \<and> get_identity provider subject (ci_control s') = Some row \<and> idn_account_id row = cp_new_id p)
     else ci_out s' = ci_out s \<and> ci_cluster s' = ci_cluster s"
proof -
  obtain q u where h: "create_account p provider subject name s = (q, u)" by fastforce
  obtain b t where b: "bootstrap p s = (b, t)" by fastforce
  note t = bootstrap_booted(1) [OF b, unfolded booted_def]
  let ?f = "account_tx p provider subject name"
  have cases: "(\<exists>e. q = Inl e) \<and> ci_out u = ci_out s \<and> ci_cluster u = ci_cluster s
     \<or> q = Inr 0 \<and> (\<exists>account row. ?f (ci_control s) = Inr ((account, row), ci_control u)
          \<and> ci_out u = ci_out s @ [uuid_str (acc_id account)])"
    using h b t
    by (cases b; cases "?f (ci_control t)") (auto simp: create_account_def act_bind_def [of "bootstrap p"]
        act_bind_def [of "in_cluster f" for f] in_cluster_run control_tx_def step_success split: sum.splits prod.splits)
  show ?thesis
  proof (cases q)
    case (Inl e)
    then show ?thesis using cases run_command_cases [OF assms(1) [unfolded handler.simps] h] by auto
  next
    case (Inr n)
    then obtain account row where a: "?f (ci_control s) = Inr ((account, row), ci_control u)"
      "ci_out u = ci_out s @ [uuid_str (acc_id account)]" "q = Inr 0" using cases by auto
    then have "r = Inr 0" "s' = u" using run_command_cases [OF assms(1) [unfolded handler.simps] h] by auto
    then show ?thesis using a account_rows_InrD by (fastforce simp: account_tx_def)
  qed
qed

lemma provision_completes:
  assumes "env_works env" and "slug_for w slug = Inr sl" and "can_create env w owner sl c"
  shows "\<exists>c' ms. provision env w owner slug None c = (Inr (), c') \<and> reached env w ms 4 c'
     \<and> (\<exists>m. get_membership owner w (cl_control c') = Some m \<and> mb_role m = Role_Owner)"
proof -
  obtain c1 ms where i: "run_step_insert env w (Some owner) (Some sl) c = (Inr (), c1)" "reached env w ms 0 c1"
    "\<exists>m. get_membership owner w (cl_control c1) = Some m \<and> mb_role m = Role_Owner"
    using insert_step [OF assms(3)] by blast
  obtain c' where p: "provision env w owner slug None c = (Inr (), c')" "reached env w ms 4 c'"
    using provision_from_first_step [OF assms(1,2) i(1,2)] by auto
  have "get_membership owner w (cl_control c') = get_membership owner w (cl_control c1)"
    using i(2) p(2) by (simp add: reached_def get_membership_def)
  then show ?thesis using p i(3) by auto
qed

text \<open>
  The output contract of a command that prints a new value: one line on stdout with exit code 0,
  nothing there with any other end. \<open>quiet\<close> steps print nothing on stdout.
\<close>

definition quiet :: "'a command_step \<Rightarrow> bool" where
  "quiet f = (\<forall>s. ci_out (snd (f s)) = ci_out s)"

definition prints_one :: "int command_step \<Rightarrow> bool" where
  "prints_one f = (\<forall>s. if fst (f s) = Inr 0 then \<exists>line. ci_out (snd (f s)) = ci_out s @ [line]
     else ci_out (snd (f s)) = ci_out s)"

lemma quiet_steps [intro, simp]:
  "quiet (bootstrap p)" "quiet (in_cluster f)" "quiet (warn l)" "quiet (mint_id p)" "quiet (operator_context p w)"
  "quiet (dispatch_here p b ctx name payload)"
proof -
  show "quiet (bootstrap p)" using bootstrap_booted(1) by (auto simp: quiet_def booted_def) (metis prod.collapse)
qed (auto simp: quiet_def in_cluster_run warn_def mint_id_def operator_context_def dispatch_here_def split: prod.split)

lemma prints_one_bind:
  "quiet f \<Longrightarrow> (\<And>x. prints_one (g x)) \<Longrightarrow> prints_one (act_bind f g)"
  unfolding prints_one_def
proof (intro allI)
  fix s assume q: "quiet f" and g: "\<And>x. \<forall>s. if fst (g x s) = Inr 0 then \<exists>line. ci_out (snd (g x s)) = ci_out s @ [line]
     else ci_out (snd (g x s)) = ci_out s"
  obtain r t where f: "f s = (r, t)" by fastforce
  then have "ci_out t = ci_out s" using q by (metis quiet_def snd_conv)
  then show "if fst (act_bind f g s) = Inr 0 then \<exists>line. ci_out (snd (act_bind f g s)) = ci_out s @ [line]
     else ci_out (snd (act_bind f g s)) = ci_out s"
  proof (cases r)
    case (Inr x)
    then show ?thesis using f g [of x, THEN spec, of t] \<open>ci_out t = ci_out s\<close>
      by (auto simp: act_bind_def split: if_splits)
  qed (use f \<open>ci_out t = ci_out s\<close> in \<open>simp add: act_bind_def\<close>)
qed

lemma prints_one_ends [simp]:
  "prints_one (act_bind (say l) (\<lambda>_. act_return 0))" "prints_one (act_raise e)" "n \<noteq> 0 \<Longrightarrow> prints_one (act_return n)"
  by (simp_all add: prints_one_def say_def act_bind_def act_return_def act_raise_def)

lemma prints_one_run:
  assumes "prints_one f"
  shows "prints_one (run_command f)"
  unfolding prints_one_def
proof
  fix s
  obtain q u where f: "f s = (q, u)" by fastforce
  obtain r t where r: "run_command f s = (r, t)" by fastforce
  show "if fst (run_command f s) = Inr 0 then \<exists>line. ci_out (snd (run_command f s)) = ci_out s @ [line]
     else ci_out (snd (run_command f s)) = ci_out s"
    using assms [unfolded prints_one_def, THEN spec, of s] run_command_cases [OF r f] f r by (cases q) auto
qed

lemma prints_one_cases:
  "(\<And>a b. prints_one (f a b)) \<Longrightarrow> prints_one (case_prod f x)"
  "prints_one f0 \<Longrightarrow> (\<And>a. prints_one (f1 a)) \<Longrightarrow> prints_one (case_option f0 f1 y)"
  "prints_one f0 \<Longrightarrow> prints_one f2 \<Longrightarrow> prints_one (case_bool f0 f2 z)"
  "(\<And>a. prints_one (k0 a)) \<Longrightarrow> (\<And>a. prints_one (k1 a)) \<Longrightarrow> (\<And>a. prints_one (k2 a)) \<Longrightarrow> (\<And>a. prints_one (k3 a))
     \<Longrightarrow> prints_one (case_core_output k0 k1 k2 k3 out)"
  by (auto split: prod.split option.split bool.split core_output.split)

lemma prints_one_operator: "(\<And>cx. prints_one (k cx)) \<Longrightarrow> prints_one (with_operator p w k)"
  unfolding with_operator_def by (intro prints_one_bind) (auto intro: prints_one_bind split: sum.split)

lemma commands_print_one:
  "prints_one (run_command (create_account p provider subject name))"
  "prints_one (run_command (create_workspace p owner slug))"
  "prints_one (run_command (issue_token p account w set_name kind))"
proof -
  note rules = prints_one_ends(1,2) prints_one_run prints_one_operator prints_one_cases prints_one_bind quiet_steps
  show "prints_one (run_command (create_account p provider subject name))"
    unfolding create_account_def by (rule rules)+
  show "prints_one (run_command (create_workspace p owner slug))"
    unfolding create_workspace_def by (rule rules)+
  show "prints_one (run_command (issue_token p account w set_name kind))"
    unfolding issue_token_def by (rule rules | simp)+
qed

text \<open>
  C13: \<open>rheo workspace create\<close> prints an active workspace. Whenever the process boots and the
  cluster does its part, it exits 0 with one line on stdout, the identifier just minted, and that
  workspace is active over its own migrated database, owned by the account given; when it exits
  otherwise it has printed nothing there.
\<close>

theorem printed_workspace_is_active:
  assumes "bootstrap p s = (Inr boot, t)" and "uuid7 (cp_time_ns p) (cp_draw p) (ci_minted s) = (Inr w, m)"
    and "env_works (cp_storage p)" and "slug_for w slug = Inr sl" and "can_create (cp_storage p) w owner sl (ci_cluster s)"
  shows "\<exists>s' ms. run_command (handler p (Workspace_Create owner slug)) s = (Inr 0, s')
     \<and> ci_out s' = ci_out s @ [uuid_str w] \<and> reached (cp_storage p) w ms 4 (ci_cluster s')
     \<and> (\<exists>mb. get_membership owner w (ci_control s') = Some mb \<and> mb_role mb = Role_Owner)
     \<and> prints_one (run_command (handler p (Workspace_Create owner slug)))"
proof -
  note b = bootstrap_booted(1) [OF assms(1), unfolded booted_def]
  obtain c' ms where c: "provision (cp_storage p) w owner slug None (ci_cluster s) = (Inr (), c')" "reached (cp_storage p) w ms 4 c'"
    "\<exists>mb. get_membership owner w (cl_control c') = Some mb \<and> mb_role mb = Role_Owner"
    using provision_completes [OF assms(3-5)] by blast
  then show ?thesis using assms(1,2) b commands_print_one(2)
    by (auto simp: run_command_def create_workspace_def act_bind_def mint_id_def in_cluster_run warn_def say_def act_return_def)
qed


section \<open>Revoking from the command line\<close>

lemma lookup_token_revoke:
  "map_of core_table ''core.token.revoke''
     = Some (registered (token_declaration ''core.token.revoke'' ''TokenRevokeInput'' ''TokenRevoked'', H_Revoke, core_origin))"
  by (simp add: core_table_def core_declarations)

lemma revoke_handler_cases:
  assumes "revoke_handler su cx i c = (r, c')"
  shows "(\<exists>e. r = Inl e \<and> c' = c \<and> oo_state (outcome_of_exception e) \<noteq> succeeded) \<or> (\<exists>row db. r = Inr i \<and> get_access_token i (cl_control c) = Some row
     \<and> tok_workspace_id row = cx_workspace_id cx \<and> revoke_access_token (su_now su) i (cl_control c) = Inr ((), db)
     \<and> c' = c\<lparr>cl_control := db\<rparr>)"
  using assms by (auto simp: revoke_handler_def control_tx_def rbind_eq_Inl revoke_access_token_def update_token_def ensure_def
      outcome_of_exception_def refused_outcome_def succeeded_def not_found_def split: option.splits if_splits sum.splits prod.splits)

text \<open>No refusal of the dispatcher itself has the state of a success.\<close>

lemma open_call_refusal: "open_call cx c = Inl (StorageRefusal st d w) \<Longrightarrow> st \<noteq> succeeded"
  by (auto simp: open_call_def active_workspace_def check_database_name_def make_uow_def rbind_eq_Inl ensure_def succeeded_def
      workspace_missing_def split: option.splits if_splits)

lemma authorize_refusal: "authorize reg ctx name = Inl r \<Longrightarrow> rf_state r \<noteq> succeeded"
  by (auto simp: authorize_def refuse_with_def refusal_states succeeded_def operation_unknown_def operation_not_permitted_def
      module_disabled_def split: option.splits operation_set.splits if_splits)

lemma dispatch_ran:
  assumes "dispatch sv reg (Some cx) name payload c = (r, c')"
  obtains (stopped) "c' = c" and "\<forall>out. r = Inr out \<longrightarrow> \<not> outcome_ok out"
  | (ran) op i u u' out s where "authorize reg (Some cx) name = Inr op"
      and "sv_validate sv (od_input_model (ro_declaration op)) (case payload of None \<Rightarrow> [] | Some p \<Rightarrow> p) = Inr i"
      and "open_call cx c = Inr u" and "enter_call (sv_verify sv) u c = Inr u'"
      and "run_call sv (ro_declaration op) (ro_handler op) cx i \<lparr>cs_cluster = c, cs_uow = u'\<rparr> = (out, s)"
      and "r = Inr out" and "c' = cs_cluster s"
proof (cases "authorize reg (Some cx) name")
  case (Inl f)
  then have "c' = c \<and> (\<forall>out. r = Inr out \<longrightarrow> \<not> outcome_ok out)" using assms authorize_refusal [OF Inl]
    by (auto simp: dispatch_def refused_outcome_def outcome_ok_def)
  then show thesis using stopped by blast
next
  case (Inr op)
  then show thesis using assms open_call_refusal stopped ran
    by (fastforce simp: dispatch_def refused_outcome_def outcome_ok_def succeeded_def input_invalid_def
        split: sum.splits py_exc.splits prod.splits)
qed

text \<open>A dispatch of \<open>core.token.revoke\<close> is its handler's work, or nothing.\<close>

lemma revoke_dispatch:
  assumes "dispatch (core_service verify validate su core_table new_id random) core_table (Some cx)
      ''core.token.revoke'' (Some payload) c = (r, c')"
    and "validate ''TokenRevokeInput'' payload = Inr (In_Revoke i)"
  shows "c' = c \<and> (\<forall>out. r = Inr out \<longrightarrow> \<not> outcome_ok out)
    \<or> (\<exists>out c1. r = Inr out \<and> outcome_ok out \<and> revoke_handler su cx i c = (Inr i, c1) \<and> cl_control c' = cl_control c1)"
  using assms(1)
proof (cases rule: dispatch_ran)
  case (ran op input u u' out s)
  then have op: "op = registered (token_declaration ''core.token.revoke'' ''TokenRevokeInput'' ''TokenRevoked'', H_Revoke, core_origin)"
    and input: "input = In_Revoke i"
    using assms(2) lookup_token_revoke
    by (auto simp: authorize_Inr lookup_operation_def core_service_def registered_def token_declaration_def)
  obtain wd where live: "uw_connection u'" "uw_transaction u' = Some wd" using enter_call_InrD [OF ran(4)] by auto
  obtain h c1 where h: "revoke_handler su cx i c = (h, c1)" by fastforce
  show ?thesis using ran(5-7) h live revoke_handler_cases [OF h]
    by (auto simp: op input core_service_def registered_def token_declaration_def run_call_def on_cluster_def act_bind_def
        act_return_def output_class_def commit_call_def uow_commit_def outcome_ok_def rollback_call_def split: sum.splits)
qed simp


lemma revoke_token_cases:
  assumes "revoke_token p i s = (q, u)" and "ci_registry s = []"
    and "cp_validate p ''TokenRevokeInput'' [(''token_id'', uuid_str i)] = Inr (In_Revoke i)"
  shows "ci_out u = ci_out s \<and> (q \<noteq> Inr 0 \<and> ci_cluster u = ci_cluster s
    \<or> q = Inr 0 \<and> (\<exists>row. get_access_token i (ci_control s) = Some row
         \<and> revoke_access_token (su_now (cp_su p)) i (ci_control s) = Inr ((), ci_control u)))"
proof -
  obtain b t where b: "bootstrap p s = (b, t)" by fastforce
  note t = bootstrap_booted(1) [OF b, unfolded booted_def]
  note steps = revoke_token_def with_operator_def operator_context_def act_bind_def act_return_def warn_def
  show ?thesis
  proof (cases b)
    case (Inl e)
    then show ?thesis using assms(1) b t by (auto simp: steps)
  next
    case (Inr boot)
    then have reg: "ci_registry t = core_table"
      using bootstrap_booted(2) [OF b] assms(2) core_registration [of "cp_su p"] by simp
    show ?thesis
    proof (cases "\<exists>row cx. get_access_token i (ci_control s) = Some row
        \<and> context_for_operator (cp_request_id p) (tok_workspace_id row) Entry_Cli (ci_cluster s) = Inr (Inr cx)")
      case False
      then show ?thesis using assms(1) b Inr t
        by (auto simp: steps split: option.splits sum.splits)
    next
      case True
      then obtain row cx where row: "get_access_token i (ci_control s) = Some row"
        "context_for_operator (cp_request_id p) (tok_workspace_id row) Entry_Cli (ci_cluster s) = Inr (Inr cx)" by blast
      obtain r c' where d: "dispatch (core_service (be_verify (bo_backend boot)) (cp_validate p) (cp_su p) core_table (cp_new_id p)
          (cp_random p)) core_table (Some cx) ''core.token.revoke'' (Some [(''token_id'', uuid_str i)]) (ci_cluster s) = (r, c')" by fastforce
      show ?thesis using revoke_dispatch [OF d assms(3)] assms(1) b Inr t row d reg revoke_handler_cases
        by (fastforce simp: steps dispatch_here_def in_cluster_run split: sum.splits if_splits)
    qed
  qed
qed

text \<open>
  C20: \<open>rheo token revoke\<close> means it. When it exits 0 the token existed, and whatever the control
  plane goes through afterwards no text whose bytes hash to it is accepted at any surface; with
  any other end nothing in the deployment's databases changed. It prints nothing on stdout.
\<close>

theorem revoke_command_is_final:
  assumes "run_command (handler p (Token_Revoke i)) s = (r, s')" and "control_ok (ci_control s)" and "ci_registry s = []"
    and "cp_validate p ''TokenRevokeInput'' [(''token_id'', uuid_str i)] = Inr (In_Revoke i)"
  shows "ci_out s' = ci_out s \<and> (if r = Inr 0
     then \<exists>row. get_access_token i (ci_control s) = Some row
       \<and> (\<forall>v q su surface later. control_step\<^sup>*\<^sup>* (ci_control s') later \<and> parse_token v = Some q
            \<and> su_sha256 su (pt_raw q) = tok_token_hash row \<longrightarrow>
          (\<exists>rf. resolve_token su v surface later = Inr (Inl rf, later)
             \<and> rf_state rf \<in> {token_wrong_kind, token_expired, token_revoked}))
     else ci_cluster s' = ci_cluster s)"
proof -
  obtain q u where h: "revoke_token p i s = (q, u)" by fastforce
  note c = revoke_token_cases [OF h assms(3,4)] note rc = run_command_cases [OF assms(1) [unfolded handler.simps] h]
  show ?thesis
  proof (cases "q = Inr 0")
    case True
    then obtain row where row: "get_access_token i (ci_control s) = Some row"
      "revoke_access_token (su_now (cp_su p)) i (ci_control s) = Inr ((), ci_control u)" using c by auto
    have "s' = u" "r = Inr 0" using rc True by simp_all
    then show ?thesis using c row(1) revoked_for_good [OF assms(2) row] by auto
  next
    case False
    then show ?thesis using c rc by (cases q) auto
  qed
qed


section \<open>Migrating from the command line\<close>

lemma outcomes_ok:
  assumes "list_all2 (migration_outcome db) rows rs" and "\<forall>row \<in> set rows. ws_state row = Active"
  shows "(\<forall>r \<in> set rs. mr_ok r) \<longleftrightarrow> (\<forall>row \<in> set rows. get_workspace (ws_id row) db = Some row)"
  using assms by (induction rule: list_all2_induct) (auto simp: migration_outcome_def split: if_splits)

text \<open>
  \<open>rheo migrate\<close> tells the truth about every workspace. When the process boots and the control
  chain runs, it ends: the control database exists, there is a line on stderr for every workspace
  that was active, each of those still has its row or is \<open>unavailable\<close> for the reason its line
  gives, no other workspace is touched, and the exit code is 0 exactly when none was lost.
\<close>

theorem migrate_command_reports:
  assumes "bootstrap p s = (Inr boot, t)" and "database_name_ok (be_control (bo_backend boot))"
    and "run_control_chain (sp_control (cp_startup p)) (be_control (bo_backend boot)) (ci_control s) = Inr db" and "control_ok db"
    and "\<forall>row \<in> set (db_workspaces db). database_name_ok (ws_database_name row)"
  shows "\<exists>code s' results. run_command (handler p Migrate) s = (Inr code, s')
     \<and> be_control (bo_backend boot) \<in> set (wo_catalog (ci_world s')) \<and> ci_out s' = ci_out s
     \<and> list_all2 (migration_outcome (ci_control s')) (list_workspaces (Some Active) db) results
     \<and> set (map migration_line results) \<subseteq> set (ci_err s')
     \<and> (\<forall>v. (\<forall>row. get_workspace v db = Some row \<longrightarrow> ws_state row \<noteq> Active) \<longrightarrow>
           get_workspace v (ci_control s') = get_workspace v db)
     \<and> code = (if \<forall>row \<in> set (list_workspaces (Some Active) db). get_workspace (ws_id row) (ci_control s') = Some row
          then 0 else 1)"
proof -
  let ?b = "bo_backend boot" let ?c = "(ci_cluster s)\<lparr>cl_control := db\<rparr>"
  note t = bootstrap_booted(1) [OF assms(1), unfolded booted_def]
  obtain cat where mc: "be_control ?b \<in> set cat" "migrate_control (sp_control (cp_startup p)) ?b (ci_world t) = (Inr
      \<lparr>mr_workspace_id = None, mr_database_name = be_control ?b, mr_chain = control_chain, mr_ok = True, mr_detail = None\<rparr>,
      (ci_world t)\<lparr>wo_catalog := cat, wo_cluster := ?c\<rparr>)"
    using migrate_control_works [OF assms(2), of "sp_control (cp_startup p)" "ci_world t" db] assms(3) t by auto
  obtain rs c' where m: "migrate_active_workspaces (cp_storage p) ?c = (Inr rs, c')"
    "list_all2 (migration_outcome (cl_control c')) (list_workspaces (Some Active) db) rs"
    "\<forall>v. (\<forall>row. get_workspace v db = Some row \<longrightarrow> ws_state row \<noteq> Active) \<longrightarrow> get_workspace v (cl_control c') = get_workspace v db"
    using migrate_active_returns [of ?c "cp_storage p"] assms(4,5) by auto
  have n: "length (filter (\<lambda>r. \<not> mr_ok r) rs) = 0 \<longleftrightarrow>
      (\<forall>row \<in> set (list_workspaces (Some Active) db). get_workspace (ws_id row) (cl_control c') = Some row)"
    using outcomes_ok [OF m(2)] active_rows(2) [OF assms(4)] by (auto simp: filter_empty_conv)
  let ?n = "length (filter (\<lambda>r. \<not> mr_ok r) rs)"
  let ?u = "t\<lparr>ci_world := (ci_world t)\<lparr>wo_catalog := cat, wo_cluster := c'\<rparr>,
    ci_err := ci_err t @ [''control plane '' @ be_control ?b @ '': at head''] @ map migration_line rs
      @ [nat_str (length rs) @ '' active workspace(s) migrated, '' @ nat_str ?n @ '' failed'']\<rparr>"
  have h: "migrate p s = (Inr (if ?n = 0 then 0 else 1), ?u)"
    using assms(1) mc(2) m(1) t
    by (simp add: migrate_def on_world_def in_cluster_run warn_def warn_all_def act_bind_def act_return_def Let_def)
  have "run_command (handler p Migrate) s = (Inr (if ?n = 0 then 0 else 1), ?u)"
    unfolding handler.simps run_command_def h by simp
  moreover have "set (map migration_line rs) \<subseteq> set (ci_err ?u)" by auto
  ultimately show ?thesis using mc(1) m(2,3) t n
    by (intro exI [of _ "if ?n = 0 then 0 else 1"] exI [of _ ?u] exI [of _ rs]) (simp del: length_0_conv)
qed

lemma routing_hosts_lines:
  assumes "routing_hosts p s = (Inr 0, s')"
  shows "\<exists>config hosts url. ci_out s' = ci_out s @ hosts @ [url] \<and> url_for config identity ''/callback'' = Inr url
     \<and> sorted hosts \<and> distinct hosts \<and> (\<forall>h. h \<in> set hosts \<longleftrightarrow> is_application_host config h)"
proof -
  obtain b t where b: "bootstrap p s = (b, t)" by fastforce
  note t = bootstrap_booted(1) [OF b, unfolded booted_def]
  show ?thesis using assms b t
    by (cases b) (auto simp: routing_hosts_def act_bind_def act_return_def act_raise_def lift_result_def warn_def say_all_def say_def
        Let_def is_application_host_def split: sum.splits)
qed

section \<open>Concrete commands\<close>

lemma sample_bootstrap:
  assumes "cp_startup p = sample_process" and "ci_registry s = []"
  shows "\<exists>boot t. bootstrap p s = (Inr boot, t) \<and> be_control (bo_backend boot) = ''rheo_control''"
proof -
  have su: "sp_surroundings sample_process = startup_surroundings" by (simp add: sample_process_def)
  obtain settings log where rs: "resolve (su_registry startup_surroundings) (su_layer startup_surroundings) None None None
      = Inr (settings, log)" and o: "settings_in_order settings"
    using sample_startup_resolves by (auto split: sum.splits prod.splits)
  obtain root u where root: "data_root p s = (Inr root, u)"
    using data_root_of_startup [of p s sample_world] sample_startup_root assms(1)
    by (cases "data_root p s"; cases "fst (data_root p s)") auto
  obtain b where b: "sp_backend sample_process = Inr b" "be_control b = ''rheo_control''"
    using sample_control_name by (cases "sp_backend sample_process") auto
  have "ci_registry u = []" using only_filesD [OF data_root_only_files [OF root]] assms(2) by simp
  then show ?thesis using assms(1) su rs root b o core_registration [of startup_surroundings]
    by (simp add: bootstrap_def act_bind_def act_return_def lift_result_def register_here_def settings_in_order_def Let_def)
qed

lemma sample_account_created:
  "fst (run_command (handler sample_cli (Account_Create ''github'' ''9'' ''Bo'')) fresh_process) = Inr 0"
proof -
  have st: "ci_registry fresh_process = []" "ci_control fresh_process = sample_control"
    by (simp_all add: fresh_process_def sample_world_def sample_cluster_def)
  have p: "cp_startup sample_cli = sample_process" "cp_new_id sample_cli = 40" "cp_identity_id sample_cli = 41"
    by (simp_all add: sample_cli_def)
  obtain boot t where b: "bootstrap sample_cli fresh_process = (Inr boot, t)" using sample_bootstrap [OF p(1) st(1)] by blast
  then have t: "ci_control t = sample_control" using bootstrap_booted(1) [OF b] st(2) by (simp add: booted_def)
  have now: "su_now (cp_su sample_cli) = 0"
    by (simp add: p(1) sample_process_def startup_surroundings_def storage_surroundings_def)
  have "\<not> isl (rbind (insert_account 40 0 ''Bo'' sample_control) (\<lambda>(account, db1).
     rbind (insert_identity 41 0 (acc_id account) ''github'' ''9'' None False db1) (\<lambda>(row, db2). Inr ((account, row), db2))))"
    by code_simp
  then have "\<not> isl (account_tx sample_cli ''github'' ''9'' ''Bo'' sample_control)"
    unfolding account_tx_def p(2,3) now .
  then obtain account row db where "account_tx sample_cli ''github'' ''9'' ''Bo'' (ci_control t) = Inr ((account, row), db)"
    unfolding t by (cases "account_tx sample_cli ''github'' ''9'' ''Bo'' sample_control") auto
  then have "fst (create_account sample_cli ''github'' ''9'' ''Bo'' fresh_process) = Inr 0"
    using b unfolding create_account_def
    by (simp add: act_bind_def [of "bootstrap p" for p] act_bind_def [of "in_cluster f" for f] in_cluster_run control_tx_def step_success)
  then show ?thesis unfolding handler.simps run_command_def
    by (cases "create_account sample_cli ''github'' ''9'' ''Bo'' fresh_process") auto
qed

lemma printed_account_exists_witness:
  "\<exists>s'. run_command (handler sample_cli (Account_Create ''github'' ''9'' ''Bo'')) fresh_process = (Inr 0, s')
     \<and> ci_out s' = [uuid_str 40] \<and> (\<exists>row. get_identity ''github'' ''9'' (ci_control s') = Some row \<and> idn_account_id row = 40)"
proof -
  obtain s' where r: "run_command (handler sample_cli (Account_Create ''github'' ''9'' ''Bo'')) fresh_process = (Inr 0, s')"
    using sample_account_created by (metis prod.collapse)
  have "ci_out fresh_process = []" "cp_new_id sample_cli = 40" by (simp_all add: fresh_process_def sample_cli_def)
  then show ?thesis using printed_account_exists [OF r] r by auto
qed

lemma sample_mint: "\<not> isl (fst (uuid7 (cp_time_ns sample_cli) (cp_draw sample_cli) 0))"
  unfolding sample_cli_def cli_process.simps by code_simp

definition lab_id :: uuid where
  "lab_id = projr (fst (uuid7 (cp_time_ns sample_cli) (cp_draw sample_cli) 0))"

lemma lab_can_create: "can_create sample_env lab_id 7 ''lab'' sample_cluster"
proof -
  have "uint lab_id \<noteq> 5" unfolding lab_id_def sample_cli_def cli_process.simps by code_simp
  moreover have "uint (5 :: uuid) = 5" by simp
  ultimately have "lab_id \<noteq> 5" by metis
  moreover have "database_name_for lab_id \<noteq> ''rheo_ws_5''" by (simp add: database_name_for_def)
  ultimately show ?thesis using sample_control_ok
    by (auto simp: can_create_def sample_cluster_def account_ids_def workspace_ids_def sample_control_def sample_workspace_def)
qed

lemma printed_workspace_is_active_witness:
  "\<exists>s' ms. run_command (handler sample_cli (Workspace_Create 7 (Some ''lab''))) fresh_process = (Inr 0, s')
     \<and> ci_out s' = [uuid_str lab_id] \<and> reached sample_env lab_id ms 4 (ci_cluster s')"
proof -
  have st: "ci_registry fresh_process = []" "ci_cluster fresh_process = sample_cluster" "ci_out fresh_process = []"
    "ci_minted fresh_process = 0" by (simp_all add: fresh_process_def sample_world_def)
  have p: "cp_startup sample_cli = sample_process" "cp_storage sample_cli = sample_env"
    by (simp_all add: sample_cli_def sample_process_def)
  obtain boot t where b: "bootstrap sample_cli fresh_process = (Inr boot, t)" using sample_bootstrap [OF p(1) st(1)] by blast
  obtain m where m: "uuid7 (cp_time_ns sample_cli) (cp_draw sample_cli) (ci_minted fresh_process) = (Inr lab_id, m)"
    using sample_mint st(4) by (cases "uuid7 (cp_time_ns sample_cli) (cp_draw sample_cli) 0";
        cases "fst (uuid7 (cp_time_ns sample_cli) (cp_draw sample_cli) 0)") (auto simp: lab_id_def)
  have sl: "slug_for lab_id (Some ''lab'') = Inr ''lab''" by (simp add: slug_for_def is_lower_def)
  show ?thesis
    using printed_workspace_is_active [OF b m _ sl, of 7] sample_env_works lab_can_create p(2) st by auto
qed

definition revoking_cli :: cli_process where
  "revoking_cli = sample_cli\<lparr>cp_validate := (\<lambda>_ _. Inr (In_Revoke 11))\<rparr>"

definition serving_process :: cli_state where
  "serving_process = fresh_process\<lparr>ci_world := (ci_world fresh_process)\<lparr>wo_cluster := active_cluster\<rparr>\<rparr>"

lemma sample_revoked: "fst (run_command (handler revoking_cli (Token_Revoke 11)) serving_process) = Inr 0"
  by code_simp

lemma revoke_command_is_final_witness:
  "\<exists>s'. run_command (handler revoking_cli (Token_Revoke 11)) serving_process = (Inr 0, s')
     \<and> (\<exists>rf. resolve_token mcp_surroundings mcp_text ''mcp'' (ci_control s') = Inr (Inl rf, ci_control s'))"
proof -
  obtain s' where r: "run_command (handler revoking_cli (Token_Revoke 11)) serving_process = (Inr 0, s')"
    using sample_revoked by (metis prod.collapse)
  have st: "control_ok (ci_control serving_process)" "ci_registry serving_process = []"
    "cp_validate revoking_cli ''TokenRevokeInput'' [(''token_id'', uuid_str 11)] = Inr (In_Revoke 11)"
    using sample_control_ok by (simp_all add: serving_process_def fresh_process_def active_cluster_def revoking_cli_def)
  have "map_option tok_token_hash (get_access_token 11 (ci_control serving_process)) = Some [4]"
    by (simp add: serving_process_def active_cluster_def sample_control_def get_access_token_def)
  moreover have "su_sha256 mcp_surroundings x = [4]" for x by (simp add: mcp_surroundings_def)
  ultimately show ?thesis
    using revoke_command_is_final [OF r st] r mcp_parses by fastforce
qed

lemma migrate_command_reports_witness:
  "\<exists>code s' results. run_command (handler sample_cli Migrate) fresh_process = (Inr code, s')
     \<and> list_all2 (migration_outcome (ci_control s')) (list_workspaces (Some Active) sample_control) results"
proof -
  have st: "ci_registry fresh_process = []" "ci_control fresh_process = sample_control"
    by (simp_all add: fresh_process_def sample_world_def sample_cluster_def)
  have p: "cp_startup sample_cli = sample_process" by (simp add: sample_cli_def)
  obtain boot t where b: "bootstrap sample_cli fresh_process = (Inr boot, t)" "be_control (bo_backend boot) = ''rheo_control''"
    using sample_bootstrap [OF p st(1)] by blast
  have n: "database_name_ok (be_control (bo_backend boot))" unfolding b(2) by code_simp
  have ch: "run_control_chain (sp_control (cp_startup sample_cli)) (be_control (bo_backend boot)) (ci_control fresh_process)
      = Inr sample_control"
    unfolding st p by (simp add: sample_process_def run_control_chain_def run_chain_def control_chain_def core_chain_def)
  have names: "\<forall>row \<in> set (db_workspaces sample_control). database_name_ok (ws_database_name row)"
  proof -
    have "list_all (\<lambda>row. database_name_ok (ws_database_name row)) (db_workspaces sample_control)" by code_simp
    then show ?thesis by (simp add: list_all_iff)
  qed
  show ?thesis using migrate_command_reports [OF b(1) n ch sample_control_ok names] by blast
qed

end
