(* ===== verification/Secret_Value.thy ===== *)
theory Secret_Value
  imports Rheo_Prelude
begin

text \<open>
  \<open>rheo_core/secrets/value.py\<close>: the wrapper a resolved secret travels in. A Python object is
  bytes, a \<open>bytearray\<close>, a \<open>SecretValue\<close>, or another object by the name of its type. Every
  protocol the class answers is one constructor of \<open>use\<close>; \<open>NotImplemented\<close> is a value, and
  \<open>hmac.compare_digest\<close> is equality of octets (its timing is not modelled).
\<close>

datatype py_object =
    BytesObj bytes
  | BytearrayObj bytes
  | SecretObj bytes
  | AnyObj string

type_synonym secret_value = bytes

definition redacted :: string where
  "redacted = ''SecretValue(<redacted>)''"

text \<open>\<open>SecretValueNotSerialisable\<close>, a \<open>TypeError\<close> of its own.\<close>

definition refuse :: "py_object \<Rightarrow> 'a result" where
  "refuse obj = Inl (OtherException ''SecretValueNotSerialisable''
     ''SecretValue cannot be serialised; use expose() inside the presenting component'')"

definition new_secret :: "py_object \<Rightarrow> secret_value result" where
  "new_secret raw = (case raw of
       BytesObj b \<Rightarrow> Inr b
     | BytearrayObj b \<Rightarrow> Inr b
     | _ \<Rightarrow> Inl (TypeError ''SecretValue wraps bytes''))"

definition subclass_secret :: "unit result" where
  "subclass_secret = Inl (TypeError ''SecretValue cannot be subclassed'')"

definition expose :: "secret_value \<Rightarrow> bytes" where
  "expose s = s"

definition secret_repr :: "secret_value \<Rightarrow> string" where "secret_repr s = redacted"
definition secret_str :: "secret_value \<Rightarrow> string" where "secret_str s = redacted"
definition secret_format :: "secret_value \<Rightarrow> string \<Rightarrow> string" where "secret_format s spec = redacted"

text \<open>\<open>None\<close> is \<open>NotImplemented\<close>: the comparison then falls back to identity, so it is false.\<close>

definition secret_eq :: "secret_value \<Rightarrow> py_object \<Rightarrow> bool option" where
  "secret_eq s other = (case other of SecretObj t \<Rightarrow> Some (s = t) | _ \<Rightarrow> None)"

definition secret_hash :: "secret_value \<Rightarrow> int result" where
  "secret_hash s = Inl (TypeError ''SecretValue is unhashable'')"

definition secret_reduce :: "secret_value \<Rightarrow> string result" where "secret_reduce s = refuse (SecretObj s)"
definition secret_reduce_ex :: "secret_value \<Rightarrow> int \<Rightarrow> string result" where
  "secret_reduce_ex s protocol = refuse (SecretObj s)"
definition secret_getstate :: "secret_value \<Rightarrow> string result" where "secret_getstate s = refuse (SecretObj s)"

text \<open>The core schema: an instance check on the way in, a refusal on the way out.\<close>

definition schema_validates :: "py_object \<Rightarrow> bool" where
  "schema_validates obj = (case obj of SecretObj _ \<Rightarrow> True | _ \<Rightarrow> False)"

definition schema_serialises :: "py_object \<Rightarrow> string result" where
  "schema_serialises obj = refuse obj"

definition type_name :: "py_object \<Rightarrow> string" where
  "type_name obj = (case obj of
       BytesObj _ \<Rightarrow> ''bytes'' | BytearrayObj _ \<Rightarrow> ''bytearray'' | SecretObj _ \<Rightarrow> ''SecretValue'' | AnyObj n \<Rightarrow> n)"

definition refuse_secret_values :: "py_object \<Rightarrow> string result" where
  "refuse_secret_values obj = (case obj of
       SecretObj _ \<Rightarrow> refuse obj
     | _ \<Rightarrow> Inl (TypeError (''Object of type '' @ type_name obj @ '' is not JSON serializable'')))"

section \<open>What an observer learns\<close>

text \<open>Everything that can be asked of a secret but \<open>expose()\<close>, and the answer.\<close>

datatype use =
    Use_Repr | Use_Str | Use_Format string | Use_Hash | Use_Reduce | Use_Reduce_Ex int | Use_Getstate
  | Use_Json | Use_Pydantic | Use_Eq py_object

datatype answer = Text string | Raised py_exc | Compared "bool option"

definition answered :: "('a \<Rightarrow> string) \<Rightarrow> 'a result \<Rightarrow> answer" where
  "answered f r = (case r of Inl e \<Rightarrow> Raised e | Inr x \<Rightarrow> Text (f x))"

fun observe :: "secret_value \<Rightarrow> use \<Rightarrow> answer" where
  "observe s Use_Repr = Text (secret_repr s)"
| "observe s Use_Str = Text (secret_str s)"
| "observe s (Use_Format spec) = Text (secret_format s spec)"
| "observe s Use_Hash = answered (\<lambda>_. []) (secret_hash s)"
| "observe s Use_Reduce = answered id (secret_reduce s)"
| "observe s (Use_Reduce_Ex p) = answered id (secret_reduce_ex s p)"
| "observe s Use_Getstate = answered id (secret_getstate s)"
| "observe s Use_Json = answered id (refuse_secret_values (SecretObj s))"
| "observe s Use_Pydantic = answered id (schema_serialises (SecretObj s))"
| "observe s (Use_Eq other) = Compared (secret_eq s other)"

lemmas secret_defs = secret_repr_def secret_str_def secret_format_def secret_eq_def secret_hash_def secret_reduce_def
  secret_reduce_ex_def secret_getstate_def schema_serialises_def refuse_secret_values_def refuse_def answered_def

text \<open>
  Two secrets can be told apart, short of \<open>expose()\<close>, only by who already holds one of them: any
  sequence of uses that compares with neither gives the same answers on both.
\<close>

lemma observations_are_equal:
  assumes "Use_Eq (SecretObj s) \<notin> set uses" and "Use_Eq (SecretObj t) \<notin> set uses"
  shows "map (observe s) uses = map (observe t) uses"
proof (intro map_cong refl)
  fix u
  assume "u \<in> set uses"
  with assms have "u \<noteq> Use_Eq (SecretObj s)" "u \<noteq> Use_Eq (SecretObj t)" by metis+
  then show "observe s u = observe t u"
    by (cases u) (auto simp: secret_defs split: py_object.splits)
qed

lemma new_secret_exposes: "new_secret obj = Inr s \<Longrightarrow> expose s = b \<Longrightarrow> obj \<in> {BytesObj b, BytearrayObj b}"
  by (auto simp: new_secret_def expose_def split: py_object.splits)

end
