(* ===== verification/Text_Patterns.thy ===== *)
theory Text_Patterns
  imports Rheo_Prelude
begin

text \<open>
  The regular expressions of the web lint (\<open>scripts/check_web_platform.py\<close>) as matchers: a
  matcher gives the rests of a text behind its matches at the start, and \<open>re.search\<close> tries it at
  every position. A \<open>recognizer\<close> is a matcher with the language it is for; the expressions are
  built by combinators that preserve it, and what a search finds is proved once.
\<close>

type_synonym matcher = "string \<Rightarrow> string list"

section \<open>Matchers\<close>

definition lit :: "string \<Rightarrow> matcher" where
  "lit p s = (if startswith s p then [drop (length p) s] else [])"

definition one_of :: "char list \<Rightarrow> matcher" where
  "one_of cs s = (case s of [] \<Rightarrow> [] | c # t \<Rightarrow> if c \<in> set cs then [t] else [])"

text \<open>\<open>\s*\<close> and \<open>\s+\<close>.\<close>

fun spaces :: matcher where
  "spaces [] = [[]]"
| "spaces (c # t) = (c # t) # (if is_space c then spaces t else [])"

definition spaces1 :: matcher where
  "spaces1 s = (case s of [] \<Rightarrow> [] | c # t \<Rightarrow> if is_space c then spaces t else [])"

definition followed_by :: "matcher \<Rightarrow> matcher \<Rightarrow> matcher" where
  "followed_by m n s = concat (map n (m s))"

definition either :: "matcher \<Rightarrow> matcher \<Rightarrow> matcher" where
  "either m n s = m s @ n s"

definition optional :: "matcher \<Rightarrow> matcher" where
  "optional m s = m s @ [s]"

text \<open>\<open>(q)...\1\<close> for a class of quotes: the same character on both sides.\<close>

definition quoted :: "char list \<Rightarrow> matcher \<Rightarrow> matcher" where
  "quoted qs m s = (case s of [] \<Rightarrow> [] | q # t \<Rightarrow> if q \<in> set qs then followed_by m (lit [q]) t else [])"

text \<open>\<open>re.search\<close>, and the same of an expression that starts with \<open>\b\<close> and a word character.\<close>

fun search :: "matcher \<Rightarrow> string \<Rightarrow> bool" where
  "search m [] = (m [] \<noteq> [])"
| "search m (c # t) = (m (c # t) \<noteq> [] \<or> search m t)"

text \<open>\<open>\w\<close>: letters, digits and numerals of Latin-1, and the underscore.\<close>

definition is_word :: "char \<Rightarrow> bool" where
  "is_word c = (let n = (of_char c :: nat) in
     (48 \<le> n \<and> n \<le> 57) \<or> (65 \<le> n \<and> n \<le> 90) \<or> n = 95 \<or> (97 \<le> n \<and> n \<le> 122)
     \<or> n \<in> {170, 178, 179, 181, 185, 186, 188, 189, 190} \<or> (192 \<le> n \<and> n \<noteq> 215 \<and> n \<noteq> 247))"

fun search_word :: "matcher \<Rightarrow> bool \<Rightarrow> string \<Rightarrow> bool" where
  "search_word m inside [] = (\<not> inside \<and> m [] \<noteq> [])"
| "search_word m inside (c # t) = ((\<not> inside \<and> m (c # t) \<noteq> []) \<or> search_word m (is_word c) t)"

section \<open>Languages\<close>

locale recognizer =
  fixes m :: matcher and L :: "string set"
  assumes rests: "t \<in> set (m s) \<longleftrightarrow> (\<exists>u \<in> L. s = u @ t)"
begin

lemma matches: "m s \<noteq> [] \<longleftrightarrow> (\<exists>u \<in> L. \<exists>t. s = u @ t)"
  using rests by (metis list.set_sel(1) empty_iff empty_set)

lemma search_iff: "search m s \<longleftrightarrow> (\<exists>pre u post. u \<in> L \<and> s = pre @ u @ post)"
proof (induction s)
  case Nil
  then show ?case using matches by simp
next
  case (Cons c s)
  have "(\<exists>pre u post. u \<in> L \<and> c # s = pre @ u @ post) \<longleftrightarrow>
      (\<exists>u \<in> L. \<exists>t. c # s = u @ t) \<or> (\<exists>pre u post. u \<in> L \<and> s = pre @ u @ post)"
    (is "?l \<longleftrightarrow> ?r")
  proof
    assume ?l
    then obtain pre u post where "u \<in> L" "c # s = pre @ u @ post" by blast
    then show ?r by (cases pre) auto
  next
    assume ?r
    then show ?l by (metis append_Cons append_Nil)
  qed
  then show ?case using Cons matches by simp
qed

lemma search_word_iff:
  "search_word m inside s \<longleftrightarrow> (\<exists>pre u post. u \<in> L \<and> s = pre @ u @ post
     \<and> (if pre = [] then \<not> inside else \<not> is_word (last pre)))"
proof (induction s arbitrary: inside)
  case Nil
  then show ?case using matches by auto
next
  case (Cons c s)
  have "(\<exists>pre u post. u \<in> L \<and> c # s = pre @ u @ post \<and> (if pre = [] then \<not> inside else \<not> is_word (last pre))) \<longleftrightarrow>
      (\<not> inside \<and> (\<exists>u \<in> L. \<exists>t. c # s = u @ t))
      \<or> (\<exists>pre u post. u \<in> L \<and> s = pre @ u @ post \<and> (if pre = [] then \<not> is_word c else \<not> is_word (last pre)))"
    (is "?l \<longleftrightarrow> ?r")
  proof
    assume ?l
    then obtain pre u post where "u \<in> L" "c # s = pre @ u @ post" "if pre = [] then \<not> inside else \<not> is_word (last pre)"
      by blast
    then show ?r by (cases pre) (auto split: if_splits)
  next
    assume ?r
    then show ?l
    proof
      assume "\<not> inside \<and> (\<exists>u \<in> L. \<exists>t. c # s = u @ t)"
      then show ?l by (metis append_Nil)
    next
      assume "\<exists>pre u post. u \<in> L \<and> s = pre @ u @ post \<and> (if pre = [] then \<not> is_word c else \<not> is_word (last pre))"
      then obtain pre u post where "u \<in> L" "s = pre @ u @ post" "if pre = [] then \<not> is_word c else \<not> is_word (last pre)"
        by blast
      then show ?l by (intro exI [of _ "c # pre"] exI [of _ u] exI [of _ post]) (auto split: if_splits)
    qed
  qed
  then show ?case using Cons matches by simp
qed

end

section \<open>The combinators keep it\<close>

definition conc :: "string set \<Rightarrow> string set \<Rightarrow> string set" where
  "conc L K = {u @ v | u v. u \<in> L \<and> v \<in> K}"

definition space_runs :: "string set" where
  "space_runs = {u. list_all is_space u}"

lemma lit_recognizer: "recognizer (lit p) {p}"
  by unfold_locales (auto simp: lit_def startswith_iff)

lemma one_of_recognizer: "recognizer (one_of cs) {[c] | c. c \<in> set cs}"
  by unfold_locales (auto simp: one_of_def split: list.split)

lemma spaces_rests: "t \<in> set (spaces s) \<longleftrightarrow> (\<exists>u \<in> space_runs. s = u @ t)"
proof (induction s)
  case Nil
  then show ?case by (auto simp: space_runs_def)
next
  case (Cons c s)
  have "(\<exists>u \<in> space_runs. c # s = u @ t) \<longleftrightarrow> t = c # s \<or> is_space c \<and> (\<exists>u \<in> space_runs. s = u @ t)"
    by (auto simp: space_runs_def Cons_eq_append_conv)
  then show ?case using Cons by auto
qed

lemma spaces_recognizer: "recognizer spaces space_runs"
  by unfold_locales (rule spaces_rests)

lemma spaces1_recognizer: "recognizer spaces1 (space_runs - {[]})"
proof
  fix t s
  show "t \<in> set (spaces1 s) \<longleftrightarrow> (\<exists>u \<in> space_runs - {[]}. s = u @ t)"
  proof (cases s)
    case (Cons c r)
    then show ?thesis using spaces_rests [of t r]
      by (auto simp: spaces1_def space_runs_def Cons_eq_append_conv)
  qed (auto simp: spaces1_def)
qed

lemma followed_by_recognizer:
  assumes "recognizer m L" and "recognizer n K"
  shows "recognizer (followed_by m n) (conc L K)"
proof
  fix t s
  show "t \<in> set (followed_by m n s) \<longleftrightarrow> (\<exists>u \<in> conc L K. s = u @ t)"
    using assms by (auto simp: followed_by_def conc_def recognizer.rests) (metis append_assoc)
qed

lemma either_recognizer:
  "recognizer m L \<Longrightarrow> recognizer n K \<Longrightarrow> recognizer (either m n) (L \<union> K)"
  by (auto simp: recognizer_def either_def)

lemma optional_recognizer: "recognizer m L \<Longrightarrow> recognizer (optional m) (insert [] L)"
  by (auto simp: recognizer_def optional_def)

lemma quoted_recognizer:
  assumes "recognizer m L"
  shows "recognizer (quoted qs m) {[q] @ u @ [q] | q u. q \<in> set qs \<and> u \<in> L}"
proof
  fix t s
  show "t \<in> set (quoted qs m s) \<longleftrightarrow> (\<exists>u \<in> {[q] @ u @ [q] | q u. q \<in> set qs \<and> u \<in> L}. s = u @ t)"
  proof (cases s)
    case (Cons q r)
    show ?thesis
      using recognizer.rests [OF followed_by_recognizer [OF assms lit_recognizer [of "[q]"]], of t r]
      by (auto simp: Cons quoted_def conc_def)
  qed (auto simp: quoted_def)
qed

lemma empty_recognizer: "recognizer (\<lambda>s. [s]) {[]}"
  by unfold_locales auto

lemmas recognizers = lit_recognizer one_of_recognizer spaces_recognizer spaces1_recognizer followed_by_recognizer
  either_recognizer optional_recognizer quoted_recognizer empty_recognizer

end
