(* ===== verification/Literal_Scan.thy ===== *)
theory Literal_Scan
  imports Rheo_Prelude
begin

text \<open>
  \<open>scripts/check_routing_literals.py\<close>: the lint that keeps hard-coded routes out of the web
  and core sources. Its two comment strippers are \<open>while\<close> loops over an index, kept as such:
  \<open>partial_function (option)\<close> loops whose \<open>None\<close> is not returning. They are shown to return
  on every text, and to compute what a lexer says: the text is a sequence of lexemes, and the
  loop blanks those that are prose. The file system is the list of regular files below it, with
  their contents (\<open>None\<close> when a read raises \<open>OSError\<close> or \<open>UnicodeError\<close>).
\<close>

section \<open>The strippers\<close>

abbreviation newline :: char where "newline \<equiv> CHR 0x0A"
abbreviation backslash :: char where "backslash \<equiv> CHR 0x5C"
abbreviation double_quote :: char where "double_quote \<equiv> CHR 0x22"
abbreviation single_quote :: char where "single_quote \<equiv> CHR 0x27"
abbreviation backtick :: char where "backtick \<equiv> CHR 0x60"

text \<open>\<open>s.find(p)\<close> and \<open>s.find(p, i)\<close>, with \<open>None\<close> for \<open>-1\<close>.\<close>

fun str_find :: "string \<Rightarrow> string \<Rightarrow> nat option" where
  "str_find p [] = (if p = [] then Some 0 else None)"
| "str_find p (x # xs) = (if startswith (x # xs) p then Some 0 else map_option Suc (str_find p xs))"

definition find_from :: "string \<Rightarrow> string \<Rightarrow> nat \<Rightarrow> nat option" where
  "find_from p s i = map_option (\<lambda>k. i + k) (str_find p (drop i s))"

text \<open>Blanks that keep the newlines.\<close>

definition blank :: "string \<Rightarrow> string" where
  "blank s = map (\<lambda>ch. if ch = newline then newline else CHR '' '') s"

definition slice :: "string \<Rightarrow> nat \<Rightarrow> nat \<Rightarrow> string" where
  "slice s i j = take (j - i) (drop i s)"

text \<open>The inner loop: the end of the literal whose quote is behind \<open>j\<close>.\<close>

partial_function (option) literal_loop :: "string \<Rightarrow> bool \<Rightarrow> char \<Rightarrow> nat \<Rightarrow> nat option" where
  "literal_loop s multiline quote j =
     (if j < length s
      then if s ! j = backslash \<and> j + 1 < length s then literal_loop s multiline quote (j + 2)
        else if s ! j = quote then Some (j + 1)
        else if s ! j = newline \<and> \<not> multiline then Some j
        else literal_loop s multiline quote (j + 1)
      else Some j)"

partial_function (option) ts_loop :: "string \<Rightarrow> nat \<Rightarrow> string \<Rightarrow> string option" where
  "ts_loop s i out =
     (if i < length s
      then if slice s i (i + 2) = ''//''
        then (let e = (case find_from [newline] s i of None \<Rightarrow> length s | Some k \<Rightarrow> k)
              in ts_loop s e (out @ replicate (e - i) (CHR '' '')))
        else if slice s i (i + 2) = ''/*''
        then (let e = (case find_from ''*/'' s (i + 2) of None \<Rightarrow> length s | Some k \<Rightarrow> k + 2)
              in ts_loop s e (out @ blank (slice s i e)))
        else if s ! i \<in> {double_quote, single_quote, backtick}
        then Option.bind (literal_loop s (s ! i = backtick) (s ! i) (i + 1)) (\<lambda>j. ts_loop s j (out @ slice s i j))
        else ts_loop s (i + 1) (out @ [s ! i])
      else Some out)"

definition strip_ts_comments :: "string \<Rightarrow> string option" where
  "strip_ts_comments s = ts_loop s 0 []"

partial_function (option) py_loop :: "string \<Rightarrow> nat \<Rightarrow> string \<Rightarrow> string option" where
  "py_loop s i out =
     (if i < length s
      then if s ! i = CHR ''#''
        then (let e = (case find_from [newline] s i of None \<Rightarrow> length s | Some k \<Rightarrow> k)
              in py_loop s e (out @ replicate (e - i) (CHR '' '')))
        else if slice s i (i + 3) \<in> {replicate 3 double_quote, replicate 3 single_quote}
        then (let e = (case find_from (slice s i (i + 3)) s (i + 3) of None \<Rightarrow> length s | Some k \<Rightarrow> k + 3)
              in py_loop s e (out @ blank (slice s i e)))
        else if s ! i \<in> {double_quote, single_quote}
        then Option.bind (literal_loop s False (s ! i) (i + 1)) (\<lambda>j. py_loop s j (out @ slice s i j))
        else py_loop s (i + 1) (out @ [s ! i])
      else Some out)"

declare literal_loop.simps [code] ts_loop.simps [code] py_loop.simps [code]

definition strip_py_prose :: "string \<Rightarrow> string option" where
  "strip_py_prose s = py_loop s 0 []"

section \<open>The scan\<close>

definition route_literals :: "string list" where
  "route_literals = [''https://'', ''http://'', ''/auth/'', ''/api/'', ''/mcp'']"

definition has_literal :: "string \<Rightarrow> bool" where
  "has_literal s = list_ex (\<lambda>p. str_find p s \<noteq> None) route_literals"

text \<open>An absolute path is its parts; \<open>name\<close> is the last, \<open>suffix\<close> what \<open>Path.suffix\<close> says.\<close>

type_synonym path = "string list"
type_synonym file_tree = "(path \<times> string option) list"

definition path_suffix :: "string \<Rightarrow> string" where
  "path_suffix name = (let ext = rev (takeWhile (\<lambda>c. c \<noteq> CHR ''.'') (rev name)) in
     if CHR ''.'' \<in> set name \<and> ext \<noteq> [] \<and> length ext + 1 < length name then CHR ''.'' # ext else [])"

definition ts_suffixes :: "string list" where "ts_suffixes = [''.ts'', ''.tsx'']"
definition py_suffixes :: "string list" where "py_suffixes = [''.py'']"
definition test_suffixes :: "string list" where
  "test_suffixes = [''test.ts'', ''test.tsx'', ''spec.ts'', ''spec.tsx'']"
definition skip_dirs :: "string list" where "skip_dirs = [''__pycache__'', ''node_modules'', ''.next'']"

definition default_web_root :: "path \<Rightarrow> path" where "default_web_root root = root @ [''apps'', ''web'', ''src'']"
definition default_core_root :: "path \<Rightarrow> path" where "default_core_root root = root @ [''apps'', ''core'', ''src'']"

definition allowlisted_dirs :: "path \<Rightarrow> path list" where
  "allowlisted_dirs root = [default_web_root root @ [''lib'', ''routing'']]"
definition allowlisted_files :: "path \<Rightarrow> path list" where
  "allowlisted_files root = map (\<lambda>n. default_core_root root @ [''rheo_app_core'', n]) [''auth_routes.py'', ''api_routes.py'']"

definition is_test_file :: "path \<Rightarrow> bool" where
  "is_test_file path = list_ex (endswith (last path)) test_suffixes"

definition is_below :: "path \<Rightarrow> path \<Rightarrow> bool" where
  "is_below path directory = (take (length directory) path = directory)"

definition is_allowlisted :: "path \<Rightarrow> path \<Rightarrow> bool" where
  "is_allowlisted root path = (path \<in> set (allowlisted_files root) \<or> list_ex (is_below path) (allowlisted_dirs root))"

text \<open>\<open>os.walk\<close> with the skipped directories pruned; a root that is no directory has no file below it.\<close>

definition iter_files :: "path \<Rightarrow> string list \<Rightarrow> file_tree \<Rightarrow> path list" where
  "iter_files base exts fs = filter (\<lambda>path. is_below path base \<and> length base < length path
     \<and> list_all (\<lambda>d. d \<notin> set skip_dirs) (butlast (drop (length base) path))
     \<and> path_suffix (last path) \<in> set exts) (map fst fs)"

definition relative_path :: "path \<Rightarrow> path \<Rightarrow> string" where
  "relative_path root path = (if is_below path root then join_with ''/'' (drop (length root) path)
     else ''/'' @ join_with ''/'' path)"

definition literal_error :: "path \<Rightarrow> path \<Rightarrow> string" where
  "literal_error root path = ''Hard-coded route literal: '' @ relative_path root path"

fun check_files :: "path \<Rightarrow> (path \<Rightarrow> bool) \<Rightarrow> (string \<Rightarrow> string option) \<Rightarrow> file_tree \<Rightarrow> path list
    \<Rightarrow> string list \<Rightarrow> string list option" where
  "check_files root skip stripper fs [] errors = Some errors"
| "check_files root skip stripper fs (path # paths) errors =
     (if skip path then check_files root skip stripper fs paths errors
      else (case map_of fs path of
          Some (Some t) \<Rightarrow> Option.bind (stripper t) (\<lambda>code. check_files root skip stripper fs paths
            (if has_literal code then errors @ [literal_error root path] else errors))
        | _ \<Rightarrow> check_files root skip stripper fs paths errors))"

definition check_literals :: "path \<Rightarrow> path \<Rightarrow> path \<Rightarrow> file_tree \<Rightarrow> string list option" where
  "check_literals root web_root core_root fs =
     Option.bind (check_files root (\<lambda>path. is_allowlisted root path \<or> is_test_file path) strip_ts_comments fs
         (sort (iter_files web_root ts_suffixes fs)) [])
       (check_files root (is_allowlisted root) strip_py_prose fs (sort (iter_files core_root py_suffixes fs)))"

definition planted_tree :: "path \<Rightarrow> file_tree" where
  "planted_tree tmp =
     [(tmp @ [''web-src'', ''components'', ''planted.tsx''], Some (''export const plantedHref = '' @ [double_quote]
         @ ''/api/v1/planted'' @ [double_quote] @ ''; // not allowlisted'' @ [newline])),
      (tmp @ [''web-src'', ''components'', ''quiet.tsx''],
         Some (''// mentions /api/ only in prose, never in code'' @ [newline]))]"

text \<open>\<open>_self_test\<close> in a scratch directory \<open>tmp\<close>: \<open>None\<close> inside is its success.\<close>

definition literal_self_test :: "path \<Rightarrow> path \<Rightarrow> string option option" where
  "literal_self_test root tmp =
     Option.bind (check_literals root (tmp @ [''web-src'']) (tmp @ [''core-src'']) (planted_tree tmp)) (\<lambda>errors.
     Some (if \<not> list_ex (\<lambda>e. str_find ''planted.tsx'' e \<noteq> None) errors
           then Some ''self-test FAILED: a planted literal went uncaught''
           else if list_ex (\<lambda>e. str_find ''quiet.tsx'' e \<noteq> None) errors
           then Some ''self-test FAILED: comment-only text was flagged (stripper broke)''
           else None))"

text \<open>The exit status, and what goes to \<open>stderr\<close>.\<close>

definition literal_main :: "path \<Rightarrow> path \<Rightarrow> file_tree \<Rightarrow> (nat \<times> string list) option" where
  "literal_main root tmp fs =
     Option.bind (literal_self_test root tmp) (\<lambda>failure.
     case failure of Some why \<Rightarrow> Some (1, [why])
     | None \<Rightarrow> Option.bind (check_literals root (default_web_root root) (default_core_root root) fs) (\<lambda>errors.
         Some (if errors = [] then 0 else 1, errors)))"

section \<open>The reference: a lexer\<close>

text \<open>The length of the literal behind its opening quote.\<close>

fun literal_length :: "bool \<Rightarrow> char \<Rightarrow> string \<Rightarrow> nat" where
  "literal_length multiline quote [] = 0"
| "literal_length multiline quote [c] = (if c = quote then 1 else if c = newline \<and> \<not> multiline then 0 else 1)"
| "literal_length multiline quote (c # d # cs) =
     (if c = backslash then 2 + literal_length multiline quote cs
      else if c = quote then 1
      else if c = newline \<and> \<not> multiline then 0
      else Suc (literal_length multiline quote (d # cs)))"

text \<open>The first lexeme of a nonempty text: whether it is prose, and its length.\<close>

definition ts_lexeme :: "string \<Rightarrow> bool \<times> nat" where
  "ts_lexeme s =
     (if startswith s ''//'' then (True, case str_find [newline] s of None \<Rightarrow> length s | Some k \<Rightarrow> k)
      else if startswith s ''/*'' then (True, case str_find ''*/'' (drop 2 s) of None \<Rightarrow> length s | Some k \<Rightarrow> k + 4)
      else if hd s \<in> {double_quote, single_quote, backtick}
      then (False, Suc (literal_length (hd s = backtick) (hd s) (tl s)))
      else (False, 1))"

definition py_lexeme :: "string \<Rightarrow> bool \<times> nat" where
  "py_lexeme s =
     (if startswith s ''#'' then (True, case str_find [newline] s of None \<Rightarrow> length s | Some k \<Rightarrow> k)
      else if take 3 s \<in> {replicate 3 double_quote, replicate 3 single_quote}
      then (True, case str_find (take 3 s) (drop 3 s) of None \<Rightarrow> length s | Some k \<Rightarrow> k + 6)
      else if hd s \<in> {double_quote, single_quote}
      then (False, Suc (literal_length False (hd s) (tl s)))
      else (False, 1))"

function lexemes :: "(string \<Rightarrow> bool \<times> nat) \<Rightarrow> string \<Rightarrow> (bool \<times> string) list" where
  "lexemes lexeme s = (if s = [] then []
     else (fst (lexeme s), take (max 1 (snd (lexeme s))) s) # lexemes lexeme (drop (max 1 (snd (lexeme s))) s))"
  by pat_completeness auto
termination by (relation "measure (\<lambda>(lexeme, s). length s)") auto

declare lexemes.simps [simp del]

definition blanked :: "(bool \<times> string) list \<Rightarrow> string" where
  "blanked ls = concat (map (\<lambda>(prose, t). if prose then blank t else t) ls)"

section \<open>The loops return and do what the lexer says\<close>

lemma lexemes_step:
  "s \<noteq> [] \<Longrightarrow> 1 \<le> snd (lexeme s) \<Longrightarrow> lexemes lexeme s =
     (fst (lexeme s), take (snd (lexeme s)) s) # lexemes lexeme (drop (snd (lexeme s)) s)"
  by (simp add: lexemes.simps [of lexeme s] max_absorb2)

lemma lexemes_Nil [simp]: "lexemes lexeme [] = []"
  by (simp add: lexemes.simps)

lemma blanked_Cons [simp]: "blanked ((p, t) # ls) = (if p then blank t else t) @ blanked ls"
  by (simp add: blanked_def)

lemma blanked_Nil [simp]: "blanked [] = []"
  by (simp add: blanked_def)

lemma concat_lexemes: "concat (map snd (lexemes lexeme s)) = s"
proof (induction lexeme s rule: lexemes.induct)
  case (1 lexeme s)
  then show ?case by (cases "s = []") (simp_all add: lexemes.simps [of lexeme s])
qed

lemma startswith_list [simp]:
  "startswith s []" "\<not> startswith [] (y # ys)" "startswith (x # xs) (y # ys) \<longleftrightarrow> x = y \<and> startswith xs ys"
  by (simp_all add: startswith_def)

lemma str_find_Some: "str_find p s = Some k \<Longrightarrow> startswith (drop k s) p \<and> k + length p \<le> length s"
proof (induction s arbitrary: k)
  case Nil
  then show ?case by (simp add: startswith_def split: if_splits)
next
  case (Cons x s)
  show ?case
  proof (cases "startswith (x # s) p")
    case True
    then have "length p \<le> length (x # s)" by (metis startswith_iff length_append le_add1)
    then show ?thesis using True Cons.prems by simp
  next
    case False
    then show ?thesis using Cons by auto
  qed
qed

lemma str_find_newline: "str_find [c] s = (if c \<in> set s then Some (length (takeWhile (\<lambda>x. x \<noteq> c) s)) else None)"
  by (induction s) (auto simp: startswith_def)

lemma literal_length_le: "literal_length multiline quote s \<le> length s"
  by (induction multiline quote s rule: literal_length.induct) auto

lemma literal_loop_returns:
  "j \<le> length s \<Longrightarrow> literal_loop s multiline quote j = Some (j + literal_length multiline quote (drop j s))"
proof (induction "length s - j" arbitrary: j rule: less_induct)
  case less
  note step = literal_loop.simps [of s multiline quote j]
  show ?case
  proof (cases "drop j s")
    case Nil
    then show ?thesis by (simp add: step)
  next
    case (Cons c cs)
    then have j: "j < length s" by (metis drop_eq_Nil leI list.discI)
    have c: "s ! j = c" "drop (Suc j) s = cs" using Cons j by (simp_all add: Cons_nth_drop_Suc [symmetric])
    have IH: "literal_loop s multiline quote i = Some (i + literal_length multiline quote (drop i s))"
      if "j < i" "i \<le> length s" for i using less(1) [of i] that by simp
    show ?thesis
    proof (cases cs)
      case Nil
      then have "length s = Suc j" using c(2) j by simp
      then show ?thesis using IH [of "Suc j"] Nil Cons c(1) by (simp add: step)
    next
      case (Cons d ds)
      then have d: "Suc j < length s" using c(2) by (metis drop_eq_Nil leI list.discI)
      have "drop (Suc (Suc j)) s = ds" using c(2) Cons by (metis drop_Suc list.sel(3) tl_drop)
      then show ?thesis using IH [of "Suc j"] IH [of "Suc (Suc j)"] Cons \<open>drop j s = c # cs\<close> c d
        by (simp add: step)
    qed
  qed
qed

text \<open>Both lexers take at least one character and at most what is there.\<close>

lemma newline_end:
  "s \<noteq> [] \<Longrightarrow> hd s \<noteq> newline \<Longrightarrow> 1 \<le> (case str_find [newline] s of None \<Rightarrow> length s | Some k \<Rightarrow> k)"
  by (cases s) (auto simp: str_find_newline Suc_le_eq)

lemma ts_lexeme_bounds: "s \<noteq> [] \<Longrightarrow> 1 \<le> snd (ts_lexeme s) \<and> snd (ts_lexeme s) \<le> length s"
proof (cases "startswith s ''//''")
  case True
  then obtain t where "s = ''//'' @ t" by (auto simp: startswith_iff)
  then show ?thesis by (auto simp: ts_lexeme_def str_find_newline length_takeWhile_le)
next
  case False
  note line = this
  show "s \<noteq> [] \<Longrightarrow> ?thesis"
  proof (cases "startswith s ''/*''")
    case True
    then obtain t where "s = ''/*'' @ t" by (auto simp: startswith_iff)
    then show ?thesis using line by (auto simp: ts_lexeme_def dest: str_find_Some split: option.split)
  next
    case False
    then show "s \<noteq> [] \<Longrightarrow> ?thesis" using line literal_length_le [of "hd s = backtick" "hd s" "tl s"]
      by (cases s) (auto simp: ts_lexeme_def)
  qed
qed

lemma py_lexeme_bounds: "s \<noteq> [] \<Longrightarrow> 1 \<le> snd (py_lexeme s) \<and> snd (py_lexeme s) \<le> length s"
proof (cases "startswith s ''#''")
  case True
  then obtain t where "s = ''#'' @ t" by (auto simp: startswith_iff)
  then show ?thesis by (auto simp: py_lexeme_def str_find_newline length_takeWhile_le)
next
  case False
  note line = this
  show "s \<noteq> [] \<Longrightarrow> ?thesis"
  proof (cases "take 3 s \<in> {replicate 3 double_quote, replicate 3 single_quote}")
    case True
    then have "length (take 3 s) = 3" by (metis (no_types) emptyE insertE length_replicate)
    then have "3 \<le> length s" by simp
    moreover have "k + 6 \<le> length s" if "str_find (take 3 s) (drop 3 s) = Some k" for k
      using str_find_Some [OF that] calculation by (simp add: le_diff_conv2)
    ultimately show ?thesis using line True by (simp add: py_lexeme_def split: option.split)
  next
    case False
    then show "s \<noteq> [] \<Longrightarrow> ?thesis" using line literal_length_le [of False "hd s" "tl s"]
      by (cases s) (auto simp: py_lexeme_def)
  qed
qed

lemma blank_run: "newline \<notin> set s \<Longrightarrow> blank s = replicate (length s) (CHR '' '')"
  by (induction s) (auto simp: blank_def)

lemma blank_line: "str_find [newline] s = r \<Longrightarrow>
   blank (take (case r of None \<Rightarrow> length s | Some k \<Rightarrow> k) s) =
     replicate (case r of None \<Rightarrow> length s | Some k \<Rightarrow> k) (CHR '' '')"
proof -
  let ?w = "takeWhile (\<lambda>x. x \<noteq> newline) s"
  have "newline \<notin> set ?w" by (auto dest: set_takeWhileD)
  moreover have "take (length ?w) s = ?w" by (metis takeWhile_eq_take)
  ultimately show "str_find [newline] s = r \<Longrightarrow> ?thesis"
    using blank_run [of ?w] blank_run [of s] by (auto simp: str_find_newline)
qed

text \<open>What a stripper loop is, and that it returns.\<close>

locale stripper_loop =
  fixes loop :: "string \<Rightarrow> nat \<Rightarrow> string \<Rightarrow> string option"
    and lexeme :: "string \<Rightarrow> bool \<times> nat"
  assumes bounds: "t \<noteq> [] \<Longrightarrow> 1 \<le> snd (lexeme t) \<and> snd (lexeme t) \<le> length t"
    and finish: "length s \<le> i \<Longrightarrow> loop s i out = Some out"
    and advance: "t \<noteq> [] \<Longrightarrow> drop i s = t \<Longrightarrow> loop s i out = loop s (i + snd (lexeme t))
      (out @ (if fst (lexeme t) then blank (take (snd (lexeme t)) t) else take (snd (lexeme t)) t))"
begin

lemma returns: "loop s i out = Some (out @ blanked (lexemes lexeme (drop i s)))"
proof (induction "length s - i" arbitrary: i out rule: less_induct)
  case less
  let ?t = "drop i s" let ?k = "snd (lexeme ?t)"
  show ?case
  proof (cases "?t = []")
    case True
    then show ?thesis by (simp add: finish)
  next
    case False
    have k: "1 \<le> ?k" "?k \<le> length s - i" using bounds [OF False] by simp_all
    then have "length s - (i + ?k) < length s - i" by linarith
    from less(1) [OF this] show ?thesis
      using advance [OF False refl] lexemes_step [of ?t lexeme, OF False k(1)] by (simp add: add.commute)
  qed
qed

end

lemma find_from_end:
  "(case find_from p s i of None \<Rightarrow> length s | Some k \<Rightarrow> k + n) =
   (case str_find p (drop i s) of None \<Rightarrow> length s | Some k \<Rightarrow> i + k + n)"
  by (simp add: find_from_def split: option.split)

text \<open>Positions of the text, seen from the rest of it.\<close>

lemma rest_facts:
  assumes "drop i s = t" and "t \<noteq> []"
  shows "i < length s" and "length s = i + length t" and "s ! i = hd t" and "drop (i + n) s = drop n t"
    and "slice s i (i + n) = take n t"
proof -
  show "i < length s" using assms by (metis drop_eq_Nil leI)
  then show "length s = i + length t" "s ! i = hd t" using assms(1) by (auto simp: hd_drop_conv_nth)
  show "drop (i + n) s = drop n t" using assms(1) by (metis add.commute drop_drop)
  show "slice s i (i + n) = take n t" using assms(1) by (simp add: slice_def)
qed

lemma find_in_rest:
  assumes "drop i s = t" and "t \<noteq> []"
  shows "(case find_from p s (i + n) of None \<Rightarrow> length s | Some k \<Rightarrow> k + m) =
     i + (case str_find p (drop n t) of None \<Rightarrow> length t | Some k \<Rightarrow> n + k + m)"
  using rest_facts [OF assms] by (simp add: find_from_def split: option.split)

lemma startswith_one: "t \<noteq> [] \<Longrightarrow> startswith t [a] \<longleftrightarrow> hd t = a"
  by (cases t) auto

lemma startswith_two: "startswith t [a, b] \<longleftrightarrow> take 2 t = [a, b]"
  by (simp add: startswith_def numeral_2_eq_2)

interpretation ts: stripper_loop ts_loop ts_lexeme
proof unfold_locales
  fix s i out and t :: string
  show "length s \<le> i \<Longrightarrow> ts_loop s i out = Some out" by (simp add: ts_loop.simps)
  assume t: "t \<noteq> []" "drop i s = t"
  note r = rest_facts [OF t(2,1)] and f = find_in_rest [OF t(2,1)]
  let ?k = "snd (ts_lexeme t)"
  show "ts_loop s i out = ts_loop s (i + ?k) (out @ (if fst (ts_lexeme t) then blank (take ?k t) else take ?k t))"
  proof (cases "startswith t ''//''")
    case True
    then have k: "ts_lexeme t = (True, case str_find [newline] t of None \<Rightarrow> length t | Some k \<Rightarrow> k)"
      by (simp add: ts_lexeme_def)
    have e: "(case find_from [newline] s i of None \<Rightarrow> length s | Some k \<Rightarrow> k) = i + ?k"
      using f [where p = "[newline]" and n = 0 and m = 0] k by (simp cong: option.case_cong)
    show ?thesis using True [unfolded startswith_two] r(1) r(5) [of 2] e k blank_line [OF refl, of t]
      by (subst ts_loop.simps) simp
  next
    case False
    note line = this
    show ?thesis
    proof (cases "startswith t ''/*''")
      case True
      then have k: "ts_lexeme t = (True, case str_find ''*/'' (drop 2 t) of None \<Rightarrow> length t | Some k \<Rightarrow> k + 4)"
        by (auto simp: ts_lexeme_def startswith_iff)
      have e: "(case find_from ''*/'' s (i + 2) of None \<Rightarrow> length s | Some k \<Rightarrow> k + 2) = i + ?k"
        using f [where p = "''*/''" and n = 2 and m = 2] k by (simp split: option.splits)
      show ?thesis using True [unfolded startswith_two] r(1) r(5) [of 2] r(5) [of ?k] e k
        by (subst ts_loop.simps) simp
    next
      case False
      have q: "literal_loop s (hd t = backtick) (hd t) (i + 1) = Some (i + 1 + literal_length (hd t = backtick) (hd t) (tl t))"
        using literal_loop_returns [of "i + 1" s] r(1) r(4) [of 1] by (simp add: drop_Suc)
      have o: "take (Suc 0) t = [hd t]" using t(1) by (cases t) auto
      show ?thesis
        using line [unfolded startswith_two] False [unfolded startswith_two] r(1,3) r(5) [of 2] r(5) [of ?k] q o
        by (subst ts_loop.simps) (auto simp: startswith_two ts_lexeme_def)
    qed
  qed
qed (rule ts_lexeme_bounds)

interpretation py: stripper_loop py_loop py_lexeme
proof unfold_locales
  fix s i out and t :: string
  show "length s \<le> i \<Longrightarrow> py_loop s i out = Some out" by (simp add: py_loop.simps)
  assume t: "t \<noteq> []" "drop i s = t"
  note r = rest_facts [OF t(2,1)] and f = find_in_rest [OF t(2,1)]
  let ?k = "snd (py_lexeme t)"
  show "py_loop s i out = py_loop s (i + ?k) (out @ (if fst (py_lexeme t) then blank (take ?k t) else take ?k t))"
  proof (cases "hd t = CHR ''#''")
    case True
    then have k: "py_lexeme t = (True, case str_find [newline] t of None \<Rightarrow> length t | Some k \<Rightarrow> k)"
      using t(1) by (simp add: py_lexeme_def startswith_one)
    have e: "(case find_from [newline] s i of None \<Rightarrow> length s | Some k \<Rightarrow> k) = i + ?k"
      using f [where p = "[newline]" and n = 0 and m = 0] k by (simp cong: option.case_cong)
    show ?thesis using True r(1,3) e k blank_line [OF refl, of t]
      by (subst py_loop.simps) simp
  next
    case False
    then have line: "\<not> startswith t ''#''" using t(1) by (simp add: startswith_one)
    show ?thesis
    proof (cases "take 3 t \<in> {replicate 3 double_quote, replicate 3 single_quote}")
      case True
      then have k: "py_lexeme t = (True, case str_find (take 3 t) (drop 3 t) of None \<Rightarrow> length t | Some k \<Rightarrow> k + 6)"
        using line by (simp add: py_lexeme_def)
      have e: "(case find_from (take 3 t) s (i + 3) of None \<Rightarrow> length s | Some k \<Rightarrow> k + 3) = i + ?k"
        using f [where p = "take 3 t" and n = 3 and m = 3] k by (simp add: add.commute cong: option.case_cong)
      show ?thesis using True False r(1,3) r(5) [of 3] r(5) [of ?k] e k
        by (subst py_loop.simps) simp
    next
      case (False)
      have q: "literal_loop s False (hd t) (i + 1) = Some (i + 1 + literal_length False (hd t) (tl t))"
        using literal_loop_returns [of "i + 1" s] r(1) r(4) [of 1] by (simp add: drop_Suc)
      have o: "take (Suc 0) t = [hd t]" using t(1) by (cases t) auto
      show ?thesis
        using line False \<open>hd t \<noteq> CHR ''#''\<close> r(1,3) r(5) [of 3] r(5) [of ?k] q o
        by (subst py_loop.simps) (auto simp: py_lexeme_def)
    qed
  qed
qed (rule py_lexeme_bounds)

text \<open>
  C29: the comment strippers return on every text, and what they return is the text itself with
  its prose blanked: cut into lexemes (which concatenate to the text), every comment and, for
  Python, every triple-quoted string is blanks with its newlines kept, and everything else,
  quoted literals included, stands as it was. In particular the length and the lines are kept.
\<close>

theorem strippers_return:
  "strip_ts_comments s = Some (blanked (lexemes ts_lexeme s)) \<and> concat (map snd (lexemes ts_lexeme s)) = s
   \<and> strip_py_prose s = Some (blanked (lexemes py_lexeme s)) \<and> concat (map snd (lexemes py_lexeme s)) = s"
  by (simp add: strip_ts_comments_def strip_py_prose_def ts.returns py.returns concat_lexemes)

section \<open>What the scan reports\<close>

text \<open>Which characters are prose, one flag for each.\<close>

definition prose_flags :: "(string \<Rightarrow> bool \<times> nat) \<Rightarrow> string \<Rightarrow> bool list" where
  "prose_flags lexeme s = concat (map (\<lambda>(prose, t). replicate (length t) prose) (lexemes lexeme s))"

text \<open>One of the literals stands in the text, none of its characters in prose.\<close>

definition literal_in_code :: "(string \<Rightarrow> bool \<times> nat) \<Rightarrow> string \<Rightarrow> bool" where
  "literal_in_code lexeme s = (\<exists>pre lit post. s = pre @ lit @ post \<and> lit \<in> set route_literals
     \<and> (\<forall>i < length lit. \<not> prose_flags lexeme s ! (length pre + i)))"

lemma str_find_iff: "str_find p s \<noteq> None \<longleftrightarrow> (\<exists>pre post. s = pre @ p @ post)"
proof (induction s)
  case (Cons x s)
  have "(\<exists>pre post. x # s = pre @ p @ post) \<longleftrightarrow> startswith (x # s) p \<or> (\<exists>pre post. s = pre @ p @ post)"
    unfolding startswith_iff by (metis append_Cons append_Nil list.exhaust list.inject)
  then show ?case using Cons by auto
qed simp

definition blank_char :: "bool \<Rightarrow> char \<Rightarrow> char" where
  "blank_char prose ch = (if prose then if ch = newline then newline else CHR '' '' else ch)"

lemma length_prose_flags [simp]: "length (prose_flags lexeme s) = length s"
  using arg_cong [OF concat_lexemes [of lexeme s], of length]
  by (simp add: prose_flags_def length_concat comp_def case_prod_beta)

lemma blanked_flags: "blanked (lexemes lexeme s) = map2 blank_char (prose_flags lexeme s) s"
proof -
  have "blanked ls = map2 blank_char (concat (map (\<lambda>(prose, t). replicate (length t) prose) ls)) (concat (map snd ls))"
    for ls
  proof (induction ls)
    case (Cons l ls)
    have "map2 blank_char (replicate (length t) p) t = (if p then blank t else t)" for p t
      by (induction t) (auto simp: blank_char_def blank_def)
    then show ?case using Cons by (cases l) simp
  qed simp
  from this [of "lexemes lexeme s"] show ?thesis by (simp add: prose_flags_def concat_lexemes)
qed

lemma blank_char_literal: "lit \<in> set route_literals \<Longrightarrow> x \<in> set lit \<Longrightarrow> blank_char p c = x \<longleftrightarrow> \<not> p \<and> c = x"
  by (auto simp: route_literals_def blank_char_def)

lemma occurs_at:
  "(\<exists>pre post. s = pre @ p @ post \<and> length pre = k) \<longleftrightarrow>
     k + length p \<le> length s \<and> (\<forall>i < length p. s ! (k + i) = p ! i)" (is "?L \<longleftrightarrow> ?R")
proof
  assume ?L
  then show ?R by (auto simp: nth_append)
next
  assume r: ?R
  have "s = take k s @ p @ drop (k + length p) s"
    using r by (intro nth_equalityI) (auto simp: nth_append min_def)
  moreover have "length (take k s) = k" using r by simp
  ultimately show ?L by blast
qed

lemma has_literal_blanked: "has_literal (blanked (lexemes lexeme s)) \<longleftrightarrow> literal_in_code lexeme s"
proof -
  let ?out = "blanked (lexemes lexeme s)" let ?f = "prose_flags lexeme s"
  have l: "length ?out = length s" by (simp add: blanked_flags)
  have "(\<exists>pre post. ?out = pre @ lit @ post \<and> length pre = k) \<longleftrightarrow>
      (\<exists>pre post. s = pre @ lit @ post \<and> length pre = k) \<and> (\<forall>i < length lit. \<not> ?f ! (k + i))"
    if lit: "lit \<in> set route_literals" for lit k
  proof -
    have "?out ! (k + i) = lit ! i \<longleftrightarrow> s ! (k + i) = lit ! i \<and> \<not> ?f ! (k + i)"
      if "i < length lit" "k + length lit \<le> length s" for i
      using blank_char_literal [OF lit, of "lit ! i"] that by (auto simp: blanked_flags)
    then show ?thesis unfolding occurs_at l by blast
  qed
  then have "(\<exists>pre post. ?out = pre @ lit @ post) \<longleftrightarrow>
      (\<exists>pre post. s = pre @ lit @ post \<and> (\<forall>i < length lit. \<not> ?f ! (length pre + i)))"
    if "lit \<in> set route_literals" for lit
    using that by metis
  then show ?thesis
    unfolding has_literal_def literal_in_code_def list_ex_iff str_find_iff by blast
qed

text \<open>One root of the scan.\<close>

definition reported :: "(string \<Rightarrow> bool \<times> nat) \<Rightarrow> (path \<Rightarrow> bool) \<Rightarrow> file_tree \<Rightarrow> path \<Rightarrow> bool" where
  "reported lexeme skip fs path = (\<not> skip path \<and> (\<exists>t. map_of fs path = Some (Some t) \<and> literal_in_code lexeme t))"

lemma check_files_reports:
  assumes "\<And>s. stripper s = Some (blanked (lexemes lexeme s))"
  shows "check_files root skip stripper fs paths errors =
     Some (errors @ map (literal_error root) (filter (reported lexeme skip fs) paths))"
proof (induction paths arbitrary: errors)
  case (Cons path paths)
  then show ?case
    by (simp add: reported_def assms has_literal_blanked split: option.split)
qed simp

lemma iter_files_iff:
  "path \<in> set (iter_files base exts fs) \<longleftrightarrow> path \<in> fst ` set fs \<and> (\<exists>rel. path = base @ rel \<and> rel \<noteq> []
      \<and> set (butlast rel) \<inter> set skip_dirs = {} \<and> path_suffix (last rel) \<in> set exts)"
proof -
  let ?rel = "drop (length base) path"
  have r: "(\<exists>rel. path = base @ rel \<and> Q rel) \<longleftrightarrow> is_below path base \<and> Q ?rel" for Q
    by (metis append_eq_conv_conj append_take_drop_id is_below_def)
  have "?rel \<noteq> [] \<Longrightarrow> last ?rel = last path" by (simp add: last_drop)
  then show ?thesis
    unfolding r iter_files_def by (auto simp: list_all_iff)
qed

text \<open>
  C32: the lint reports what it is for. It returns whatever the files are, and it reports exactly
  the readable files below the two roots, outside skipped directories, with a scanned suffix,
  not allowlisted and (on the web side) not named like a test, in which one of the route
  literals stands in code: a literal in a comment is not reported, and one in code is never
  missed. Its own self-test, in any scratch directory with a plain name, passes.
\<close>

theorem literals_in_code_are_reported:
  "\<exists>errors. check_literals root web core fs = Some errors \<and> (\<forall>e. e \<in> set errors \<longleftrightarrow> (\<exists>path rel t.
      e = literal_error root path \<and> map_of fs path = Some (Some t) \<and> rel \<noteq> []
      \<and> set (butlast rel) \<inter> set skip_dirs = {} \<and> \<not> is_allowlisted root path
      \<and> (path = web @ rel \<and> path_suffix (last rel) \<in> {''.ts'', ''.tsx''} \<and> \<not> is_test_file path
           \<and> literal_in_code ts_lexeme t
         \<or> path = core @ rel \<and> path_suffix (last rel) = ''.py'' \<and> literal_in_code py_lexeme t)))"
proof -
  have iter: "path \<in> set (iter_files base exts fs) \<longleftrightarrow> path \<in> fst ` set fs \<and> (\<exists>rel. path = base @ rel \<and> rel \<noteq> []
      \<and> set (butlast rel) \<inter> set skip_dirs = {} \<and> path_suffix (last rel) \<in> set exts)" for path base exts
    by (rule iter_files_iff)
  have strip: "strip_ts_comments s = Some (blanked (lexemes ts_lexeme s))"
    "strip_py_prose s = Some (blanked (lexemes py_lexeme s))" for s
    by (simp_all add: strip_ts_comments_def strip_py_prose_def ts.returns py.returns)
  note reports = check_files_reports [OF strip(1)] check_files_reports [OF strip(2)]
  have c: "check_literals root web core fs = Some (
      map (literal_error root) (filter (reported ts_lexeme (\<lambda>path. is_allowlisted root path \<or> is_test_file path) fs)
        (sort (iter_files web ts_suffixes fs)))
      @ map (literal_error root) (filter (reported py_lexeme (is_allowlisted root) fs)
        (sort (iter_files core py_suffixes fs))))"
    by (simp add: check_literals_def reports)
  have known: "map_of fs path = Some x \<Longrightarrow> path \<in> fst ` set fs" for path x
    by (metis map_of_SomeD fst_conv image_eqI)
  have web: "path \<in> set (iter_files web ts_suffixes fs)
        \<and> reported ts_lexeme (\<lambda>path. is_allowlisted root path \<or> is_test_file path) fs path
      \<longleftrightarrow> (\<exists>rel t. map_of fs path = Some (Some t) \<and> rel \<noteq> [] \<and> set (butlast rel) \<inter> set skip_dirs = {}
        \<and> \<not> is_allowlisted root path \<and> path = web @ rel \<and> path_suffix (last rel) \<in> {''.ts'', ''.tsx''}
        \<and> \<not> is_test_file path \<and> literal_in_code ts_lexeme t)" for path
    using known [of path] unfolding iter reported_def ts_suffixes_def by auto
  have core: "path \<in> set (iter_files core py_suffixes fs) \<and> reported py_lexeme (is_allowlisted root) fs path
      \<longleftrightarrow> (\<exists>rel t. map_of fs path = Some (Some t) \<and> rel \<noteq> [] \<and> set (butlast rel) \<inter> set skip_dirs = {}
        \<and> \<not> is_allowlisted root path \<and> path = core @ rel \<and> path_suffix (last rel) = ''.py''
        \<and> literal_in_code py_lexeme t)" for path
    using known [of path] unfolding iter reported_def py_suffixes_def by auto
  have split: "(e \<in> f ` {x. \<exists>r t. M x t \<and> N r \<and> K r \<and> L x \<and> x = w @ r \<and> S r \<and> T x \<and> I t} \<or>
      e \<in> f ` {x. \<exists>r t. M x t \<and> N r \<and> K r \<and> L x \<and> x = c @ r \<and> S' r \<and> I' t}) \<longleftrightarrow>
    (\<exists>x r t. e = f x \<and> M x t \<and> N r \<and> K r \<and> L x \<and> (x = w @ r \<and> S r \<and> T x \<and> I t \<or> x = c @ r \<and> S' r \<and> I' t))"
    for e f M N K L w c S T I S' I' by blast
  show ?thesis
    unfolding c by (intro exI conjI allI, rule refl)
      (simp only: set_append set_map set_filter set_sort Un_iff web core split)
qed

lemma self_test_passes: "literal_self_test [''repo''] [''tmp'', ''x''] = Some None"
  by code_simp

lemma test_suffix_is_wider: "is_test_file [''repo'', ''apps'', ''web'', ''src'', ''latest.ts'']"
  by code_simp

end
