(* ===== verification/Web_Platform.thy ===== *)
theory Web_Platform
  imports Text_Patterns Literal_Scan
begin

text \<open>
  \<open>scripts/check_web_platform.py\<close>: the scan that keeps platform-only features out of \<open>apps/web\<close>.
  Its three expressions are recognizers of the languages they are for; the file tree is that of
  \<open>Literal_Scan\<close>, with whether \<open>apps/web\<close> is a directory beside it.
\<close>

section \<open>The expressions\<close>

definition quotes :: "char list" where "quotes = [double_quote, single_quote, backtick]"

definition edge_value :: matcher where
  "edge_value = either (lit ''experimental-edge'') (lit ''edge'')"

definition vercel_import :: matcher where
  "vercel_import = followed_by (either (lit ''from'') (either (lit ''import'') (lit ''require'')))
     (followed_by spaces (followed_by (optional (lit ''(''))
     (followed_by spaces (followed_by (one_of quotes) (lit ''@vercel/'')))))"

definition edge_export :: matcher where
  "edge_export = followed_by (lit ''export'') (followed_by spaces1 (followed_by (lit ''const'') (followed_by spaces1
     (followed_by (lit ''runtime'') (followed_by spaces (followed_by (lit ''='') (followed_by spaces
     (quoted quotes edge_value))))))))"

text \<open>Behind its \<open>\b\<close>.\<close>

definition edge_config_key :: matcher where
  "edge_config_key = followed_by (lit ''runtime'') (followed_by spaces (followed_by (lit '':'') (followed_by spaces
     (quoted quotes edge_value))))"

section \<open>The scan\<close>

definition web_skip_dirs :: "string list" where
  "web_skip_dirs = [''.next'', ''node_modules'', ''dist'', ''build'', ''.turbo'']"

definition code_suffixes :: "string list" where
  "code_suffixes = [''.ts'', ''.tsx'', ''.js'', ''.jsx'', ''.mjs'', ''.cjs'']"

definition web_root_of :: "path \<Rightarrow> path" where
  "web_root_of root = root @ [''apps'', ''web'']"

definition source_files :: "path \<Rightarrow> file_tree \<Rightarrow> path list" where
  "source_files web fs = filter (\<lambda>path. is_below path web \<and> length web < length path
     \<and> list_all (\<lambda>d. d \<notin> set web_skip_dirs) (butlast (drop (length web) path))) (map fst fs)"

definition file_findings :: "string \<Rightarrow> string \<Rightarrow> string list" where
  "file_findings relative t =
     (if search vercel_import t then [''Platform-only @vercel/* import: '' @ relative] else [])
     @ (if search edge_export t then [''Edge runtime export declared: '' @ relative] else [])
     @ (if search_word edge_config_key False t then [''Edge runtime configured: '' @ relative] else [])"

definition web_findings :: "path \<Rightarrow> file_tree \<Rightarrow> path \<Rightarrow> string list" where
  "web_findings root fs path = (case map_of fs path of
       Some (Some t) \<Rightarrow> if path_suffix (last path) \<in> set code_suffixes then file_findings (relative_path root path) t else []
     | _ \<Rightarrow> [])"

definition check_web :: "path \<Rightarrow> bool \<Rightarrow> file_tree \<Rightarrow> string list" where
  "check_web root web_is_dir fs =
     (if \<not> web_is_dir then [''apps/web not found at /'' @ join_with ''/'' (web_root_of root)]
      else concat (map (web_findings root fs) (sort (source_files (web_root_of root) fs))))"

text \<open>\<open>main\<close>: the exit code, what it prints on stderr and on stdout; \<open>checked\<close> is \<open>check()\<close>.\<close>

definition web_main :: "string list result \<Rightarrow> (int \<times> string list \<times> string list) result" where
  "web_main checked = (case checked of
       Inl e \<Rightarrow> (case e of
           RuntimeError d \<Rightarrow> Inr (1, [''Web platform check failed: '' @ d], [])
         | ValueError d \<Rightarrow> Inr (1, [''Web platform check failed: '' @ d], [])
         | OtherException c d \<Rightarrow> if c \<in> {''OSError'', ''UnicodeDecodeError'', ''UnicodeEncodeError''}
             then Inr (1, [''Web platform check failed: '' @ d], []) else Inl e
         | _ \<Rightarrow> Inl e)
     | Inr findings \<Rightarrow> Inr (if findings = [] then 0 else 1, findings,
         if findings = [] then [''Web platform checks passed: apps/web is platform-neutral.''] else []))"

section \<open>What is found\<close>

text \<open>The texts each expression is for, without the expression.\<close>

definition edge_literals :: "string set" where
  "edge_literals = {[q] @ v @ [q] | q v. q \<in> set quotes \<and> v \<in> {''experimental-edge'', ''edge''}}"

definition vercel_texts :: "string set" where
  "vercel_texts = {kw @ a @ paren @ b @ [q] @ ''@vercel/'' | kw a paren b q.
     kw \<in> {''from'', ''import'', ''require''} \<and> list_all is_space a \<and> paren \<in> {[], ''(''} \<and> list_all is_space b \<and> q \<in> set quotes}"

definition export_texts :: "string set" where
  "export_texts = {''export'' @ a @ ''const'' @ b @ ''runtime'' @ c @ ''='' @ d @ e | a b c d e.
     a \<noteq> [] \<and> list_all is_space a \<and> b \<noteq> [] \<and> list_all is_space b \<and> list_all is_space c \<and> list_all is_space d \<and> e \<in> edge_literals}"

definition key_texts :: "string set" where
  "key_texts = {''runtime'' @ a @ '':'' @ b @ e | a b e. list_all is_space a \<and> list_all is_space b \<and> e \<in> edge_literals}"

lemma conc_iff:
  "w \<in> conc {p} K \<longleftrightarrow> (\<exists>v. w = p @ v \<and> v \<in> K)"
  "w \<in> conc space_runs K \<longleftrightarrow> (\<exists>a v. w = a @ v \<and> list_all is_space a \<and> v \<in> K)"
  "w \<in> conc (space_runs - {[]}) K \<longleftrightarrow> (\<exists>a v. w = a @ v \<and> a \<noteq> [] \<and> list_all is_space a \<and> v \<in> K)"
  "w \<in> conc {[c] | c. c \<in> C} K \<longleftrightarrow> (\<exists>q v. w = [q] @ v \<and> q \<in> C \<and> v \<in> K)"
  "w \<in> conc {p, p'} K \<longleftrightarrow> (\<exists>k v. w = k @ v \<and> k \<in> {p, p'} \<and> v \<in> K)"
  "w \<in> conc ({p} \<union> ({p'} \<union> {p''})) K \<longleftrightarrow> (\<exists>k v. w = k @ v \<and> k \<in> {p, p', p''} \<and> v \<in> K)"
  by (auto simp: conc_def space_runs_def) (metis append_Cons append_Nil)

lemma edge_value_quoted: "recognizer (quoted quotes edge_value) edge_literals"
proof -
  have eq: "edge_literals = {[q] @ u @ [q] | q u. q \<in> set quotes \<and> u \<in> {''experimental-edge''} \<union> {''edge''}}"
    unfolding edge_literals_def insert_is_Un [of "''experimental-edge''" "{''edge''}"] ..
  show ?thesis unfolding edge_value_def eq by (intro recognizers)
qed

interpretation vercel: recognizer vercel_import vercel_texts
proof -
  have eq: "vercel_texts = conc ({''from''} \<union> ({''import''} \<union> {''require''})) (conc space_runs (conc (insert [] {''(''})
      (conc space_runs (conc {[c] | c. c \<in> set quotes} {''@vercel/''}))))"
    unfolding vercel_texts_def set_eq_iff conc_iff mem_Collect_eq singleton_iff
    by (intro allI iffI; elim exE conjE; hypsubst; (rule exI conjI refl | assumption)+)
  show "recognizer vercel_import vercel_texts" unfolding vercel_import_def eq by (intro recognizers)
qed

interpretation exported: recognizer edge_export export_texts
proof -
  have eq: "export_texts = conc {''export''} (conc (space_runs - {[]}) (conc {''const''} (conc (space_runs - {[]})
      (conc {''runtime''} (conc space_runs (conc {''=''} (conc space_runs edge_literals)))))))"
    unfolding export_texts_def set_eq_iff conc_iff mem_Collect_eq
    by (intro allI iffI; elim exE conjE; hypsubst; (rule exI conjI refl | assumption)+)
  show "recognizer edge_export export_texts" unfolding edge_export_def eq by (intro recognizers edge_value_quoted)
qed

interpretation configured: recognizer edge_config_key key_texts
proof -
  have eq: "key_texts = conc {''runtime''} (conc space_runs (conc {'':''} (conc space_runs edge_literals)))"
    unfolding key_texts_def set_eq_iff conc_iff mem_Collect_eq
    by (intro allI iffI; elim exE conjE; hypsubst; (rule exI conjI refl | assumption)+)
  show "recognizer edge_config_key key_texts" unfolding edge_config_key_def eq by (intro recognizers edge_value_quoted)
qed

definition platform_code :: "string \<Rightarrow> bool" where
  "platform_code t = (\<exists>pre u post. t = pre @ u @ post \<and> (u \<in> vercel_texts \<or> u \<in> export_texts
     \<or> u \<in> key_texts \<and> (pre = [] \<or> \<not> is_word (last pre))))"

lemma file_findings_Nil: "file_findings relative t = [] \<longleftrightarrow> \<not> platform_code t"
proof -
  have split: "(\<exists>a b c. P a b c \<and> (b \<in> V \<or> b \<in> E \<or> b \<in> K \<and> Q a)) \<longleftrightarrow>
      (\<exists>a b c. b \<in> V \<and> P a b c) \<or> (\<exists>a b c. b \<in> E \<and> P a b c) \<or> (\<exists>a b c. b \<in> K \<and> P a b c \<and> Q a)"
    for P and V E K :: "string set" and Q :: "string \<Rightarrow> bool" by blast
  have start: "(if pre = [] then \<not> False else \<not> is_word (last pre)) \<longleftrightarrow> pre = [] \<or> \<not> is_word (last pre)" for pre
    by simp
  have "platform_code t \<longleftrightarrow> search vercel_import t \<or> search edge_export t \<or> search_word edge_config_key False t"
    unfolding platform_code_def split vercel.search_iff exported.search_iff configured.search_word_iff start ..
  then show ?thesis by (simp add: file_findings_def)
qed

lemma source_files_iff:
  "path \<in> set (source_files web fs) \<longleftrightarrow> path \<in> fst ` set fs \<and> (\<exists>rel. path = web @ rel \<and> rel \<noteq> []
      \<and> set (butlast rel) \<inter> set web_skip_dirs = {})"
proof -
  have "(\<exists>rel. path = web @ rel \<and> Q rel) \<longleftrightarrow> is_below path web \<and> Q (drop (length web) path)" for Q
    by (metis append_eq_conv_conj append_take_drop_id is_below_def)
  then show ?thesis unfolding source_files_def by (auto simp: list_all_iff)
qed

text \<open>
  C34: the gate passes exactly the deployments it is for. It exits 0 precisely when \<open>apps/web\<close> is
  there and no readable code file below it, outside the generated and vendored directories,
  contains a platform import, an edge-runtime export or an edge-runtime configuration key, each
  given as the set of texts that are one.
\<close>

theorem web_gate_decides:
  "(\<exists>out. web_main (Inr (check_web root web_is_dir fs)) = Inr (0, [], out)) \<longleftrightarrow>
     web_is_dir \<and> \<not> (\<exists>path rel t. path = web_root_of root @ rel \<and> rel \<noteq> [] \<and> set (butlast rel) \<inter> set web_skip_dirs = {}
        \<and> map_of fs path = Some (Some t) \<and> path_suffix (last rel) \<in> set code_suffixes \<and> platform_code t)"
proof -
  have known: "map_of fs path = Some x \<Longrightarrow> path \<in> fst ` set fs" for path x
    by (metis map_of_SomeD fst_conv image_eqI)
  have one: "web_findings root fs path = [] \<longleftrightarrow> \<not> (\<exists>t. map_of fs path = Some (Some t)
      \<and> path_suffix (last path) \<in> set code_suffixes \<and> platform_code t)" for path
    by (auto simp: web_findings_def file_findings_Nil split: option.split)
  have "(\<exists>out. web_main (Inr (check_web root web_is_dir fs)) = Inr (0, [], out)) \<longleftrightarrow> check_web root web_is_dir fs = []"
    by (auto simp: web_main_def)
  also have "\<dots> \<longleftrightarrow> web_is_dir \<and> (\<forall>path \<in> set (source_files (web_root_of root) fs). web_findings root fs path = [])"
    by (simp add: check_web_def)
  also have "\<dots> \<longleftrightarrow> web_is_dir \<and> \<not> (\<exists>path \<in> set (source_files (web_root_of root) fs). \<exists>t. map_of fs path = Some (Some t)
      \<and> path_suffix (last path) \<in> set code_suffixes \<and> platform_code t)"
    unfolding one by blast
  also have "(\<exists>path \<in> set (source_files (web_root_of root) fs). \<exists>t. map_of fs path = Some (Some t)
      \<and> path_suffix (last path) \<in> set code_suffixes \<and> platform_code t) \<longleftrightarrow>
     (\<exists>path rel t. path = web_root_of root @ rel \<and> rel \<noteq> [] \<and> set (butlast rel) \<inter> set web_skip_dirs = {}
        \<and> map_of fs path = Some (Some t) \<and> path_suffix (last rel) \<in> set code_suffixes \<and> platform_code t)"
    unfolding Bex_def source_files_iff using known by (metis last_appendR)
  finally show ?thesis .
qed

text \<open>What the expressions take and leave, evaluated.\<close>

lemma expression_examples:
  "search vercel_import ''import x from '@vercel/og';''" "\<not> search vercel_import ''from '@verce1/og';''"
  "search edge_export ''export  const runtime='edge';''" "\<not> search edge_export ''export const runtime='edge`''"
  "search_word edge_config_key False ''{ runtime : 'experimental-edge' }''"
  "\<not> search_word edge_config_key False ''myruntime: 'edge' ''"
  by code_simp+

end
