(* ===== verification/Repo_Check.thy ===== *)
theory Repo_Check
  imports Literal_Scan Urls Data_Root
begin

text \<open>
  \<open>scripts/check_repository.py\<close>: which paths Git must and must not ignore, and that the local links
  of tracked Markdown files lead to tracked files. Git is a parameter, a function from arguments
  and input to return code, stdout and stderr; the checkout's files are another. The two regular
  expressions of the Markdown pass are deterministic and are written out as the scans they are.
\<close>

section \<open>The paths\<close>

definition private_paths :: "string list" where
  "private_paths = [
    ''AGENTS.md'', ''AGENTS.override.md'', ''CLAUDE.md'', ''CLAUDE.local.md'', ''modules/example/AGENTS.md'',
     ''modules/example/AGENTS.override.md'', ''modules/example/CLAUDE.md'', ''modules/example/CLAUDE.local.md'',
     ''.codex/config.toml'', ''.claude/settings.json'', ''.claude/rules/private.md'',
     ''modules/example/.codex/config.toml'', ''modules/example/.claude/settings.json'', ''.mcp.json'',
     ''modules/example/.mcp.json'', ''.rheo-local/workspaces/demo/profile.json'',
     ''.rheo-local/workspaces/demo/private-prompt.md'', ''.rheo-local/uploads/evidence.pdf'',
     ''.rheo-local/transcripts/session.jsonl'', ''.rheo-local/exports/workspace.csv'',
     ''.rheo-local/backups/database.sql'', ''.rheo-local/memory/index.bin'', ''.secrets/token.json'',
     ''rheo.local.yaml'', ''.env'', ''.env.local'', ''.env.production'', ''.envrc'', ''.envrc.local'',
     ''apps/example/.env'', ''apps/example/.env.production'', ''workspace.db'', ''workspace.db-wal'',
     ''workspace.db-shm'', ''workspace.db-journal'', ''work.sqlite'', ''work.sqlite-wal'', ''work.sqlite-shm'',
     ''work.sqlite-journal'', ''work.sqlite3'', ''work.sqlite3-wal'', ''work.sqlite3-shm'',
     ''work.sqlite3-journal'', ''modules/example/cache/workspace.db'', ''service.log'', ''runtime/agent.log'',
     ''.bureau/runs/example/state.json'', ''.venv/pyvenv.cfg'', ''node_modules/.bin/pnpm'',
     ''apps/web/.next/BUILD_ID'', ''apps/web/next-env.d.ts'', ''.ruff_cache/CACHEDIR.TAG'',
     ''.mypy_cache/CACHEDIR.TAG'', ''.pytest_cache/CACHEDIR.TAG'', ''.rheo-local/config/deployment.toml'',
     ''.rheo-local/secrets/cluster/primary-dsn'']"

definition public_paths :: "string list" where
  "public_paths = [
    ''examples/AGENTS.example.md'', ''examples/CLAUDE.example.md'', ''.env.example'', ''.env.production.example'',
     ''apps/example/.env.example'', ''apps/example/.env.production.example'',
     ''packages/core/workspaces/index.ts'', ''modules/leads/schema.json'', ''modules/leads/migrations/001.sql'',
     ''packs/freelance-software/defaults.yaml'', ''tests/fixtures/synthetic-person.json'',
     ''tests/fixtures/synthetic-leads.csv'', ''tests/fixtures/routing/path-mode.json'',
     ''tests/fixtures/routing/subdomain-mode.json'', ''tests/fixtures/routing/expected-urls.json'',
     ''docs/example.pdf'', ''README.md'', ''pyproject.toml'', ''uv.lock'', ''.python-version'', ''Makefile'',
     ''packages/contracts/pyproject.toml'', ''packages/core/pyproject.toml'', ''apps/core/pyproject.toml'',
     ''apps/worker/pyproject.toml'', ''apps/cli/pyproject.toml'', ''apps/mcp/pyproject.toml'',
     ''pnpm-workspace.yaml'', ''package.json'', ''pnpm-lock.yaml'', ''.nvmrc'', ''apps/web/package.json'',
     ''deploy/compose.yaml'', ''Dockerfile'', ''packages/core/src/rheo_core/config/defaults.toml'',
     ''packages/core/src/rheo_core/migrations/core/versions/0001_core_schema.py'']"

section \<open>Git\<close>

type_synonym git = "string list \<Rightarrow> string option \<Rightarrow> int \<times> string \<times> string"

abbreviation nul :: char where "nul \<equiv> CHR 0x00"

definition run_git :: "git \<Rightarrow> string list \<Rightarrow> string option \<Rightarrow> string result" where
  "run_git git args input_text =
     (case git ([''git'', ''-c'', ''core.excludesFile=/dev/null''] @ args) input_text of
        (code, out, err) \<Rightarrow> ensure (code \<in> {0, 1})
          (RuntimeError (if strip err \<noteq> [] then strip err else ''Git command failed'')) (Inr out))"

text \<open>\<open>out.rstrip("\0").split("\0")\<close>.\<close>

definition split_nul :: "string \<Rightarrow> string list" where
  "split_nul out = split_on nul (rev (dropWhile (\<lambda>c. c = nul) (rev out)))"

definition ignored :: "git \<Rightarrow> string list \<Rightarrow> string list result" where
  "ignored git paths =
     (if paths = [] then Inr []
      else rbind (run_git git [''check-ignore'', ''--no-index'', ''-z'', ''--stdin'']
          (Some (join_with [nul] paths @ [nul]))) (\<lambda>out.
        Inr (if out \<noteq> [] then split_nul out else [])))"

definition tracked_files :: "git \<Rightarrow> string list result" where
  "tracked_files git = rbind (run_git git [''ls-files'', ''-z''] None) (\<lambda>out.
     Inr (filter (\<lambda>p. p \<noteq> []) (split_nul out)))"

section \<open>The Markdown pass\<close>

definition fence :: string where "fence = replicate 3 backtick"

text \<open>
  \<open>^```\s*$\<close> at the start of a line: the run of spaces ends at its last newline, or at the end of
  the text.
\<close>

definition fence_end :: "string \<Rightarrow> string option" where
  "fence_end s =
     (if \<not> startswith s fence then None
      else (let run = takeWhile is_space (drop 3 s); rest = dropWhile is_space (drop 3 s) in
        if rest = [] then Some []
        else if newline \<in> set run then Some (newline # rev (takeWhile (\<lambda>c. c \<noteq> newline) (rev run)) @ rest)
        else None))"

text \<open>\<open>.*?^```\s*$\<close>: the first place where the end matches.\<close>

fun to_fence_end :: "bool \<Rightarrow> string \<Rightarrow> string option" where
  "to_fence_end line_start [] = None"
| "to_fence_end line_start (c # s) =
     (case (if line_start then fence_end (c # s) else None) of
        Some r \<Rightarrow> Some r
      | None \<Rightarrow> to_fence_end (c = newline) s)"

text \<open>The rest behind \<open>^```[^\n]*\n.*?^```\s*$\<close>.\<close>

definition fenced :: "string \<Rightarrow> string option" where
  "fenced s =
     (if \<not> startswith s fence then None
      else (case dropWhile (\<lambda>c. c \<noteq> newline) (drop 3 s) of
          [] \<Rightarrow> None
        | _ # body \<Rightarrow> to_fence_end True body))"

lemma fence_end_shorter:
  assumes "fence_end s = Some r"
  shows "length r < length s"
proof -
  let ?run = "takeWhile is_space (drop 3 s)" let ?rest = "dropWhile is_space (drop 3 s)"
  have "startswith s fence" using assms by (simp add: fence_end_def split: if_splits)
  then have n: "length s = 3 + length (drop 3 s)" by (auto simp: startswith_iff fence_def)
  have "length (drop 3 s) = length ?run + length ?rest" by (metis length_append takeWhile_dropWhile_id)
  moreover have "length (takeWhile (\<lambda>c. c \<noteq> newline) (rev ?run)) \<le> length ?run"
    using length_takeWhile_le [of "\<lambda>c. c \<noteq> newline" "rev ?run"] by (simp only: length_rev)
  moreover have "length r \<le> Suc (length (takeWhile (\<lambda>c. c \<noteq> newline) (rev ?run)) + length ?rest)"
    using assms by (simp add: fence_end_def Let_def split: if_splits) auto
  ultimately show ?thesis using n by linarith
qed

lemma to_fence_end_shorter: "to_fence_end b s = Some r \<Longrightarrow> length r < length s"
  by (induction b s rule: to_fence_end.induct) (force split: option.splits if_splits dest: fence_end_shorter)+

lemma fenced_shorter: "fenced s = Some r \<Longrightarrow> length r < length s"
proof -
  assume f: "fenced s = Some r"
  then obtain c body where b: "dropWhile (\<lambda>c. c \<noteq> newline) (drop 3 s) = c # body" "to_fence_end True body = Some r"
    by (auto simp: fenced_def split: if_splits list.splits)
  have "length (c # body) \<le> length s" unfolding b(1) [symmetric]
    by (metis diff_le_self length_drop length_dropWhile_le le_trans)
  then show ?thesis using to_fence_end_shorter [OF b(2)] by simp
qed

text \<open>\<open>re.sub(..., "", text)\<close>. Behind a match comes a newline or nothing, so no line starts there.\<close>

function strip_fences :: "bool \<Rightarrow> string \<Rightarrow> string" where
  "strip_fences line_start s =
     (case (if line_start then fenced s else None) of
        Some r \<Rightarrow> strip_fences False r
      | None \<Rightarrow> (case s of [] \<Rightarrow> [] | c # t \<Rightarrow> c # strip_fences (c = newline) t))"
  by pat_completeness auto
termination
  by (relation "measure (\<lambda>(_, s). length s)") (auto split: if_splits dest: fenced_shorter)

declare strip_fences.simps [simp del, code]

text \<open>\<open>\[[^\]]*\]\(([^\s)]+)\)\<close> at the start: the group and the rest.\<close>

definition link_char :: "char \<Rightarrow> bool" where
  "link_char c = (\<not> is_space c \<and> c \<noteq> CHR '')'')"

definition link_at :: "string \<Rightarrow> (string \<times> string) option" where
  "link_at s = (case s of
       [] \<Rightarrow> None
     | c # t \<Rightarrow> if c \<noteq> CHR ''['' then None
         else (case dropWhile (\<lambda>x. x \<noteq> CHR '']'') t of
             x # y # u \<Rightarrow> if y = CHR ''('' \<and> takeWhile link_char u \<noteq> [] \<and> startswith (dropWhile link_char u) '')''
               then Some (takeWhile link_char u, tl (dropWhile link_char u)) else None
           | _ \<Rightarrow> None))"

lemma link_at_shorter: "link_at s = Some (l, r) \<Longrightarrow> length r < length s"
proof -
  assume l: "link_at s = Some (l, r)"
  then obtain c t x y u where s: "s = c # t" "dropWhile (\<lambda>x. x \<noteq> CHR '']'') t = x # y # u" "r = tl (dropWhile link_char u)"
    by (auto simp: link_at_def split: list.splits if_splits)
  have "length (x # y # u) \<le> length t" unfolding s(2) [symmetric] by (rule length_dropWhile_le)
  moreover have "length r \<le> length u" unfolding s(3) using length_dropWhile_le [of link_char u] by simp
  ultimately show ?thesis using s(1) by simp
qed

function find_links :: "string \<Rightarrow> string list" where
  "find_links s = (case link_at s of
       Some (l, r) \<Rightarrow> l # find_links r
     | None \<Rightarrow> (case s of [] \<Rightarrow> [] | c # t \<Rightarrow> find_links t))"
  by pat_completeness auto
termination
  by (relation "measure length") (auto dest: link_at_shorter)

declare find_links.simps [simp del, code]

section \<open>What the two expressions match\<close>

text \<open>
  The specification of \<open>re.sub(r"(?ms)^```[^\n]*\n.*?^```\s*$", "", text)\<close>: a fenced block at the start of
  a line, its information, its body of whole lines and the closing fence with the spaces behind
  it, at the end of a line. The block taken has the shortest body, and then the most spaces.
  From left to right, each block is cut out and every character outside one is kept.
\<close>

definition fenced_block :: "string \<Rightarrow> string \<Rightarrow> string \<Rightarrow> string \<Rightarrow> string \<Rightarrow> bool" where
  "fenced_block s info body ws r = (s = fence @ info @ newline # body @ fence @ ws @ r \<and> newline \<notin> set info
     \<and> (body = [] \<or> last body = newline) \<and> (\<forall>c \<in> set ws. is_space c) \<and> (r = [] \<or> hd r = newline))"

definition chosen_block :: "string \<Rightarrow> string \<Rightarrow> string \<Rightarrow> string \<Rightarrow> string \<Rightarrow> bool" where
  "chosen_block s info body ws r = (fenced_block s info body ws r
     \<and> (\<forall>info' body' ws' r'. fenced_block s info' body' ws' r' \<longrightarrow>
          length body < length body' \<or> length body = length body' \<and> length ws' \<le> length ws))"

inductive unfenced :: "bool \<Rightarrow> string \<Rightarrow> string \<Rightarrow> bool" where
  cut_block: "chosen_block s info body ws r \<Longrightarrow> unfenced (ws \<noteq> [] \<and> last ws = newline) r t \<Longrightarrow> unfenced True s t"
| keep_char: "\<not> (line_start \<and> (\<exists>info body ws r. fenced_block (c # s) info body ws r)) \<Longrightarrow> unfenced (c = newline) s t
    \<Longrightarrow> unfenced line_start (c # s) (c # t)"
| end_of_text: "unfenced line_start [] []"

text \<open>
  The specification of \<open>re.findall(r"\[[^\]]*\]\(([^\s)]+)\)", text)\<close>: from left to right, the targets of the
  links, none of which starts inside the one before it.
\<close>

definition inline_link :: "string \<Rightarrow> string \<Rightarrow> string \<Rightarrow> string \<Rightarrow> bool" where
  "inline_link s label target r = (s = ''['' @ label @ '']('' @ target @ '')'' @ r \<and> CHR '']'' \<notin> set label \<and> target \<noteq> []
     \<and> (\<forall>c \<in> set target. \<not> is_space c \<and> c \<noteq> CHR '')''))"

inductive link_texts :: "string \<Rightarrow> string list \<Rightarrow> bool" where
  at_link: "inline_link s label target r \<Longrightarrow> link_texts r links \<Longrightarrow> link_texts s (target # links)"
| no_link: "\<nexists>label target r. inline_link (c # s) label target r \<Longrightarrow> link_texts s links \<Longrightarrow> link_texts (c # s) links"
| no_text: "link_texts [] []"

text \<open>The scans decide exactly these.\<close>

lemma takeWhile_upto: "\<forall>c \<in> set xs. P c \<Longrightarrow> \<not> P y \<Longrightarrow> takeWhile P (xs @ y # ys) = xs \<and> dropWhile P (xs @ y # ys) = y # ys"
  by (induction xs) auto

lemma link_at_iff: "link_at s = Some (target, r) \<longleftrightarrow> (\<exists>label. inline_link s label target r)"
proof
  assume "link_at s = Some (target, r)"
  then obtain t x y u where s: "s = CHR ''['' # t" "dropWhile (\<lambda>x. x \<noteq> CHR '']'') t = x # CHR ''('' # u"
      "target = takeWhile link_char u" "target \<noteq> []" "startswith (dropWhile link_char u) '')''" "r = tl (dropWhile link_char u)"
    by (auto simp: link_at_def split: list.splits if_splits)
  let ?label = "takeWhile (\<lambda>x. x \<noteq> CHR '']'') t"
  have "x = CHR '']''" using s(2) hd_dropWhile [of "\<lambda>x. x \<noteq> CHR '']''" t] by simp
  then have t: "t = ?label @ '']('' @ u" using s(2) takeWhile_dropWhile_id [of "\<lambda>x. x \<noteq> CHR '']''" t] by simp
  have "dropWhile link_char u = '')'' @ r" using s(5,6) by (auto simp: startswith_iff)
  then have "u = target @ '')'' @ r" using s(3) takeWhile_dropWhile_id [of link_char u] by simp
  then show "\<exists>label. inline_link s label target r" using s(1,3,4) t
    by (intro exI [of _ ?label]) (auto simp: inline_link_def link_char_def dest!: set_takeWhileD)
next
  assume "\<exists>label. inline_link s label target r"
  then obtain label where s: "s = ''['' @ label @ '']('' @ target @ '')'' @ r" "CHR '']'' \<notin> set label"
     "target \<noteq> []" "\<forall>c \<in> set target. link_char c" by (auto simp: inline_link_def link_char_def)
  have "dropWhile (\<lambda>x. x \<noteq> CHR '']'') (label @ CHR '']'' # CHR ''('' # target @ '')'' @ r) = CHR '']'' # CHR ''('' # target @ '')'' @ r"
    by (rule conjunct2 [OF takeWhile_upto]) (use s(2) in auto)
  moreover have "takeWhile link_char (target @ CHR '')'' # r) = target \<and> dropWhile link_char (target @ CHR '')'' # r) = CHR '')'' # r"
    by (rule takeWhile_upto) (use s(4) in \<open>auto simp: link_char_def\<close>)
  ultimately show "link_at s = Some (target, r)" using s(1,3) by (simp add: link_at_def startswith_def)
qed

lemma link_at_None: "link_at s = None \<longleftrightarrow> (\<nexists>label target r. inline_link s label target r)"
proof (cases "link_at s")
  case (Some p)
  then have "\<exists>label. inline_link s label (fst p) (snd p)" using link_at_iff [of s "fst p" "snd p"] by simp
  then show ?thesis using Some by auto
qed (use link_at_iff [of s] in auto)

lemma link_texts_find: "link_texts s links \<Longrightarrow> find_links s = links"
proof (induction rule: link_texts.induct)
  case (at_link s label target r links)
  then have "link_at s = Some (target, r)" by (auto simp only: link_at_iff)
  then show ?case using at_link.IH by (subst find_links.simps) simp
next
  case (no_link c s links)
  then have "link_at (c # s) = None" by (simp add: link_at_None)
  then show ?case using no_link.IH by (subst find_links.simps) simp
qed (subst find_links.simps, simp add: link_at_def)

lemma find_links_texts: "link_texts s (find_links s)"
proof (induction s rule: find_links.induct)
  case (1 s)
  show ?case
  proof (cases "link_at s")
    case None
    show ?thesis
    proof (cases s)
      case (Cons c t)
      then have "link_texts (c # t) (find_links t)" using 1(1) [OF None Cons] link_at_None [of s] None by (intro no_link) simp_all
      then show ?thesis using None Cons by (subst find_links.simps) simp
    qed (subst find_links.simps, simp add: link_at_def no_text)
  next
    case (Some p)
    obtain target r where p: "p = (target, r)" by fastforce
    then obtain label where "inline_link s label target r" using Some link_at_iff by blast
    moreover have "find_links s = target # find_links r" using Some p by (subst find_links.simps) simp
    moreover have "link_texts r (find_links r)" using 1(2) [OF Some, of target r] p by simp
    ultimately show ?thesis using at_link by simp
  qed
qed

lemma link_texts_iff: "link_texts s links \<longleftrightarrow> find_links s = links"
  using link_texts_find find_links_texts by blast



definition closing :: "string \<Rightarrow> string \<Rightarrow> string \<Rightarrow> bool" where
  "closing s ws r = (s = fence @ ws @ r \<and> (\<forall>c \<in> set ws. is_space c) \<and> (r = [] \<or> hd r = newline))"

lemma is_space_newline: "is_space newline"
  by (simp add: is_space_def)

lemma split_at_last: "y \<in> set xs \<Longrightarrow> xs = butlast_upto @ y # rev (takeWhile (\<lambda>c. c \<noteq> y) (rev xs)) \<longleftrightarrow>
    butlast_upto = rev (tl (dropWhile (\<lambda>c. c \<noteq> y) (rev xs)))"
proof -
  assume "y \<in> set xs"
  then have "dropWhile (\<lambda>c. c \<noteq> y) (rev xs) \<noteq> []" by simp
  then obtain u where u: "dropWhile (\<lambda>c. c \<noteq> y) (rev xs) = y # u"
    by (metis (mono_tags, lifting) dropWhile_eq_Cons_conv list.exhaust)
  then have "rev xs = takeWhile (\<lambda>c. c \<noteq> y) (rev xs) @ y # u" by (metis takeWhile_dropWhile_id)
  then have "xs = rev u @ y # rev (takeWhile (\<lambda>c. c \<noteq> y) (rev xs))" by (metis append.assoc append_Cons append_Nil rev.simps(2) rev_append rev_rev_ident)
  then show ?thesis using u by (metis append_same_eq list.sel(3))
qed

lemma fence_end_closing:
  assumes "fence_end s = Some r"
  shows "\<exists>ws. closing s ws r \<and> (\<forall>ws' r'. closing s ws' r' \<longrightarrow> length ws' \<le> length ws)"
proof -
  let ?run = "takeWhile is_space (drop 3 s)" and ?rest = "dropWhile is_space (drop 3 s)"
  have s: "s = fence @ ?run @ ?rest" using assms by (auto simp: fence_end_def startswith_iff fence_def split: if_splits)
  have upto: "length ws' \<le> length ?run" if "closing s ws' r'" for ws' r'
  proof -
    have "drop 3 s = ws' @ r'" "\<forall>c \<in> set ws'. is_space c" using that by (auto simp: closing_def fence_def)
    then have "takeWhile is_space (drop 3 s) = ws' @ takeWhile is_space r'" by (simp add: takeWhile_append2)
    then show ?thesis by simp
  qed
  show ?thesis
  proof (cases "?rest = []")
    case True
    then have "r = []" using assms by (simp add: fence_end_def split: if_splits)
    then have "closing s ?run r" using s True by (auto simp: closing_def dest: set_takeWhileD)
    then show ?thesis using upto by blast
  next
    case False
    let ?tail = "rev (takeWhile (\<lambda>c. c \<noteq> newline) (rev ?run))"
    have n: "newline \<in> set ?run" "r = newline # ?tail @ ?rest"
      using assms False by (auto simp: fence_end_def Let_def split: if_splits)
    define ws where "ws = rev (tl (dropWhile (\<lambda>c. c \<noteq> newline) (rev ?run)))"
    have run: "?run = ws @ newline # ?tail" using split_at_last [OF n(1), of ws] ws_def by simp
    have nl: "newline \<notin> set ?tail" by (auto dest: set_takeWhileD)
    have "closing s ws r" using s run n(2) unfolding closing_def
      by (metis append.assoc append_Cons in_set_conv_decomp list.sel(1) set_takeWhileD Un_iff set_append)
    moreover have "length ws' \<le> length ws" if c: "closing s ws' r'" for ws' r'
    proof (rule ccontr)
      assume "\<not> length ws' \<le> length ws"
      then have l: "length ws < length ws'" by simp
      have "drop 3 s = ws' @ r'" using c by (auto simp: closing_def fence_def)
      moreover have "drop 3 s = ?run @ ?rest" by simp
      ultimately have e: "ws' @ r' = ws @ newline # ?tail @ ?rest" using run by (metis append.assoc append_Cons)
      have "r' = drop (length ws') (ws' @ r')" by simp
      also have "\<dots> = drop (length ws' - length ws - 1) (?tail @ ?rest)" using l unfolding e by (simp add: drop_Cons')
      finally have r': "r' = drop (length ws' - length ws - 1) ?tail @ ?rest"
        using upto [OF c] arg_cong [OF run, of length] by simp
      have "hd r' \<in> set ?tail \<or> hd r' = hd ?rest"
      proof (cases "drop (length ws' - length ws - 1) ?tail")
        case (Cons a v)
        then have "a \<in> set ?tail" by (metis in_set_dropD list.set_intros(1))
        then show ?thesis using r' Cons by simp
      qed (use r' in simp)
      moreover have "\<not> is_space (hd ?rest)" using False by (rule hd_dropWhile)
      moreover have "hd r' = newline" using c r' False by (auto simp: closing_def)
      ultimately show False using nl is_space_newline by auto
    qed
    ultimately show ?thesis by blast
  qed
qed

lemma closing_fence_end: "closing s ws r \<Longrightarrow> fence_end s \<noteq> None"
proof -
  assume c: "closing s ws r"
  then have "drop 3 s = ws @ r" "startswith s fence" by (auto simp: closing_def fence_def startswith_def)
  moreover have "newline \<in> set (takeWhile is_space (ws @ r))" if "dropWhile is_space (ws @ r) \<noteq> []"
  proof -
    have sp: "\<forall>c \<in> set ws. is_space c" "r = [] \<or> hd r = newline" using c by (auto simp: closing_def)
    then have "r \<noteq> []" using that by (auto simp: dropWhile_eq_Nil_conv)
    then obtain u where "r = newline # u" using sp(2) by (cases r) auto
    then show ?thesis using sp(1) is_space_newline by (simp add: takeWhile_append2)
  qed
  ultimately show ?thesis by (simp add: fence_end_def Let_def)
qed

lemma fence_end_iff:
  "fence_end s = Some r \<longleftrightarrow> (\<exists>ws. closing s ws r \<and> (\<forall>ws' r'. closing s ws' r' \<longrightarrow> length ws' \<le> length ws))"
proof
  assume "\<exists>ws. closing s ws r \<and> (\<forall>ws' r'. closing s ws' r' \<longrightarrow> length ws' \<le> length ws)"
  then obtain ws where ws: "closing s ws r" "\<And>ws' r'. closing s ws' r' \<Longrightarrow> length ws' \<le> length ws" by blast
  obtain r2 where r2: "fence_end s = Some r2" using closing_fence_end [OF ws(1)] by blast
  obtain ws2 where w2: "closing s ws2 r2" "\<And>ws' r'. closing s ws' r' \<Longrightarrow> length ws' \<le> length ws2"
    using fence_end_closing [OF r2] by blast
  have "length ws = length ws2" using ws w2 by (meson le_antisym)
  then have "r = r2" using ws(1) w2(1) by (auto simp: closing_def)
  then show "fence_end s = Some r" using r2 by simp
qed (rule fence_end_closing)


lemma closing_unique: "closing s ws r \<Longrightarrow> closing s ws r2 \<Longrightarrow> r = r2"
  by (simp add: closing_def)

text \<open>The shortest body.\<close>

definition at_line :: "bool \<Rightarrow> string \<Rightarrow> bool" where
  "at_line line_start body = (if body = [] then line_start else last body = newline)"

lemma to_fence_end_Some:
  "to_fence_end b s = Some r \<Longrightarrow> \<exists>body s'. s = body @ s' \<and> at_line b body \<and> fence_end s' = Some r
     \<and> (\<forall>body2 s2. s = body2 @ s2 \<and> at_line b body2 \<and> fence_end s2 \<noteq> None \<longrightarrow> length body \<le> length body2)"
proof (induction b s rule: to_fence_end.induct)
  case (2 b c s)
  show ?case
  proof (cases "if b then fence_end (c # s) else None")
    case (Some q)
    then have "b" "fence_end (c # s) = Some r" using 2(2) by (auto split: if_splits)
    then show ?thesis by (intro exI [of _ "[]"] exI [of _ "c # s"]) (simp add: at_line_def)
  next
    case None
    then obtain body s' where i: "s = body @ s'" "at_line (c = newline) body" "fence_end s' = Some r"
        "\<And>body2 s2. s = body2 @ s2 \<and> at_line (c = newline) body2 \<and> fence_end s2 \<noteq> None \<Longrightarrow> length body \<le> length body2"
      using 2 by auto
    have "length (c # body) \<le> length body2"
      if "c # s = body2 @ s2" "at_line b body2" "fence_end s2 \<noteq> None" for body2 s2
    proof (cases body2)
      case Nil
      then show ?thesis using that None by (simp add: at_line_def split: if_splits)
    next
      case (Cons d v)
      then have "s = v @ s2" "at_line (c = newline) v" using that by (auto simp: at_line_def split: if_splits)
      then show ?thesis using i(4) that(3) Cons by simp
    qed
    then show ?thesis using i(1-3)
      by (intro exI [of _ "c # body"] exI [of _ s']) (auto simp: at_line_def split: if_splits)
  qed
qed simp

lemma to_fence_end_None:
  "to_fence_end b s = None \<Longrightarrow> s = body @ s' \<Longrightarrow> at_line b body \<Longrightarrow> fence_end s' = None"
proof (induction b s arbitrary: body rule: to_fence_end.induct)
  case (1 b)
  then show ?case by (simp add: fence_end_def startswith_def fence_def)
next
  case (2 b c s)
  show ?case
  proof (cases body)
    case Nil
    then show ?thesis using 2 by (auto simp: at_line_def split: option.splits)
  next
    case (Cons d v)
    then have "s = v @ s'" "at_line (c = newline) v" using 2 by (auto simp: at_line_def split: if_splits)
    then show ?thesis using 2(1) 2(2) by (auto split: option.splits if_splits)
  qed
qed


lemma first_split: "x \<notin> set xs \<Longrightarrow> x \<notin> set ys \<Longrightarrow> xs @ x # zs = ys @ x # us \<Longrightarrow> xs = ys \<and> zs = us"
proof (induction xs arbitrary: ys)
  case Nil
  then show ?case by (cases ys) auto
next
  case (Cons a xs)
  then show ?case by (cases ys) auto
qed

lemma block_parts:
  "fenced_block s info body ws r \<longleftrightarrow> newline \<notin> set info \<and> at_line True body
     \<and> (\<exists>s'. s = fence @ info @ newline # body @ s' \<and> closing s' ws r)"
  by (auto simp: fenced_block_def closing_def at_line_def)

lemma fence_opening:
  assumes "newline \<notin> set info"
  shows "fenced (fence @ info @ newline # rest) = to_fence_end True rest"
proof -
  have "dropWhile (\<lambda>c. c \<noteq> newline) (info @ newline # rest) = newline # rest"
    by (rule conjunct2 [OF takeWhile_upto]) (use assms in auto)
  then show ?thesis by (simp add: fenced_def fence_def startswith_def)
qed

lemma fenced_opens:
  assumes "fenced s \<noteq> None"
  obtains info rest where "s = fence @ info @ newline # rest" and "newline \<notin> set info"
proof -
  have st: "startswith s fence" using assms by (simp add: fenced_def split: if_splits)
  obtain d u where "dropWhile (\<lambda>c. c \<noteq> newline) (drop 3 s) = d # u"
    using assms by (cases "dropWhile (\<lambda>c. c \<noteq> newline) (drop 3 s)") (auto simp only: fenced_def st not_True_eq_False if_True if_False list.case)
  moreover from this have "d = newline" using hd_dropWhile [of "\<lambda>c. c \<noteq> newline" "drop 3 s"] by (metis list.distinct(1) list.sel(1))
  ultimately have u: "dropWhile (\<lambda>c. c \<noteq> newline) (drop 3 s) = newline # u" by simp
  have "s = fence @ drop 3 s" using st by (auto simp: startswith_iff fence_def)
  also have "drop 3 s = takeWhile (\<lambda>c. c \<noteq> newline) (drop 3 s) @ newline # u" by (metis u takeWhile_dropWhile_id)
  finally show thesis by (rule that) (auto dest: set_takeWhileD)
qed

lemma no_block: "fenced s = None \<Longrightarrow> \<not> fenced_block s info body ws r"
proof
  assume n: "fenced s = None" and "fenced_block s info body ws r"
  then obtain s' where b: "newline \<notin> set info" "at_line True body" "s = fence @ info @ newline # body @ s'" "closing s' ws r"
    by (auto simp: block_parts)
  then have "to_fence_end True (body @ s') = None" using n by (simp add: fence_opening)
  from to_fence_end_None [OF this refl b(2)] show False using closing_fence_end [OF b(4)] by simp
qed

lemma fenced_chosen:
  assumes "fenced s = Some r"
  shows "\<exists>info body ws. chosen_block s info body ws r"
proof -
  obtain info rest where s: "s = fence @ info @ newline # rest" "newline \<notin> set info"
    using fenced_opens assms by blast
  obtain body s' where b: "rest = body @ s'" "at_line True body" "fence_end s' = Some r"
      "\<And>body2 s2. rest = body2 @ s2 \<and> at_line True body2 \<and> fence_end s2 \<noteq> None \<Longrightarrow> length body \<le> length body2"
    using to_fence_end_Some assms unfolding s(1) fence_opening [OF s(2)] by metis
  obtain ws where w: "closing s' ws r" "\<And>ws' r'. closing s' ws' r' \<Longrightarrow> length ws' \<le> length ws"
    using b(3) fence_end_iff by blast
  have "length body < length body2 \<or> length body = length body2 \<and> length ws2 \<le> length ws"
    if "fenced_block s info2 body2 ws2 r2" for info2 body2 ws2 r2
  proof -
    note h = that
    obtain s2 where o: "newline \<notin> set info2" "at_line True body2" "s = fence @ info2 @ newline # body2 @ s2" "closing s2 ws2 r2"
      using h unfolding block_parts by blast
    have "info2 @ newline # body2 @ s2 = info @ newline # rest" using o(3) s(1) by simp
    then have "rest = body2 @ s2" using first_split [OF o(1) s(2)] by blast
    moreover from this have "length body \<le> length body2" using b(4) o(2) closing_fence_end [OF o(4)] by blast
    ultimately show ?thesis using b(1) w(2) [of ws2 r2] o(4) by (cases "length body = length body2") auto
  qed
  moreover have "fenced_block s info body ws r" using s b(1,2) w(1) by (auto simp: block_parts)
  ultimately show ?thesis unfolding chosen_block_def by blast
qed

lemma chosen_least:
  "chosen_block s info body ws r \<Longrightarrow> fenced_block s info' body' ws' r' \<Longrightarrow>
     length body < length body' \<or> length body = length body' \<and> length ws' \<le> length ws"
  unfolding chosen_block_def by blast

lemma chosen_unique:
  assumes "chosen_block s info body ws r" and "chosen_block s info2 body2 ws2 r2"
  shows "r = r2"
proof -
  have "length body = length body2" "length ws = length ws2"
    using chosen_least [OF assms(1), of info2 body2 ws2 r2] chosen_least [OF assms(2), of info body ws r] assms
    unfolding chosen_block_def by linarith+
  moreover obtain s1 s2 where b: "newline \<notin> set info" "s = fence @ info @ newline # body @ fence @ ws @ r"
      "newline \<notin> set info2" "s = fence @ info2 @ newline # body2 @ fence @ ws2 @ r2"
    using assms by (auto simp: chosen_block_def fenced_block_def)
  moreover from b have "info @ newline # body @ fence @ ws @ r = info2 @ newline # body2 @ fence @ ws2 @ r2" by simp
  then have "body @ fence @ ws @ r = body2 @ fence @ ws2 @ r2" using first_split [OF b(1,3)] by blast
  ultimately show ?thesis by simp
qed

lemma fenced_iff: "fenced s = Some r \<longleftrightarrow> (\<exists>info body ws. chosen_block s info body ws r)"
proof
  assume "\<exists>info body ws. chosen_block s info body ws r"
  then obtain info body ws where c: "chosen_block s info body ws r" by blast
  then obtain r2 where r2: "fenced s = Some r2" using no_block by (fastforce simp: chosen_block_def)
  then show "fenced s = Some r" using fenced_chosen chosen_unique [OF c] by blast
qed (rule fenced_chosen)

lemma fenced_None: "fenced s = None \<longleftrightarrow> (\<nexists>info body ws r. fenced_block s info body ws r)"
  using no_block fenced_chosen unfolding chosen_block_def by (metis option.exhaust)

lemma strip_behind: "r = [] \<or> hd r = newline \<Longrightarrow> strip_fences b r = strip_fences False r"
proof -
  assume "r = [] \<or> hd r = newline"
  then have "\<not> startswith r fence" by (cases r) (auto simp: startswith_def fence_def numeral_3_eq_3)
  then have "fenced r = None" by (simp add: fenced_def)
  then show ?thesis by (subst (1 2) strip_fences.simps) (simp split: list.split)
qed

lemma unfenced_strip: "unfenced b s t \<Longrightarrow> strip_fences b s = t"
proof (induction rule: unfenced.induct)
  case (cut_block s info body ws r t)
  then have "fenced s = Some r" using fenced_iff by blast
  then have "strip_fences True s = strip_fences False r" by (subst strip_fences.simps) simp
  moreover have "r = [] \<or> hd r = newline" using cut_block.hyps(1) by (simp add: chosen_block_def fenced_block_def)
  ultimately show ?case using cut_block.IH strip_behind [of r "ws \<noteq> [] \<and> last ws = newline"] by simp
next
  case (keep_char b c s t)
  then have "(if b then fenced (c # s) else None) = None" by (simp add: fenced_None)
  then show ?case using keep_char.IH by (subst strip_fences.simps) (simp only: option.case list.case)
qed (subst strip_fences.simps, simp add: fenced_def startswith_def fence_def)

lemma unfenced_behind:
  assumes "r = [] \<or> hd r = newline" and "unfenced False r t"
  shows "unfenced b r t"
  using assms(2)
proof cases
  case (keep_char c s t')
  then have "c = newline" using assms(1) by simp
  then show ?thesis using keep_char by (auto intro!: unfenced.keep_char simp: fenced_block_def fence_def numeral_3_eq_3)
qed (auto intro: end_of_text)

lemma strip_unfenced: "unfenced b s (strip_fences b s)"
proof (induction b s rule: strip_fences.induct)
  case (1 b s)
  show ?case
  proof (cases "if b then fenced s else None")
    case (Some r)
    then obtain info body ws where c: "chosen_block s info body ws r" and b: "b" using fenced_iff by (auto split: if_splits)
    have "r = [] \<or> hd r = newline" using c by (simp add: chosen_block_def fenced_block_def)
    then have "unfenced (ws \<noteq> [] \<and> last ws = newline) r (strip_fences False r)" using 1(2) [OF Some] by (rule unfenced_behind)
    then have "unfenced True s (strip_fences False r)" by (rule cut_block [OF c])
    then show ?thesis using Some b by (subst strip_fences.simps) simp
  next
    case None
    show ?thesis
    proof (cases s)
      case (Cons c t)
      have "\<not> (b \<and> (\<exists>info body ws r. fenced_block (c # t) info body ws r))" using None Cons fenced_None [of "c # t"] by (simp split: if_splits)
      then have "unfenced b (c # t) (c # strip_fences (c = newline) t)" using 1(1) [OF None Cons] by (rule keep_char)
      then show ?thesis using None Cons by (subst strip_fences.simps) simp
    qed (use None in \<open>subst strip_fences.simps, simp add: end_of_text\<close>)
  qed
qed

lemma unfenced_iff: "unfenced b s t \<longleftrightarrow> strip_fences b s = t"
  using unfenced_strip strip_unfenced by blast

section \<open>The check\<close>

record repo_files =
  rp_root :: py_path
  rp_is_file :: "py_path \<Rightarrow> bool"
  rp_is_dir :: "py_path \<Rightarrow> bool"
  rp_read :: "py_path \<Rightarrow> string result"
  rp_resolve :: "py_path \<Rightarrow> py_path result"
  rp_wide :: "string \<Rightarrow> string"

text \<open>\<open>parsed.scheme or parsed.netloc or not parsed.path\<close>.\<close>

definition not_local :: "string \<Rightarrow> split_url \<Rightarrow> bool" where
  "not_local link u = (drop_scheme (clean_url link) \<noteq> clean_url link \<or> us_netloc u \<noteq> [] \<or> us_path u = [])"

definition source_path :: "repo_files \<Rightarrow> string \<Rightarrow> py_path" where
  "source_path fs relative = path_join (rp_root fs) (make_path relative)"

text \<open>\<open>target.relative_to(ROOT).as_posix()\<close>.\<close>

definition relative_text :: "repo_files \<Rightarrow> py_path \<Rightarrow> string" where
  "relative_text fs target = path_text \<lparr>pa_root = [], pa_parts = drop (length (pa_parts (rp_root fs))) (pa_parts target)\<rparr>"

definition strip_slashes :: "string \<Rightarrow> string" where
  "strip_slashes s = rev (dropWhile (\<lambda>c. c = CHR ''/'') (rev s))"

definition is_present :: "repo_files \<Rightarrow> string list \<Rightarrow> py_path \<Rightarrow> bool" where
  "is_present fs tracked target = (relative_text fs target \<in> set tracked
     \<or> rp_is_dir fs target \<and> list_ex (\<lambda>p. startswith p (strip_slashes (relative_text fs target) @ ''/'')) tracked)"

definition link_target :: "repo_files \<Rightarrow> string \<Rightarrow> split_url \<Rightarrow> py_path result" where
  "link_target fs relative u =
     rp_resolve fs (path_join (parent_path (source_path fs relative)) (make_path (unquote (rp_wide fs) (us_path u))))"

definition link_findings :: "repo_files \<Rightarrow> string list \<Rightarrow> string \<Rightarrow> string \<Rightarrow> string list result" where
  "link_findings fs tracked relative link =
     rbind (urlsplit link) (\<lambda>u.
     if not_local link u then Inr []
     else rbind (link_target fs relative u) (\<lambda>target.
       if \<not> is_relative_to target (rp_root fs)
       then Inr [''Link escapes repository: '' @ relative @ '' -> '' @ link]
       else if is_present fs tracked target then Inr []
       else Inr [''Local link is not tracked: '' @ relative @ '' -> '' @ link]))"

fun collect :: "('a \<Rightarrow> string list result) \<Rightarrow> 'a list \<Rightarrow> string list result" where
  "collect f [] = Inr []"
| "collect f (x # xs) = rbind (f x) (\<lambda>ys. rbind (collect f xs) (\<lambda>zs. Inr (ys @ zs)))"

definition markdown_findings :: "repo_files \<Rightarrow> string list \<Rightarrow> string \<Rightarrow> string list result" where
  "markdown_findings fs tracked relative =
     (if \<not> endswith relative ''.md'' then Inr []
      else if \<not> rp_is_file fs (source_path fs relative)
      then Inr [''Tracked Markdown file is missing: '' @ relative]
      else rbind (rp_read fs (source_path fs relative)) (\<lambda>t.
        collect (link_findings fs tracked relative) (find_links (strip_fences True t))))"

text \<open>\<open>check()\<close>: the errors, and what it prints when there is none.\<close>

definition check_repo :: "git \<Rightarrow> repo_files \<Rightarrow> (string list \<times> string list) result" where
  "check_repo git fs =
     rbind (tracked_files git) (\<lambda>tracked.
     if tracked = [] then Inr ([''No tracked files found; run this check in the repository.''], [])
     else rbind (ignored git private_paths) (\<lambda>hidden.
     rbind (ignored git public_paths) (\<lambda>exposed.
     rbind (ignored git tracked) (\<lambda>artifacts.
     rbind (collect (markdown_findings fs tracked) tracked) (\<lambda>links.
     let errors =
       map (\<lambda>p. ''Private path is not ignored: '' @ p) (sort (filter (\<lambda>p. p \<notin> set hidden) (remdups private_paths)))
       @ map (\<lambda>p. ''Public source/example path is ignored: '' @ p) (sort (remdups exposed))
       @ map (\<lambda>p. ''Ignored artifact is already tracked: '' @ p) (sort (remdups artifacts))
       @ links
     in Inr (errors, if errors \<noteq> [] then [] else
       [''Repository checks passed: '' @ nat_str (length tracked) @ '' tracked files; '' @ nat_str (length private_paths)
          @ '' private and '' @ nat_str (length public_paths) @ '' public path cases; local Markdown file targets resolve.'',
        ''Review content separately for secrets and personal/client data.'']))))))"

text \<open>The \<open>__main__\<close> block: exit code, stderr, stdout.\<close>

definition repo_main :: "(string list \<times> string list) result \<Rightarrow> (int \<times> string list \<times> string list) result" where
  "repo_main checked = (case checked of
       Inl e \<Rightarrow> (case e of
           RuntimeError d \<Rightarrow> Inr (1, [''Repository check failed: '' @ d], [])
         | ValueError d \<Rightarrow> Inr (1, [''Repository check failed: '' @ d], [])
         | OtherException c d \<Rightarrow> if c \<in> {''OSError'', ''UnicodeDecodeError'', ''UnicodeEncodeError''}
             then Inr (1, [''Repository check failed: '' @ d], []) else Inl e
         | _ \<Rightarrow> Inl e)
     | Inr (findings, printed) \<Rightarrow> Inr (if findings = [] then 0 else 1, findings, printed))"

section \<open>What the gate decides\<close>

text \<open>What the code relies on from Git's \<open>-z\<close> forms: every path is followed by one NUL.\<close>

definition git_text :: "string \<Rightarrow> bool" where
  "git_text p = (p \<noteq> [] \<and> nul \<notin> set p)"

definition git_documented :: "git \<Rightarrow> string list \<Rightarrow> string set \<Rightarrow> bool" where
  "git_documented git tracked hidden =
     (list_all git_text tracked
      \<and> (\<exists>err. git [''git'', ''-c'', ''core.excludesFile=/dev/null'', ''ls-files'', ''-z''] None
           = (0, concat (map (\<lambda>p. p @ [nul]) tracked), err))
      \<and> (\<forall>paths. paths \<noteq> [] \<and> list_all git_text paths \<longrightarrow> (let hits = filter (\<lambda>p. p \<in> hidden) paths in
           \<exists>err. git [''git'', ''-c'', ''core.excludesFile=/dev/null'', ''check-ignore'', ''--no-index'', ''-z'', ''--stdin'']
               (Some (join_with [nul] paths @ [nul])) = (if hits = [] then 1 else 0, concat (map (\<lambda>p. p @ [nul]) hits), err))))"

text \<open>
  A path of the repository, relative to its root, leads to something tracked: it is a tracked path, or
  a directory and a tracked path goes on behind it and a slash.
\<close>

definition leads_to_tracked :: "repo_files \<Rightarrow> string list \<Rightarrow> py_path \<Rightarrow> string \<Rightarrow> bool" where
  "leads_to_tracked fs tracked target rel = (rel \<in> set tracked
     \<or> rp_is_dir fs target \<and> (\<exists>base slashes rest. rel = base @ slashes \<and> (\<forall>c \<in> set slashes. c = CHR ''/'')
          \<and> (base = [] \<or> last base \<noteq> CHR ''/'') \<and> base @ ''/'' @ rest \<in> set tracked))"

text \<open>
  A link is in order when it has a scheme, a host or no path, or when its path, unquoted and taken
  from the directory of its file, resolves to a place below the root that leads to something
  tracked.
\<close>

definition link_ok :: "repo_files \<Rightarrow> string list \<Rightarrow> string \<Rightarrow> string \<Rightarrow> bool" where
  "link_ok fs tracked relative link = (\<exists>u. urlsplit link = Inr u \<and>
     (drop_scheme (clean_url link) \<noteq> clean_url link \<or> us_netloc u \<noteq> [] \<or> us_path u = []
      \<or> (\<exists>target parts. rp_resolve fs (path_join (parent_path (path_join (rp_root fs) (make_path relative)))
              (make_path (unquote (rp_wide fs) (us_path u)))) = Inr target
           \<and> pa_root target = pa_root (rp_root fs) \<and> pa_parts target = pa_parts (rp_root fs) @ parts
           \<and> leads_to_tracked fs tracked target (if parts = [] then ''.'' else join_with ''/'' parts))))"

definition markdown_ok :: "repo_files \<Rightarrow> string list \<Rightarrow> string \<Rightarrow> bool" where
  "markdown_ok fs tracked relative = (rp_is_file fs (path_join (rp_root fs) (make_path relative))
     \<and> (\<exists>t outside links. rp_read fs (path_join (rp_root fs) (make_path relative)) = Inr t
          \<and> unfenced True t outside \<and> link_texts outside links
          \<and> (\<forall>link \<in> set links. link_ok fs tracked relative link)))"

lemma strip_slashes_iff:
  "strip_slashes rel = base \<longleftrightarrow> (\<exists>slashes. rel = base @ slashes \<and> (\<forall>c \<in> set slashes. c = CHR ''/'')
     \<and> (base = [] \<or> last base \<noteq> CHR ''/''))"
proof
  let ?n = "takeWhile (\<lambda>c. c = CHR ''/'') (rev rel)" and ?d = "dropWhile (\<lambda>c. c = CHR ''/'') (rev rel)"
  assume b: "strip_slashes rel = base"
  have "rev rel = ?n @ ?d" by simp
  then have "rel = rev ?d @ rev ?n" by (metis rev_append rev_rev_ident)
  moreover have "base = [] \<or> last base \<noteq> CHR ''/''"
    using b hd_dropWhile [of "\<lambda>c. c = CHR ''/''" "rev rel"] by (cases "?d = []") (auto simp: strip_slashes_def last_rev)
  ultimately show "\<exists>slashes. rel = base @ slashes \<and> (\<forall>c \<in> set slashes. c = CHR ''/'') \<and> (base = [] \<or> last base \<noteq> CHR ''/'')"
    using b by (intro exI [of _ "rev ?n"]) (auto simp: strip_slashes_def dest: set_takeWhileD)
next
  assume "\<exists>slashes. rel = base @ slashes \<and> (\<forall>c \<in> set slashes. c = CHR ''/'') \<and> (base = [] \<or> last base \<noteq> CHR ''/'')"
  then obtain slashes where s: "rel = base @ slashes" "\<forall>c \<in> set slashes. c = CHR ''/''" "base = [] \<or> last base \<noteq> CHR ''/''" by blast
  have "dropWhile (\<lambda>c. c = CHR ''/'') (rev slashes @ rev base) = dropWhile (\<lambda>c. c = CHR ''/'') (rev base)"
    using s(2) by (intro dropWhile_append2) simp
  also have "\<dots> = rev base" using s(3) by (cases base rule: rev_cases) auto
  finally show "strip_slashes rel = base" using s(1) by (simp add: strip_slashes_def)
qed

lemma below_tracked:
  "list_ex (\<lambda>p. startswith p (strip_slashes rel @ ''/'')) tracked \<longleftrightarrow>
     (\<exists>base slashes rest. rel = base @ slashes \<and> (\<forall>c \<in> set slashes. c = CHR ''/'')
        \<and> (base = [] \<or> last base \<noteq> CHR ''/'') \<and> base @ ''/'' @ rest \<in> set tracked)" (is "?l \<longleftrightarrow> ?r")
proof
  assume ?l
  then obtain rest where "strip_slashes rel @ ''/'' @ rest \<in> set tracked" by (auto simp: list_ex_iff startswith_iff)
  moreover obtain slashes where "rel = strip_slashes rel @ slashes" "\<forall>c \<in> set slashes. c = CHR ''/''"
    "strip_slashes rel = [] \<or> last (strip_slashes rel) \<noteq> CHR ''/''" using iffD1 [OF strip_slashes_iff refl, of rel] by (elim exE conjE)
  ultimately show ?r by (intro exI [of _ "strip_slashes rel"] exI [of _ slashes] exI [of _ rest]) simp
next
  assume ?r
  then obtain base slashes rest where b: "rel = base @ slashes" "\<forall>c \<in> set slashes. c = CHR ''/''"
    "base = [] \<or> last base \<noteq> CHR ''/''" "base @ ''/'' @ rest \<in> set tracked" by (elim exE conjE)
  have "strip_slashes rel = base" unfolding strip_slashes_iff by (rule exI [of _ slashes]) (intro conjI b)
  moreover have "startswith (base @ ''/'' @ rest) (base @ ''/'')" by (simp add: startswith_def)
  ultimately show ?l using b(4) unfolding list_ex_iff by (intro bexI [of _ "base @ ''/'' @ rest"]) simp_all
qed

lemma present_iff:
  assumes "pa_parts target = pa_parts (rp_root fs) @ parts"
  shows "is_present fs tracked target \<longleftrightarrow> leads_to_tracked fs tracked target (if parts = [] then ''.'' else join_with ''/'' parts)"
proof -
  have "relative_text fs target = (if parts = [] then ''.'' else join_with ''/'' parts)"
    using assms by (simp add: relative_text_def path_text_def)
  then show ?thesis by (simp only: is_present_def leads_to_tracked_def below_tracked)
qed

lemma below_iff: "is_relative_to p q \<longleftrightarrow> pa_root p = pa_root q \<and> (\<exists>parts. pa_parts p = pa_parts q @ parts)"
  by (auto simp: is_relative_to_def) (metis append_take_drop_id)

lemma link_findings_Nil: "link_findings fs tracked relative link = Inr [] \<longleftrightarrow> link_ok fs tracked relative link"
proof (cases "urlsplit link")
  case (Inr u)
  show ?thesis
  proof (cases "not_local link u \<or> (\<exists>e. link_target fs relative u = Inl e)")
    case True
    then show ?thesis using Inr
      by (auto simp: link_findings_def link_ok_def not_local_def link_target_def source_path_def)
  next
    case False
    then obtain target where t: "link_target fs relative u = Inr target" by (cases "link_target fs relative u") auto
    have "link_findings fs tracked relative link = Inr [] \<longleftrightarrow> is_relative_to target (rp_root fs) \<and> is_present fs tracked target"
      using Inr False t by (simp add: link_findings_def)
    also have "\<dots> \<longleftrightarrow> pa_root target = pa_root (rp_root fs) \<and> (\<exists>parts. pa_parts target = pa_parts (rp_root fs) @ parts
        \<and> leads_to_tracked fs tracked target (if parts = [] then ''.'' else join_with ''/'' parts))"
      using present_iff [of target fs _ tracked] unfolding below_iff by blast
    also have "\<dots> \<longleftrightarrow> link_ok fs tracked relative link"
      using Inr False t by (simp add: link_ok_def not_local_def link_target_def source_path_def)
    finally show ?thesis .
  qed
qed (simp add: link_findings_def link_ok_def)

lemma collect_Nil: "collect f xs = Inr [] \<longleftrightarrow> (\<forall>x \<in> set xs. f x = Inr [])"
  by (induction xs) auto

lemma markdown_findings_Nil:
  "markdown_findings fs tracked relative = Inr [] \<longleftrightarrow> \<not> endswith relative ''.md'' \<or> markdown_ok fs tracked relative"
  by (auto simp: markdown_findings_def markdown_ok_def collect_Nil link_findings_Nil unfenced_iff link_texts_iff source_path_def)

lemma git_records: "paths \<noteq> [] \<Longrightarrow> concat (map (\<lambda>p. p @ [nul]) paths) = join_with [nul] paths @ [nul]"
proof (induction paths)
  case (Cons p paths)
  then show ?case by (cases paths) simp_all
qed simp

lemma join_last: "paths \<noteq> [] \<Longrightarrow> list_all git_text paths \<Longrightarrow> join_with [nul] paths \<noteq> [] \<and> last (join_with [nul] paths) \<noteq> nul"
proof (induction paths)
  case (Cons p paths)
  then have "p \<noteq> []" "last p \<noteq> nul" by (auto simp: git_text_def dest: last_in_set)
  then show ?case using Cons by (cases paths) auto
qed simp

lemma split_records:
  assumes "paths \<noteq> []" and "list_all git_text paths"
  shows "split_nul (concat (map (\<lambda>p. p @ [nul]) paths)) = paths"
proof -
  let ?j = "join_with [nul] paths"
  have "dropWhile (\<lambda>c. c = nul) (rev ?j) = rev ?j"
    using join_last [OF assms] by (cases ?j rule: rev_cases) auto
  moreover have "split_on nul ?j = paths" using assms by (intro split_on_join) (auto simp: list_all_iff git_text_def)
  ultimately show ?thesis by (simp add: git_records [OF assms(1)] split_nul_def)
qed

lemma clean_lists: "list_all git_text private_paths" "list_all git_text public_paths"
  "private_paths \<noteq> []" "public_paths \<noteq> []"
  by code_simp+

lemma disjoint_lists: "set public_paths \<inter> set private_paths = {} \<and> set [''README.md''] \<inter> set private_paths = {}"
  by code_simp

lemma ignored_documented:
  assumes "git_documented git tracked hidden" and "list_all git_text paths"
  shows "ignored git paths = Inr (filter (\<lambda>p. p \<in> hidden) paths)"
proof (cases "paths = []")
  case False
  let ?hits = "filter (\<lambda>p. p \<in> hidden) paths"
  have h: "list_all git_text ?hits" using assms(2) by (auto simp: list_all_iff)
  obtain err where g: "git [''git'', ''-c'', ''core.excludesFile=/dev/null'', ''check-ignore'', ''--no-index'', ''-z'', ''--stdin'']
      (Some (join_with [nul] paths @ [nul])) = (if ?hits = [] then 1 else 0, concat (map (\<lambda>p. p @ [nul]) ?hits), err)"
    using assms False unfolding git_documented_def Let_def by blast
  then show ?thesis using False split_records [OF _ h]
    by (cases "?hits = []") (auto simp: ignored_def run_git_def git_records)
qed (simp add: ignored_def)

lemma tracked_documented:
  assumes "git_documented git tracked hidden"
  shows "tracked_files git = Inr tracked"
proof -
  have t: "list_all git_text tracked" using assms by (simp add: git_documented_def)
  then have "filter (\<lambda>p. p \<noteq> []) tracked = tracked" by (auto simp: filter_id_conv list_all_iff git_text_def)
  moreover have "split_nul (concat (map (\<lambda>p. p @ [nul]) tracked)) = (if tracked = [] then [[]] else tracked)"
    using split_records [OF _ t] by (simp add: split_nul_def)
  ultimately show ?thesis using assms
    by (auto simp: git_documented_def tracked_files_def run_git_def)
qed

text \<open>
  C36: the repository gate passes exactly the repositories it is for. With a Git whose \<open>-z\<close> output
  is as documented, \<open>check()\<close> returns without a finding precisely when there are tracked files,
  every private path is ignored, no public path and no tracked file is, and in every tracked
  Markdown file, once its fenced blocks are cut out, every link that has neither a scheme nor a
  host and has a path leads, inside the repository, to a tracked file or to a directory with one
  below it. What a link is and what a fenced block is are specified without the code's scans. A
  link to the root itself leads nowhere in this sense (\<open>root_link_is_reported\<close>).
\<close>

theorem repository_gate_decides:
  assumes "git_documented git tracked hidden"
  shows "(\<exists>out. check_repo git fs = Inr ([], out)) \<longleftrightarrow> tracked \<noteq> [] \<and> set private_paths \<subseteq> hidden
     \<and> set public_paths \<inter> hidden = {} \<and> set tracked \<inter> hidden = {}
     \<and> (\<forall>relative \<in> {r \<in> set tracked. endswith r ''.md''}. markdown_ok fs tracked relative)"
proof -
  have t: "list_all git_text tracked" using assms by (simp add: git_documented_def)
  note ig = ignored_documented [OF assms clean_lists(1)] ignored_documented [OF assms clean_lists(2)]
    ignored_documented [OF assms t]
  have sorted_Nil: "sort xs = [] \<longleftrightarrow> xs = []" for xs :: "string list"
    by (metis set_empty set_sort)
  have "(\<exists>out. check_repo git fs = Inr ([], out)) \<longleftrightarrow> tracked \<noteq> []
      \<and> filter (\<lambda>p. p \<notin> set (filter (\<lambda>p. p \<in> hidden) private_paths)) (remdups private_paths) = []
      \<and> filter (\<lambda>p. p \<in> hidden) public_paths = [] \<and> filter (\<lambda>p. p \<in> hidden) tracked = []
      \<and> collect (markdown_findings fs tracked) tracked = Inr []"
    unfolding check_repo_def tracked_documented [OF assms] rbind_simps ig Let_def
    by (cases "collect (markdown_findings fs tracked) tracked") (auto simp: sorted_Nil)
  then show ?thesis
    by (auto simp: collect_Nil markdown_findings_Nil filter_empty_conv)
qed

definition sample_git :: "string list \<Rightarrow> string list \<Rightarrow> git" where
  "sample_git tracked hidden args input_text = (case input_text of
       None \<Rightarrow> (0, concat (map (\<lambda>p. p @ [nul]) tracked), [])
     | Some given \<Rightarrow> (let hits = filter (\<lambda>p. p \<in> set hidden) (split_nul given) in
         (if hits = [] then 1 else 0, concat (map (\<lambda>p. p @ [nul]) hits), [])))"

lemma sample_git_documented: "list_all git_text tracked \<Longrightarrow> git_documented (sample_git tracked hidden) tracked (set hidden)"
  using split_records by (auto simp: git_documented_def sample_git_def Let_def git_records [symmetric])

definition sample_files :: repo_files where
  "sample_files = \<lparr>rp_root = make_path ''/r'', rp_is_file = \<lambda>p. p = make_path ''/r/README.md'', rp_is_dir = \<lambda>p. False,
     rp_read = \<lambda>p. Inr ''[this](README.md#top) [web](https://rheo.test/)'', rp_resolve = Inr, rp_wide = \<lambda>s. s\<rparr>"

lemma sample_readme: "markdown_findings sample_files [''README.md''] ''README.md'' = Inr []"
  by code_simp

lemma sample_name: "endswith ''README.md'' ''.md''"
  by code_simp

theorem repository_gate_decides_witness:
  "git_documented (sample_git [''README.md''] private_paths) [''README.md''] (set private_paths)
   \<and> (\<exists>out. check_repo (sample_git [''README.md''] private_paths) sample_files = Inr ([], out))"
proof -
  have d: "git_documented (sample_git [''README.md''] private_paths) [''README.md''] (set private_paths)"
    by (rule sample_git_documented) (simp add: git_text_def)
  moreover have "markdown_ok sample_files [''README.md''] ''README.md''"
    using sample_readme sample_name by (simp add: markdown_findings_Nil)
  moreover have "set public_paths \<inter> set private_paths = {} \<and> set [''README.md''] \<inter> set private_paths = {}"
    by (simp only: disjoint_lists)
  ultimately show ?thesis using repository_gate_decides [OF d, of sample_files] by simp
qed

text \<open>
  A link to the repository's root is always reported: its text is \<open>.\<close>, and no tracked path starts
  with \<open>./\<close>.
\<close>

lemma root_link_is_reported:
  assumes "urlsplit link = Inr u" and "\<not> not_local link u" and "link_target fs relative u = Inr (rp_root fs)"
    and "''.'' \<notin> set tracked" and "\<forall>p \<in> set tracked. \<not> startswith p ''./''"
  shows "link_findings fs tracked relative link = Inr [''Local link is not tracked: '' @ relative @ '' -> '' @ link]"
  using assms by (auto simp: link_findings_def is_present_def relative_text_def path_text_def strip_slashes_def
      is_relative_to_def list_ex_iff)

end
