(* ===== verification/Spec2Isabelle.thy ===== *)
theory Spec2Isabelle
  imports Api_Surfaces Resolver Cli Secret_Value Web_Platform Repo_Check
begin

text \<open>
  Verification of rheo-stream: the core library (\<open>packages/core/src/rheo_core\<close>, called \<open>core\<close> below),
  its contracts (\<open>packages/contracts/src/rheo_contracts\<close>), the core process (\<open>apps/core\<close>), the MCP
  facade (\<open>apps/mcp\<close>), the operator command (\<open>apps/cli\<close>) and the repository's gates (\<open>scripts\<close>).

  \<^bold>\<open>The program.\<close> A deployment is one PostgreSQL cluster: a control database (accounts, identities,
  workspaces, memberships, sessions, grants, access tokens) and one database per workspace. A
  request arrives with a session cookie or a bearer token, through the browser routes
  (\<open>auth_routes.py\<close>), the API (\<open>api_routes.py\<close>), the internal listener of the web tier
  (\<open>internal_routes.py\<close>), the MCP facade or the command line. A context factory
  (\<open>boundary/factories.py\<close>) turns the credential into a \<open>WorkspaceContext\<close> or a refusal; the
  operation registry authorizes a call under that context; \<open>dispatch\<close> runs the handler in one unit
  of work on the workspace's own database, found by routing the context through the control plane
  and the pool of engines. Settings are resolved on every use from the package defaults, the
  deployment file, the environment and the override rows, each bounded by the floor below it.
  Startup and the operator command bring a deployment to the point where all this works:
  settings, data root, secrets, control database, control chain, workspace chains.

  \<^bold>\<open>How the code is modelled.\<close> A Python class with data is a record, an enum a datatype, a \<open>UUID\<close> a
  128-bit word, \<open>bytes\<close> a list of 8-bit words, an \<open>int\<close> an \<open>int\<close>, a time a number of microseconds,
  a \<open>str\<close> a list of Latin-1 characters. The exceptions of the program are one datatype (\<open>py_exc\<close>)
  and every fallible function returns \<open>result\<close>, an exception or a value; a refusal the code
  returns rather than raises is a value. A database is a record of row lists, a function that
  runs in the caller's transaction returns the new database or the exception, and a step that
  commits on its own is an \<open>action\<close>: it returns its result with the state, also when it raises.
  The clock, random bytes and fresh identifiers are arguments of the operation that draws them.

  \<^bold>\<open>Theories and sources.\<close>

    \<^item> \<open>Rheo_Prelude\<close>, \<open>Py_Text\<close>: exceptions, results, actions, Python's string, number and \<open>repr\<close> texts.
    \<^item> \<open>Interfaces\<close>: the locales shared by several components, a text codec and a declaration table.
      \<open>Text_Patterns\<close> adds \<open>recognizer\<close>, a matcher of a regular expression with its language.
    \<^item> \<open>Settings_Schema\<close> (\<open>settings/schema.py\<close>), \<open>Settings_Deployment\<close> (\<open>defaults.py\<close>, \<open>deployment.py\<close>),
      \<open>Settings_Resolver\<close> (\<open>resolver.py\<close>, \<open>write_path.py\<close>): declarations and their checks, the text forms,
      the layers, the floors, resolution, and the check of an override before it is stored.
    \<^item> \<open>Workspace_Context\<close>, \<open>Record_Ref\<close>: the contract types and record references.
    \<^item> \<open>Control_Plane\<close> (\<open>storage/control_tables.py\<close>, \<open>control_plane.py\<close>): ten tables with their constraints and
      every function over them; \<open>control_step\<close> is any one of them and \<open>control_ok\<close> the invariant.
      \<open>Control_History\<close>: what no sequence of such steps takes back.
    \<^item> \<open>Workspace_Db\<close> (\<open>core_tables.py\<close>, \<open>repositories.py\<close>), \<open>Storage_Pool\<close> (\<open>backend.py\<close>, \<open>pools.py\<close>, \<open>routing.py\<close>),
      \<open>Postgres_Backend\<close> (\<open>postgres.py\<close>), \<open>Provisioning\<close> (\<open>provisioning.py\<close>, \<open>migrations/orchestrator.py\<close>),
      \<open>Data_Root\<close> (\<open>data_root.py\<close>): the storage layer.
    \<^item> \<open>Boundary\<close>, \<open>Operations_Registry\<close>, \<open>Factories\<close>, \<open>Dispatch\<close>, \<open>Core_Ops\<close>, \<open>Resolver\<close>
      (\<open>core/boundary\<close>, \<open>core/operations\<close>, \<open>refs/resolver.py\<close>): authority, from credential to effect.
    \<^item> \<open>Token_Format\<close>, \<open>Tokens\<close> (\<open>core/tokens\<close>, \<open>settings/storage_source.py\<close>), \<open>Sessions\<close> (\<open>core/sessions\<close>),
      \<open>Identity\<close>, \<open>Github_Provider\<close> (\<open>core/identity\<close>), \<open>Secrets\<close>, \<open>Secret_Value\<close> (\<open>core/secrets\<close>),
      \<open>Uuid7\<close> (\<open>refs/uuid7.py\<close>): credentials.
    \<^item> \<open>Urls\<close>, \<open>Routing\<close> (\<open>core/routing\<close>), \<open>Auth_Routes\<close>, \<open>Api_Surfaces\<close>, \<open>Startup\<close> (\<open>apps/core\<close>, \<open>apps/mcp\<close>):
      the surfaces and the start of the process.
    \<^item> \<open>Cli_Context\<close>, \<open>Doctor\<close>, \<open>Cli\<close> (\<open>apps/cli\<close>): the operator command, its state and its two streams.
    \<^item> \<open>Literal_Scan\<close> (\<open>check_routing_literals.py\<close>), \<open>Web_Platform\<close> (\<open>check_web_platform.py\<close>),
      \<open>Repo_Check\<close> (\<open>check_repository.py\<close>): the three gates.

  Within a theory the definitions follow the order of the source and keep its names; a name that
  HOL has already carries a suffix or says what it is (\<open>list_command\<close> is \<open>list_workspaces_command\<close>).

  \<^bold>\<open>What the lemmas show.\<close>

    \<^item> Invariants: \<open>control_ok\<close> is kept by every control-plane function, and a registry built by
      registration is sound; both are used by everything above.
    \<^item> Authority: no factory yields more than the membership and the snapshot allow; a token never
      reaches the operations that issue tokens; a revoked, expired or foreign credential yields no
      context, whatever happened to the control plane in between; a forged origin changes nothing.
    \<^item> Atomicity: a unit of work applies all of its writes or none, and \<open>dispatch\<close> commits exactly when
      the outcome says so. A grant is consumed at most once.
    \<^item> Refinement and equivalence: settings resolution is the abstract layering \<open>effective_value\<close>, the
      engine pool is the list of last used names, MCP shows exactly what it allows, and each gate
      passes exactly the trees described without reference to its scan.
    \<^item> Liveness: repair completes a provisioning that was cut short behind any of its commits, however
      often (\<open>interrupted\<close>), startup returns
      whatever the workspace chains do, a sign-in across hosts ends signed in, and
      \<open>rheo workspace create\<close> ends in an active workspace.
    \<^item> Round trips: record and secret references, token texts, printed URLs, the state of a login.
    \<^item> Hard cases of the code: each finding of the development is a lemma next to the definitions it
      is about (for example \<open>ported_base_host_refused\<close>, \<open>repeated_hop_raises\<close>, \<open>foreign_scheme_is_accepted\<close>,
      \<open>ancestor_made_in_checkout\<close>, \<open>root_link_is_reported\<close>).

  \<^bold>\<open>Termination.\<close> Recursion that is not structural has a measure (\<open>function\<close> with a \<open>termination\<close> proof).
  The comment strippers of \<open>Literal_Scan\<close> are the source's \<open>while\<close> loops over an index, as
  \<open>partial_function (option)\<close>, and are proved to return on every text. No definition uses fuel.

  \<^bold>\<open>Parameters and what is assumed of them.\<close> SHA-256, pydantic's validation, Alembic's known revisions
  and upgrade, \<open>CREATE DATABASE\<close>, \<open>tomllib\<close>, SQLAlchemy's URL parser, the HTTP client of the identity
  provider, the file system (what it answers before the first effect; the errors of the operating
  system on a change are not modelled), \<open>argparse\<close>, the JSON reader and printer and Git are functions the definitions
  take as arguments. A theorem that relies on one states it as a hypothesis: \<open>env_works\<close> (the
  cluster creates databases and the core chain upgrades them), \<open>git_documented\<close> (the \<open>-z\<close>
  forms), and that a digest just computed is not already in the table it goes into. A witness
  behind each theorem with hypotheses instantiates them with concrete functions.

  \<^bold>\<open>Concurrency.\<close> A transaction is one step, as PostgreSQL's locks and constraints make it; a theorem
  about interleaving quantifies over the states other steps may lead to (\<open>control_step\<close>), and a
  provisioning walker may be overtaken by another one between its steps. The mutexes of the
  engine pool, the backend and \<open>uuid7\<close> make their bodies single steps; waiting for an advisory lock is
  not modelled.

  \<^bold>\<open>Not modelled.\<close>

    \<^item> \<open>apps/core\<close>: \<open>main.py\<close>, \<open>serve.py\<close>, \<open>internal_app.py\<close> (wiring of FastAPI and uvicorn), and FastAPI's own
      request parsing; \<open>apps/web\<close> and \<open>deploy\<close> (not Python); the worker (an empty package).
    \<^item> The Alembic environments and revisions (they create the modelled tables), the \<open>add_parser\<close>
      functions of the commands, and the package fronts (re-exports).
    \<^item> The conversion of a database row into its dataclass, the module-level wrappers around a process-wide
      registry, log records, the timing of constant-time comparison, CPython's limit on decimal digits, and
      characters beyond Latin-1 other than by the parameter \<open>wide\<close>.
\<close>

end
